theory Spec2Isabelle
  imports Main
begin

section \<open>The transaction core of logic/transaction.js\<close>

text \<open>
  A shallow embedding of \<^verbatim>\<open>src/logic/transaction.js\<close>. Every operation of the
  \<^verbatim>\<open>Transaction\<close> prototype that the properties below speak about is a HOL
  function with the source's name. What the source receives from outside
  (the handler registry, the genesis block, SHA-256, Ed25519, the slot calendar, the
  constants) is a field of the record \<open>env\<close>, passed to every operation.

  Conventions.
  \<^item> A value that may be \<^verbatim>\<open>null\<close> or \<^verbatim>\<open>undefined\<close> is an \<open>option\<close>;
    JavaScript truthiness of such a string is \<open>truthy\<close>.
  \<^item> A function that can throw returns \<open>string + 'a\<close>; \<open>Inl m\<close> is the thrown
    value, given by the text \<^verbatim>\<open>e.toString()\<close> yields for it.
  \<^item> An operation that completes through its callback returns the callback's
    error argument (\<open>None\<close> for a call with no error) together with the account
    state it leaves behind.
  \<^item> An amount or a fee is a JavaScript number, a binary64 value (\<open>number\<close>); the
    balances of the account store are integers.
  \<^item> A byte is a \<open>nat\<close> below 256; a \<^verbatim>\<open>Buffer\<close> is a list of bytes.
\<close>

subsection \<open>JavaScript values\<close>

type_synonym byte = nat
type_synonym buffer = "byte list"

definition truthy :: "string option \<Rightarrow> bool" where
  "truthy v = (case v of None \<Rightarrow> False | Some s \<Rightarrow> s \<noteq> [])"

text \<open>\<^verbatim>\<open>throw Error(e.toString())\<close>: the new error prints as \<^verbatim>\<open>Error: \<close> and the old text.\<close>

definition rethrow :: "string \<Rightarrow> string" where
  "rethrow e = ''Error: '' @ e"

definition digit_char :: "nat \<Rightarrow> char" where
  "digit_char d = char_of (48 + d)"

text \<open>The decimal digits of a natural number, most significant first.\<close>

function dec_digits :: "nat \<Rightarrow> string" where
  "dec_digits n = (if n < 10 then [digit_char n] else dec_digits (n div 10) @ [digit_char (n mod 10)])"
  by pat_completeness auto
termination
  by (relation "measure id") auto

declare dec_digits.simps [simp del]

text \<open>\<^verbatim>\<open>String(x)\<close> for an integer-valued number below \<open>10^21\<close> in magnitude.\<close>

definition int_string :: "int \<Rightarrow> string" where
  "int_string x = (if x < 0 then ''-'' @ dec_digits (nat (- x)) else dec_digits (nat x))"

text \<open>\<^verbatim>\<open>indexOf\<close> of a one-character pattern: the first position, or \<open>-1\<close>.\<close>

fun indexOf :: "string \<Rightarrow> char \<Rightarrow> int" where
  "indexOf [] c = -1"
| "indexOf (x # xs) c = (if x = c then 0 else (let i = indexOf xs c in if i < 0 then -1 else i + 1))"

text \<open>\<^verbatim>\<open>toUpperCase\<close> on the ASCII letters; other characters are left as they are.\<close>

definition upper_char :: "char \<Rightarrow> char" where
  "upper_char c = (let n = (of_char c :: nat) in if 97 \<le> n \<and> n \<le> 122 then char_of (n - 32) else c)"

definition toUpperCase :: "string \<Rightarrow> string" where
  "toUpperCase s = map upper_char s"

text \<open>\<^verbatim>\<open>String(v)\<close> of a string that may be undefined.\<close>

definition String_of :: "string option \<Rightarrow> string" where
  "String_of v = (case v of None \<Rightarrow> ''undefined'' | Some s \<Rightarrow> s)"

subsection \<open>Numbers\<close>

text \<open>
  A JavaScript number is a binary64 value: \<^verbatim>\<open>NaN\<close>, an infinity, or a finite value
  \<open>m * 2 ^ e\<close> with a sign. The flag of \<open>Infinity\<close> and the first argument of
  \<open>Finite\<close> are the sign, \<open>True\<close> for a negative number. \<open>is_double\<close> says that \<open>m\<close>
  and \<open>e\<close> are those of a binary64 value in its normal form: a mantissa of 53 bits
  with the top bit set, or the least exponent (the subnormal numbers and the two
  zeros). Every binary64 value has exactly one such form.
\<close>

datatype number = NaN | Infinity bool | Finite bool nat int

definition is_double :: "number \<Rightarrow> bool" where
  "is_double x =
     (case x of
        Finite neg m e \<Rightarrow> m < 2 ^ 53 \<and> - 1074 \<le> e \<and> e \<le> 971 \<and> (2 ^ 52 \<le> m \<or> e = - 1074)
      | _ \<Rightarrow> True)"

text \<open>The magnitude \<open>m * 2 ^ e\<close> as a fraction of two natural numbers.\<close>

definition fraction :: "nat \<Rightarrow> int \<Rightarrow> nat \<times> nat" where
  "fraction m e = (if 0 \<le> e then (m * 2 ^ nat e, 1) else (m, 2 ^ nat (- e)))"

definition with_sign :: "bool \<Rightarrow> nat \<Rightarrow> int" where
  "with_sign neg p = (if neg then - int p else int p)"

text \<open>
  The integer part of the binary logarithm of \<open>p / q\<close>, for positive \<open>p\<close> and \<open>q\<close>:
  how often \<open>q\<close> can be doubled below \<open>p\<close>, or how often \<open>p\<close> must be doubled to
  reach \<open>q\<close>.
\<close>

function log_up :: "nat \<Rightarrow> nat \<Rightarrow> nat" where
  "log_up p q = (if 0 < q \<and> 2 * q \<le> p then Suc (log_up p (2 * q)) else 0)"
  by pat_completeness auto
termination
  by (relation "measure (\<lambda>(p, q). p - q)") auto

function log_down :: "nat \<Rightarrow> nat \<Rightarrow> nat" where
  "log_down p q = (if 0 < p \<and> p < q then Suc (log_down (2 * p) q) else 0)"
  by pat_completeness auto
termination
  by (relation "measure (\<lambda>(p, q). q - p)") auto

declare log_up.simps [simp del] log_down.simps [simp del]

definition floor_log2 :: "nat \<Rightarrow> nat \<Rightarrow> int" where
  "floor_log2 p q = (if q \<le> p then int (log_up p q) else - int (log_down p q))"

text \<open>\<open>a / b\<close> rounded to the nearest natural number, a tie to the even one.\<close>

definition round_half_even :: "nat \<Rightarrow> nat \<Rightarrow> nat" where
  "round_half_even a b =
     (let d = a div b; r = a mod b
      in if 2 * r < b then d else if b < 2 * r then d + 1 else if even d then d else d + 1)"

text \<open>
  The number nearest to the fraction \<open>p / q\<close> with the given sign, a tie to the even
  mantissa: the rounding of binary64 arithmetic, and of the conversion of a decimal
  text to a number. The exponent is the one at which the mantissa has 53 bits, and
  not less than the least exponent; a mantissa that rounds up to \<open>2 ^ 53\<close> moves to the
  next exponent; past the greatest exponent the result is an infinity.
\<close>

definition round_fraction :: "bool \<Rightarrow> nat \<Rightarrow> nat \<Rightarrow> number" where
  "round_fraction neg p q =
     (if p = 0 then Finite neg 0 (- 1074)
      else (let e = max (- 1074) (floor_log2 p q - 52);
                m = (if 0 \<le> e then round_half_even p (q * 2 ^ nat e)
                     else round_half_even (p * 2 ^ nat (- e)) q);
                e1 = (if m = 2 ^ 53 then e + 1 else e);
                m1 = (if m = 2 ^ 53 then 2 ^ 52 else m)
            in if 971 < e1 then Infinity neg else Finite neg m1 e1))"

text \<open>An integer read as a number, as a literal or a JSON text of it is.\<close>

definition Number_of :: "int \<Rightarrow> number" where
  "Number_of x = round_fraction (x < 0) (nat \<bar>x\<bar>) 1"

text \<open>The number with the decimal digits \<open>c\<close> and the decimal exponent \<open>t\<close>: \<open>c * 10 ^ t\<close>, rounded.\<close>

definition decimal :: "bool \<Rightarrow> nat \<Rightarrow> int \<Rightarrow> number" where
  "decimal neg c t =
     (if 0 \<le> t then round_fraction neg (c * 10 ^ nat t) 1
      else round_fraction neg c (10 ^ nat (- t)))"

text \<open>
  \<^verbatim>\<open>x < y\<close>, \<^verbatim>\<open>x === y\<close>, \<^verbatim>\<open>!x\<close>, \<^verbatim>\<open>-x\<close> and \<^verbatim>\<open>x + y\<close> on numbers. A comparison
  with \<^verbatim>\<open>NaN\<close> is false; the two zeros are equal; the sum is the exact sum, rounded.
\<close>

fun number_less :: "number \<Rightarrow> number \<Rightarrow> bool" where
  "number_less (Finite n1 m1 e1) (Finite n2 m2 e2) =
     (let (p1, q1) = fraction m1 e1; (p2, q2) = fraction m2 e2
      in with_sign n1 (p1 * q2) < with_sign n2 (p2 * q1))"
| "number_less (Finite n1 m1 e1) (Infinity neg) = (\<not> neg)"
| "number_less (Infinity neg) (Finite n2 m2 e2) = neg"
| "number_less (Infinity neg) (Infinity neg') = (neg \<and> \<not> neg')"
| "number_less NaN y = False"
| "number_less x NaN = False"

definition strict_equals :: "number \<Rightarrow> number \<Rightarrow> bool" where
  "strict_equals x y = (x \<noteq> NaN \<and> y \<noteq> NaN \<and> \<not> number_less x y \<and> \<not> number_less y x)"

definition falsy :: "number \<Rightarrow> bool" where
  "falsy x = (case x of NaN \<Rightarrow> True | Infinity neg \<Rightarrow> False | Finite neg m e \<Rightarrow> m = 0)"

fun negate :: "number \<Rightarrow> number" where
  "negate NaN = NaN"
| "negate (Infinity neg) = Infinity (\<not> neg)"
| "negate (Finite neg m e) = Finite (\<not> neg) m e"

fun number_add :: "number \<Rightarrow> number \<Rightarrow> number" where
  "number_add (Finite n1 m1 e1) (Finite n2 m2 e2) =
     (let (p1, q1) = fraction m1 e1; (p2, q2) = fraction m2 e2;
          s = with_sign n1 (p1 * q2) + with_sign n2 (p2 * q1)
      in if s = 0 then Finite (n1 \<and> n2) 0 (- 1074)
         else round_fraction (s < 0) (nat \<bar>s\<bar>) (q1 * q2))"
| "number_add (Finite n1 m1 e1) (Infinity neg) = Infinity neg"
| "number_add (Infinity neg) (Finite n2 m2 e2) = Infinity neg"
| "number_add (Infinity neg) (Infinity neg') = (if neg = neg' then Infinity neg else NaN)"
| "number_add NaN y = NaN"
| "number_add x NaN = NaN"

text \<open>
  A number that is an integer, the integer part of a number (0 for \<^verbatim>\<open>NaN\<close> and the
  infinities), and the integer a number is, if it is one.
\<close>

definition is_integer :: "number \<Rightarrow> bool" where
  "is_integer x =
     (case x of Finite neg m e \<Rightarrow> 0 \<le> e \<or> m mod 2 ^ nat (- e) = 0 | _ \<Rightarrow> False)"

definition truncated :: "number \<Rightarrow> int" where
  "truncated x =
     (case x of Finite neg m e \<Rightarrow> (let (p, q) = fraction m e in with_sign neg (p div q)) | _ \<Rightarrow> 0)"

definition integer_of :: "number \<Rightarrow> int option" where
  "integer_of x = (if is_integer x then Some (truncated x) else None)"

subsection \<open>The text of a number\<close>

text \<open>
  \<^verbatim>\<open>Number::toString\<close> of ECMAScript takes for a positive finite number \<open>x\<close> integers
  \<open>n\<close>, \<open>k\<close> and \<open>s\<close> such that \<open>s\<close> has \<open>k\<close> digits, \<open>s * 10 ^ (n - k)\<close> rounds to \<open>x\<close>,
  and \<open>k\<close> is as small as possible; of several such \<open>s\<close> the one nearest to \<open>x\<close>, and
  of two equally near the even one.

  \<open>magnitude\<close> is the \<open>n\<close> of the value itself: \<open>10 ^ (n - 1) \<le> p / q < 10 ^ n\<close>.
  \<open>low_digits\<close> is the value cut off at the decimal exponent \<open>t\<close>. \<open>shortest\<close> tries
  \<open>k = 1, 2, \<dots>\<close>: the decimals of \<open>k\<close> digits next to the value are \<open>lo * 10 ^ t\<close> and
  \<open>(lo + 1) * 10 ^ t\<close> with \<open>t = n - k\<close>, and the first \<open>k\<close> at which one of them
  rounds to the number ends the search. A value with \<open>j\<close> binary digits behind the
  point has at most \<open>j\<close> decimal digits behind it, so with \<open>k = n + j\<close> digits the lower
  decimal is the value itself, and the search ends there at the latest.
\<close>

function mag_up :: "nat \<Rightarrow> nat \<Rightarrow> nat" where
  "mag_up p q = (if 0 < q \<and> 10 * q \<le> p then Suc (mag_up p (10 * q)) else 0)"
  by pat_completeness auto
termination
  by (relation "measure (\<lambda>(p, q). p - q)") auto

function mag_down :: "nat \<Rightarrow> nat \<Rightarrow> nat" where
  "mag_down p q = (if 0 < p \<and> p < q then Suc (mag_down (10 * p) q) else 0)"
  by pat_completeness auto
termination
  by (relation "measure (\<lambda>(p, q). q - p)") auto

declare mag_up.simps [simp del] mag_down.simps [simp del]

definition magnitude :: "nat \<Rightarrow> nat \<Rightarrow> int" where
  "magnitude p q = (if q \<le> p then int (mag_up p q) + 1 else 1 - int (mag_down p q))"

definition low_digits :: "nat \<Rightarrow> nat \<Rightarrow> int \<Rightarrow> nat" where
  "low_digits p q t = (if 0 \<le> t then p div (q * 10 ^ nat t) else (p * 10 ^ nat (- t)) div q)"

text \<open>The value \<open>p / q\<close> lies nearer to \<open>(lo + 1) * 10 ^ t\<close> than to \<open>lo * 10 ^ t\<close>, or as near with an odd \<open>lo\<close>.\<close>

definition nearer_high :: "nat \<Rightarrow> nat \<Rightarrow> nat \<Rightarrow> int \<Rightarrow> bool" where
  "nearer_high p q lo t =
     (let a = (if 0 \<le> t then 2 * p else 2 * p * 10 ^ nat (- t));
          b = (if 0 \<le> t then (2 * lo + 1) * 10 ^ nat t * q else (2 * lo + 1) * q)
      in b < a \<or> (a = b \<and> odd lo))"

function shortest :: "nat \<Rightarrow> int \<Rightarrow> int \<Rightarrow> nat \<Rightarrow> nat \<times> int" where
  "shortest m e n k =
     (let t = n - int k;
          lo = low_digits (fst (fraction m e)) (snd (fraction m e)) t
      in if n + int (nat (- e)) \<le> int k then (lo, t)
         else if decimal False lo t = Finite False m e
         then (if decimal False (lo + 1) t = Finite False m e
                  \<and> nearer_high (fst (fraction m e)) (snd (fraction m e)) lo t
               then (lo + 1, t) else (lo, t))
         else if decimal False (lo + 1) t = Finite False m e then (lo + 1, t)
         else shortest m e n (k + 1))"
  by pat_completeness auto
termination
  by (relation "measure (\<lambda>(m, e, n, k). nat (n + int (nat (- e))) - k)") auto

declare shortest.simps [simp del]

text \<open>
  The decimal \<open>c * 10 ^ t\<close> that the text of a positive finite number shows, and its
  \<open>s\<close> and \<open>n\<close>: the upper decimal of one digit can be 10, which is the digit 1.
\<close>

definition decimal_of :: "nat \<Rightarrow> int \<Rightarrow> nat \<times> int" where
  "decimal_of m e = shortest m e (magnitude (fst (fraction m e)) (snd (fraction m e))) 1"

definition digits :: "nat \<Rightarrow> int \<Rightarrow> nat \<times> int" where
  "digits m e =
     (let (c, t) = decimal_of m e;
          n = int (length (dec_digits c)) + t
      in (if c mod 10 = 0 then c div 10 else c, n))"

text \<open>The text for the digits \<open>s\<close> and the position \<open>n\<close> of the decimal point, as ECMAScript lays it out.\<close>

definition digits_toString :: "nat \<Rightarrow> int \<Rightarrow> string" where
  "digits_toString s n =
     (let ds = dec_digits s; k = int (length ds)
      in if k \<le> n \<and> n \<le> 21 then ds @ replicate (nat (n - k)) CHR ''0''
         else if 0 < n \<and> n \<le> 21 then take (nat n) ds @ ''.'' @ drop (nat n) ds
         else if - 6 < n \<and> n \<le> 0 then ''0.'' @ replicate (nat (- n)) CHR ''0'' @ ds
         else (let e = n - 1;
                   ex = (if e < 0 then ''-'' else ''+'') @ dec_digits (nat \<bar>e\<bar>)
               in if k = 1 then ds @ ''e'' @ ex
                  else take 1 ds @ ''.'' @ drop 1 ds @ ''e'' @ ex))"

text \<open>\<^verbatim>\<open>x.toString()\<close> and \<^verbatim>\<open>String(x)\<close> of a number.\<close>

fun Number_toString :: "number \<Rightarrow> string" where
  "Number_toString NaN = ''NaN''"
| "Number_toString (Infinity neg) = (if neg then ''-Infinity'' else ''Infinity'')"
| "Number_toString (Finite neg m e) =
     (if m = 0 then ''0''
      else (if neg then ''-'' else []) @ digits_toString (fst (digits m e)) (snd (digits m e)))"

subsection \<open>Buffers\<close>

definition hex_digit :: "char \<Rightarrow> nat option" where
  "hex_digit c =
     (let n = (of_char c :: nat) in
      if 48 \<le> n \<and> n \<le> 57 then Some (n - 48)
      else if 97 \<le> n \<and> n \<le> 102 then Some (n - 87)
      else if 65 \<le> n \<and> n \<le> 70 then Some (n - 55)
      else None)"

fun hex_pairs :: "string \<Rightarrow> buffer option" where
  "hex_pairs [] = Some []"
| "hex_pairs [c] = None"
| "hex_pairs (a # b # cs) =
     (case hex_digit a of None \<Rightarrow> None
      | Some h \<Rightarrow> (case hex_digit b of None \<Rightarrow> None
        | Some l \<Rightarrow> (case hex_pairs cs of None \<Rightarrow> None
          | Some bs \<Rightarrow> Some ((16 * h + l) # bs))))"

text \<open>
  \<^verbatim>\<open>new Buffer(s, 'hex')\<close>, read strictly: a string of an odd length or with a
  character that is no hexadecimal digit throws.
\<close>

definition Buffer_hex :: "string \<Rightarrow> string + buffer" where
  "Buffer_hex s = (case hex_pairs s of None \<Rightarrow> Inl ''TypeError: Invalid hex string'' | Some b \<Rightarrow> Inr b)"

text \<open>The low \<open>n\<close> bytes of a value, least significant first, and most significant first.\<close>

fun le_bytes :: "nat \<Rightarrow> nat \<Rightarrow> buffer" where
  "le_bytes 0 v = []"
| "le_bytes (Suc n) v = (v mod 256) # le_bytes n (v div 256)"

definition be_bytes :: "nat \<Rightarrow> nat \<Rightarrow> buffer" where
  "be_bytes n v = rev (le_bytes n v)"

text \<open>The value of a buffer read least significant byte first.\<close>

fun le_value :: "buffer \<Rightarrow> nat" where
  "le_value [] = 0"
| "le_value (b # bs) = b + 256 * le_value bs"

text \<open>
  The \<^verbatim>\<open>ByteBuffer\<close> of \<^verbatim>\<open>getBytes\<close> is created as
  \<^verbatim>\<open>new ByteBuffer(capacity, true)\<close>; the second argument of that constructor is
  \<^verbatim>\<open>littleEndian\<close>, so the multi-byte writes are little-endian. \<^verbatim>\<open>writeByte\<close> keeps
  the low 8 bits, \<^verbatim>\<open>writeInt\<close> the low 32 bits; \<^verbatim>\<open>writeLong\<close> converts the number
  with \<^verbatim>\<open>Long.fromNumber\<close>: \<^verbatim>\<open>NaN\<close> and the infinities give 0, a number past
  the signed 64-bit range gives the bound, and any other number loses its fraction.
\<close>

definition writeByte :: "int \<Rightarrow> buffer" where
  "writeByte v = [nat (v mod 256)]"

definition writeInt :: "int \<Rightarrow> buffer" where
  "writeInt v = le_bytes 4 (nat (v mod 2 ^ 32))"

definition Long_fromNumber :: "int \<Rightarrow> int" where
  "Long_fromNumber v =
     (if v \<le> - (2 ^ 63) then - (2 ^ 63) else if 2 ^ 63 \<le> v + 1 then 2 ^ 63 - 1 else v)"

definition writeLong :: "number \<Rightarrow> buffer" where
  "writeLong x = le_bytes 8 (nat (Long_fromNumber (truncated x) mod 2 ^ 64))"

text \<open>\<^verbatim>\<open>buf[i] || 0\<close>: a read past the end of a buffer is \<^verbatim>\<open>undefined\<close>, written as 0.\<close>

definition byte_at :: "buffer \<Rightarrow> nat \<Rightarrow> byte" where
  "byte_at buf i = (if i < length buf then buf ! i else 0)"

subsection \<open>The data model\<close>

text \<open>
  A transaction as the source reads it. \<open>trs_id\<close> is \<^verbatim>\<open>trs.id\<close>, \<open>keysgroup\<close> is
  \<^verbatim>\<open>trs.asset.multisignature.keysgroup\<close> (\<open>None\<close> when any step of that path is
  missing); the rest of the asset is read by the handlers only.
\<close>

record transaction =
  type :: nat
  timestamp :: int
  senderPublicKey :: string
  requesterPublicKey :: "string option"
  senderId :: "string option"
  recipientId :: "string option"
  amount :: number
  fee :: number
  signature :: "string option"
  signSignature :: "string option"
  signatures :: "string list option"
  trs_id :: "string option"
  blockId :: "string option"
  keysgroup :: "string list option"

record block =
  block_id :: string
  height :: nat

record account =
  address :: string
  publicKey :: string
  balance :: int
  u_balance :: int
  secondSignature :: bool
  secondPublicKey :: string
  multisignatures :: "string list option"
  u_multisignatures :: "string list option"

text \<open>The object handed to \<^verbatim>\<open>account.merge\<close>.\<close>

record delta =
  d_balance :: number
  d_u_balance :: number
  d_blockId :: "string option"
  d_round :: "nat option"

text \<open>
  The account store behind \<^verbatim>\<open>this.scope.account\<close>. The accounts are kept by
  address. The store's failures are not decided by this core: they are given as a
  script, one entry per call of \<open>merge\<close>, where an empty entry (or none) lets the call
  through and any other entry is the error the call reports.
\<close>

record store =
  accounts :: "string \<Rightarrow> account"
  faults :: "string list"

text \<open>
  Modelled from the spec: \<^verbatim>\<open>account.merge\<close> (logic/account.js) is not among the
  sources. Section 6 of the specification: \<^verbatim>\<open>AccountStore.merge(address, delta,
  cb(err, updated_account))\<close> is an atomic additive update; section 3: a delta is an
  additive map over \<^verbatim>\<open>balance\<close>, \<^verbatim>\<open>u_balance\<close>, \<^verbatim>\<open>blockId\<close>, \<^verbatim>\<open>round\<close>. A call
  that fails changes no account; a call that succeeds adds the delta's amounts to the
  account at the address and hands the updated account to the callback.
  \<^verbatim>\<open>blockId\<close> and \<^verbatim>\<open>round\<close> tag the delta for the round bookkeeping and are no
  account fields. The balances are integers (section 3: amounts are unsigned 64-bit
  integers; section 9: an input that cannot be represented as such is rejected), so a
  delta with an amount that is no integer is an error of the store.
\<close>

definition merge :: "store \<Rightarrow> string \<Rightarrow> delta \<Rightarrow> (string + account) \<times> store" where
  "merge st addr d =
     (let fault = (case faults st of [] \<Rightarrow> [] | e # _ \<Rightarrow> e);
          st1 = st\<lparr>faults := tl (faults st)\<rparr>
      in if fault \<noteq> [] then (Inl fault, st1)
         else (case (integer_of (d_balance d), integer_of (d_u_balance d)) of
                 (Some b, Some u) \<Rightarrow>
                   (let a = accounts st addr;
                        a1 = a\<lparr>address := addr,
                               balance := balance a + b,
                               u_balance := u_balance a + u\<rparr>
                    in (Inr a1, st1\<lparr>accounts := (accounts st)(addr := a1)\<rparr>))
               | _ \<Rightarrow> (Inl ''Invalid number'', st1)))"

text \<open>
  The capabilities of a transaction-type handler that the core calls. A handler's
  state change runs against the account store and completes with an error or none.
\<close>

record handler =
  h_getBytes :: "transaction \<Rightarrow> bool \<Rightarrow> bool \<Rightarrow> string + buffer option"
  h_calculateFee :: "transaction \<Rightarrow> account \<Rightarrow> number"
  h_verify :: "transaction \<Rightarrow> account \<Rightarrow> string option"
  h_ready :: "transaction \<Rightarrow> account \<Rightarrow> bool"
  h_apply :: "transaction \<Rightarrow> block \<Rightarrow> account \<Rightarrow> store \<Rightarrow> string option \<times> store"
  h_undo :: "transaction \<Rightarrow> block \<Rightarrow> account \<Rightarrow> store \<Rightarrow> string option \<times> store"
  h_applyUnconfirmed :: "transaction \<Rightarrow> account \<Rightarrow> store \<Rightarrow> string option \<times> store"
  h_undoUnconfirmed :: "transaction \<Rightarrow> account \<Rightarrow> store \<Rightarrow> string option \<times> store"

text \<open>
  What the module takes from outside: \<open>types\<close> is \<^verbatim>\<open>__private.types\<close>,
  \<open>genesis_id\<close> is \<^verbatim>\<open>genesisblock.block.id\<close>, \<open>sha256\<close> and \<open>ed_Verify\<close> are the
  \<^verbatim>\<open>crypto\<close> and \<^verbatim>\<open>ed25519\<close> libraries, \<open>exceptions_senderPublicKey\<close>,
  \<open>totalAmount\<close> and \<open>delegates\<close> are the constants of helpers/exceptions.js,
  helpers/constants.js and helpers/slots.js, \<open>getSlotNumber\<close> is the slot calendar and
  \<open>currentSlot\<close> its value for the present time.
\<close>

record env =
  types :: "nat \<Rightarrow> handler option"
  genesis_id :: string
  sha256 :: "buffer \<Rightarrow> buffer"
  ed_Verify :: "buffer \<Rightarrow> buffer \<Rightarrow> buffer \<Rightarrow> string + bool"
  exceptions_senderPublicKey :: "string list"
  totalAmount :: number
  delegates :: nat
  getSlotNumber :: "int \<Rightarrow> int"
  currentSlot :: int

text \<open>
  The errors an operation completes with, one constructor per message of the source;
  \<open>Caught\<close> is an exception the operation caught and passed on as text,
  \<open>Handler_error\<close> and \<open>Store_error\<close> are the errors of a handler and of the account
  store passed on unchanged, \<open>Uncaught\<close> is an exception that leaves the operation.
\<close>

datatype error =
    Unknown_transaction_type nat
  | Missing_sender
  | Invalid_sender_public_key
  | Invalid_sender_address
  | Invalid_requester_public_key
  | Caught string
  | Failed_to_verify_signature
  | Failed_to_verify_second_signature
  | Duplicate_signature
  | Failed_to_verify_multisignature
  | Invalid_transaction_fee
  | Invalid_transaction_amount
  | Invalid_transaction_timestamp
  | Transaction_is_not_ready
  | Account_has_no_LISK string int
  | Missing_sender_second_signature
  | Sender_does_not_have_a_second_signature
  | Missing_requester_second_signature
  | Requester_does_not_have_a_second_signature
  | Handler_error string
  | Store_error string
  | Uncaught string

fun message :: "error \<Rightarrow> string" where
  "message (Unknown_transaction_type t) = ''Unknown transaction type '' @ dec_digits t"
| "message Missing_sender = ''Missing sender''"
| "message Invalid_sender_public_key = ''Invalid sender public key''"
| "message Invalid_sender_address = ''Invalid sender address''"
| "message Invalid_requester_public_key = ''Invalid requester public key''"
| "message (Caught e) = e"
| "message Failed_to_verify_signature = ''Failed to verify signature''"
| "message Failed_to_verify_second_signature = ''Failed to verify second signature''"
| "message Duplicate_signature = ''Encountered duplicate signature in transaction''"
| "message Failed_to_verify_multisignature = ''Failed to verify multisignature''"
| "message Invalid_transaction_fee = ''Invalid transaction fee''"
| "message Invalid_transaction_amount = ''Invalid transaction amount''"
| "message Invalid_transaction_timestamp = ''Invalid transaction timestamp''"
| "message Transaction_is_not_ready = ''Transaction is not ready''"
| "message (Account_has_no_LISK a b) = ''Account has no LISK: '' @ a @ '' balance='' @ int_string b"
| "message Missing_sender_second_signature = ''Missing sender second signature''"
| "message Sender_does_not_have_a_second_signature = ''Sender does not have a second signature''"
| "message Missing_requester_second_signature = ''Missing requester second signature''"
| "message Requester_does_not_have_a_second_signature = ''Requester does not have a second signature''"
| "message (Handler_error e) = e"
| "message (Store_error e) = e"
| "message (Uncaught e) = e"

text \<open>The error a callback receives from a handler: a falsy value is no error.\<close>

definition handler_error :: "string option \<Rightarrow> error option" where
  "handler_error err = (if truthy err then map_option Handler_error err else None)"

subsection \<open>The big-number helper\<close>

definition is_digit :: "char \<Rightarrow> bool" where
  "is_digit c = (let n = (of_char c :: nat) in 48 \<le> n \<and> n \<le> 57)"

definition decimal_value :: "string \<Rightarrow> nat" where
  "decimal_value s = foldl (\<lambda>v c. 10 * v + (of_char c - 48)) 0 s"

text \<open>The number of 8-byte chunks a value takes.\<close>

function chunks :: "nat \<Rightarrow> nat" where
  "chunks v = (if v < 2 ^ 64 then 1 else 1 + chunks (v div 2 ^ 64))"
  by pat_completeness auto
termination
  by (relation "measure id") auto

declare chunks.simps [simp del]

text \<open>
  Modelled from the spec: \<^verbatim>\<open>bignum(s).toBuffer({size: 8})\<close> is a function of
  helpers/bignum.js, which is not among the sources. Section 4.1 of the specification,
  item 5: the address string without its trailing suffix character is parsed as a
  decimal integer and serialized into an 8-byte big-endian field, zero-padded on the
  high end; section 9: an empty or non-digit prefix is malformed. A value past 64 bits
  takes further 8-byte chunks.
\<close>

definition bignum_toBuffer :: "string \<Rightarrow> string + buffer" where
  "bignum_toBuffer s =
     (if s \<noteq> [] \<and> list_all is_digit s
      then Inr (be_bytes (8 * chunks (decimal_value s)) (decimal_value s))
      else Inl (''Error: not a number: '' @ s))"

text \<open>
  Modelled from the spec: \<^verbatim>\<open>bignum.fromBuffer\<close> is a function of helpers/bignum.js,
  which is not among the sources. Section 4.2 of the specification:
  \<^verbatim>\<open>id(trs) = decimal_string(u64_little_endian(first_8_bytes_reversed(SHA-256(to_bytes(trs)))))\<close>;
  the function applied to the reversed bytes is the little-endian reading.
\<close>

definition bignum_fromBuffer :: "buffer \<Rightarrow> nat" where
  "bignum_fromBuffer buf = le_value buf"

text \<open>
  Modelled from the spec: \<^verbatim>\<open>bignum(text)\<close>, \<^verbatim>\<open>plus\<close>, \<^verbatim>\<open>lessThan\<close> and
  \<^verbatim>\<open>toNumber\<close> are functions of helpers/bignum.js, which is not among the sources.
  Section 9 of the specification calls them arbitrary-precision arithmetic. A big
  number is therefore \<^verbatim>\<open>NaN\<close>, an infinity or an exact decimal \<open>c * 10 ^ t\<close>;
  \<open>bignum_of x\<close> is \<^verbatim>\<open>bignum(x.toString())\<close>, the decimal that the text of the number
  shows; \<open>bignum_plus\<close> and \<open>bignum_lessThan\<close> are exact; \<open>bignum_toNumber\<close> is the
  number nearest to the decimal.
\<close>

datatype bignum = Big_NaN | Big_Infinity bool | Big int int

definition bignum_of :: "number \<Rightarrow> bignum" where
  "bignum_of x =
     (case x of
        NaN \<Rightarrow> Big_NaN
      | Infinity neg \<Rightarrow> Big_Infinity neg
      | Finite neg m e \<Rightarrow>
          if m = 0 then Big 0 0
          else Big (with_sign neg (fst (decimal_of m e))) (snd (decimal_of m e)))"

fun bignum_plus :: "bignum \<Rightarrow> bignum \<Rightarrow> bignum" where
  "bignum_plus (Big c1 t1) (Big c2 t2) =
     (let t = min t1 t2 in Big (c1 * 10 ^ nat (t1 - t) + c2 * 10 ^ nat (t2 - t)) t)"
| "bignum_plus (Big c1 t1) (Big_Infinity neg) = Big_Infinity neg"
| "bignum_plus (Big_Infinity neg) (Big c2 t2) = Big_Infinity neg"
| "bignum_plus (Big_Infinity neg) (Big_Infinity neg') = (if neg = neg' then Big_Infinity neg else Big_NaN)"
| "bignum_plus Big_NaN y = Big_NaN"
| "bignum_plus x Big_NaN = Big_NaN"

fun bignum_lessThan :: "bignum \<Rightarrow> bignum \<Rightarrow> bool" where
  "bignum_lessThan (Big c1 t1) (Big c2 t2) =
     (let t = min t1 t2 in c1 * 10 ^ nat (t1 - t) < c2 * 10 ^ nat (t2 - t))"
| "bignum_lessThan (Big c1 t1) (Big_Infinity neg) = (\<not> neg)"
| "bignum_lessThan (Big_Infinity neg) (Big c2 t2) = neg"
| "bignum_lessThan (Big_Infinity neg) (Big_Infinity neg') = (neg \<and> \<not> neg')"
| "bignum_lessThan Big_NaN y = False"
| "bignum_lessThan x Big_NaN = False"

fun bignum_toNumber :: "bignum \<Rightarrow> number" where
  "bignum_toNumber Big_NaN = NaN"
| "bignum_toNumber (Big_Infinity neg) = Infinity neg"
| "bignum_toNumber (Big c t) = decimal (c < 0) (nat \<bar>c\<bar>) t"

subsection \<open>getBytes, getHash, getId\<close>

text \<open>The parts of the byte sequence in the order they are written; the first part that throws ends the writing.\<close>

fun concat_parts :: "(string + buffer) list \<Rightarrow> string + buffer" where
  "concat_parts [] = Inr []"
| "concat_parts (p # ps) =
     (case p of Inl e \<Rightarrow> Inl e
      | Inr b \<Rightarrow> (case concat_parts ps of Inl e \<Rightarrow> Inl e | Inr bs \<Rightarrow> Inr (b @ bs)))"

text \<open>\<^verbatim>\<open>if (wanted && v) { ... new Buffer(v, 'hex') ... }\<close>\<close>

definition hex_if :: "bool \<Rightarrow> string option \<Rightarrow> string + buffer" where
  "hex_if wanted v =
     (case v of None \<Rightarrow> Inr []
      | Some s \<Rightarrow> if wanted \<and> s \<noteq> [] then Buffer_hex s else Inr [])"

text \<open>
  The recipient field: \<^verbatim>\<open>trs.recipientId.slice(0, -1)\<close> through the big-number
  helper, of which the first 8 bytes are written (\<^verbatim>\<open>recipient[i] || 0\<close>); 8 zero bytes
  without a recipient.
\<close>

definition recipient_field :: "string option \<Rightarrow> string + buffer" where
  "recipient_field r =
     (case r of None \<Rightarrow> Inr (replicate 8 0)
      | Some s \<Rightarrow>
          if s = [] then Inr (replicate 8 0)
          else (case bignum_toBuffer (butlast s) of
                  Inl e \<Rightarrow> Inl e
                | Inr recipient \<Rightarrow> Inr (map (byte_at recipient) [0..<8])))"

definition getBytes :: "env \<Rightarrow> transaction \<Rightarrow> bool \<Rightarrow> bool \<Rightarrow> string + buffer" where
  "getBytes env trs skipSignature skipSecondSignature =
     (case types env (type trs) of
        None \<Rightarrow> Inl (''Error: Unknown transaction type '' @ dec_digits (type trs))
      | Some h \<Rightarrow>
          (case (case h_getBytes h trs skipSignature skipSecondSignature of
                   Inl e \<Rightarrow> Inl e
                 | Inr assetBytes \<Rightarrow>
                     concat_parts
                       [Inr (writeByte (int (type trs))),
                        Inr (writeInt (timestamp trs)),
                        Buffer_hex (senderPublicKey trs),
                        hex_if True (requesterPublicKey trs),
                        recipient_field (recipientId trs),
                        Inr (writeLong (amount trs)),
                        Inr (case assetBytes of None \<Rightarrow> []
                             | Some b \<Rightarrow> concat (map (\<lambda>x. writeByte (int x)) b)),
                        hex_if (\<not> skipSignature) (signature trs),
                        hex_if (\<not> skipSecondSignature) (signSignature trs)])
           of Inl e \<Rightarrow> Inl (rethrow e)
            | Inr bytes \<Rightarrow> Inr bytes))"

definition getHash :: "env \<Rightarrow> transaction \<Rightarrow> string + buffer" where
  "getHash env trs =
     (case getBytes env trs False False of Inl e \<Rightarrow> Inl e | Inr bytes \<Rightarrow> Inr (sha256 env bytes))"

definition getId :: "env \<Rightarrow> transaction \<Rightarrow> string + string" where
  "getId env trs =
     (case getHash env trs of
        Inl e \<Rightarrow> Inl e
      | Inr hash \<Rightarrow>
          (let temp = map (\<lambda>i. byte_at hash (7 - i)) [0..<8]
           in Inr (dec_digits (bignum_fromBuffer temp))))"

subsection \<open>Signatures\<close>

definition verifyBytes :: "env \<Rightarrow> buffer \<Rightarrow> string \<Rightarrow> string \<Rightarrow> string + bool" where
  "verifyBytes env bytes pk sg =
     (case (let hash = sha256 env bytes in
            case Buffer_hex sg of Inl e \<Rightarrow> Inl e
            | Inr signatureBuffer \<Rightarrow>
                (case Buffer_hex pk of Inl e \<Rightarrow> Inl e
                 | Inr publicKeyBuffer \<Rightarrow> ed_Verify env hash signatureBuffer publicKeyBuffer))
      of Inl e \<Rightarrow> Inl (rethrow e)
       | Inr res \<Rightarrow> Inr res)"

text \<open>
  \<^verbatim>\<open>verifySignature\<close> and \<^verbatim>\<open>verifySecondSignature\<close> differ in the bytes they
  check only: the first leaves both signatures out, the second keeps the primary one.
\<close>

definition verifySignature :: "env \<Rightarrow> transaction \<Rightarrow> string \<Rightarrow> string option \<Rightarrow> string + bool" where
  "verifySignature env trs pk sg =
     (case types env (type trs) of
        None \<Rightarrow> Inl (''Error: Unknown transaction type '' @ dec_digits (type trs))
      | Some h \<Rightarrow>
          (case sg of None \<Rightarrow> Inr False
           | Some s \<Rightarrow>
               if s = [] then Inr False
               else (case (case getBytes env trs True True of Inl e \<Rightarrow> Inl e
                           | Inr bytes \<Rightarrow> verifyBytes env bytes pk s)
                     of Inl e \<Rightarrow> Inl (rethrow e)
                      | Inr res \<Rightarrow> Inr res)))"

definition verifySecondSignature :: "env \<Rightarrow> transaction \<Rightarrow> string \<Rightarrow> string option \<Rightarrow> string + bool" where
  "verifySecondSignature env trs pk sg =
     (case types env (type trs) of
        None \<Rightarrow> Inl (''Error: Unknown transaction type '' @ dec_digits (type trs))
      | Some h \<Rightarrow>
          (case sg of None \<Rightarrow> Inr False
           | Some s \<Rightarrow>
               if s = [] then Inr False
               else (case (case getBytes env trs False True of Inl e \<Rightarrow> Inl e
                           | Inr bytes \<Rightarrow> verifyBytes env bytes pk s)
                     of Inl e \<Rightarrow> Inl (rethrow e)
                      | Inr res \<Rightarrow> Inr res)))"

definition ready :: "env \<Rightarrow> transaction \<Rightarrow> account option \<Rightarrow> string + bool" where
  "ready env trs sender =
     (case types env (type trs) of
        None \<Rightarrow> Inl (''Error: Unknown transaction type '' @ dec_digits (type trs))
      | Some h \<Rightarrow> (case sender of None \<Rightarrow> Inr False | Some s \<Rightarrow> Inr (h_ready h trs s)))"

subsection \<open>verify\<close>

text \<open>The first check that fails decides; the checks are listed in the order of the source.\<close>

fun first_error :: "error option list \<Rightarrow> error option" where
  "first_error [] = None"
| "first_error (None # cs) = first_error cs"
| "first_error (Some e # cs) = Some e"

definition check_sender_publicKey :: "env \<Rightarrow> transaction \<Rightarrow> account \<Rightarrow> error option" where
  "check_sender_publicKey env trs sender =
     (if publicKey sender \<noteq> senderPublicKey trs
         \<and> \<not> (case trs_id trs of None \<Rightarrow> False | Some i \<Rightarrow> i \<in> set (exceptions_senderPublicKey env))
      then Some Invalid_sender_public_key else None)"

definition check_sender_address :: "transaction \<Rightarrow> account \<Rightarrow> error option" where
  "check_sender_address trs sender =
     (if toUpperCase (String_of (senderId trs)) \<noteq> toUpperCase (address sender)
      then Some Invalid_sender_address else None)"

text \<open>\<^verbatim>\<open>sender.multisignatures.indexOf\<close> throws when the account has no such list.\<close>

definition check_requester :: "transaction \<Rightarrow> account \<Rightarrow> error option" where
  "check_requester trs sender =
     (case requesterPublicKey trs of None \<Rightarrow> None
      | Some r \<Rightarrow>
          if r = [] then None
          else (case multisignatures sender of
                  None \<Rightarrow> Some (Uncaught ''TypeError: Cannot read property 'indexOf' of undefined'')
                | Some ms \<Rightarrow> if r \<in> set ms then None else Some Invalid_requester_public_key))"

definition check_signature :: "env \<Rightarrow> transaction \<Rightarrow> error option" where
  "check_signature env trs =
     (case verifySignature env trs
             (if truthy (requesterPublicKey trs) then String_of (requesterPublicKey trs)
              else senderPublicKey trs)
             (signature trs) of
        Inl e \<Rightarrow> Some (Caught e)
      | Inr valid \<Rightarrow> if valid then None else Some Failed_to_verify_signature)"

text \<open>
  The requester is \<open>None\<close> when the caller passes the callback in its place; its
  \<^verbatim>\<open>secondSignature\<close> is then undefined.
\<close>

definition check_second_signature :: "env \<Rightarrow> transaction \<Rightarrow> account \<Rightarrow> account option \<Rightarrow> error option" where
  "check_second_signature env trs sender requester =
     (if \<not> truthy (requesterPublicKey trs) \<and> secondSignature sender then
        (case verifySecondSignature env trs (secondPublicKey sender) (signSignature trs) of
           Inl e \<Rightarrow> Some (Caught e)
         | Inr valid \<Rightarrow> if valid then None else Some Failed_to_verify_second_signature)
      else (case requester of
              None \<Rightarrow> None
            | Some r \<Rightarrow>
                if truthy (requesterPublicKey trs) \<and> secondSignature r then
                  (case verifySecondSignature env trs (secondPublicKey r) (signSignature trs) of
                     Inl e \<Rightarrow> Some (Caught e)
                   | Inr valid \<Rightarrow> if valid then None else Some Failed_to_verify_second_signature)
                else None))"

definition check_unique_signatures :: "transaction \<Rightarrow> error option" where
  "check_unique_signatures trs =
     (case signatures trs of None \<Rightarrow> None
      | Some sgs \<Rightarrow>
          if length (foldl (\<lambda>p c. if c \<in> set p then p else p @ [c]) [] sgs) \<noteq> length sgs
          then Some Duplicate_signature else None)"

text \<open>
  \<^verbatim>\<open>var multisignatures = sender.multisignatures || sender.u_multisignatures || []\<close>
  does not copy: the variable is the account's own array (an empty array is truthy),
  unless both are missing, or the array is empty and the asset's keysgroup takes its
  place. \<open>origin\<close> says which array the variable is.
\<close>

datatype origin = Sender_multisignatures | Sender_u_multisignatures | Fresh

definition determine_multisignatures :: "transaction \<Rightarrow> account \<Rightarrow> origin \<times> string list" where
  "determine_multisignatures trs sender =
     (let (org, ms) =
            (case multisignatures sender of
               Some m \<Rightarrow> (Sender_multisignatures, m)
             | None \<Rightarrow> (case u_multisignatures sender of
                          Some u \<Rightarrow> (Sender_u_multisignatures, u)
                        | None \<Rightarrow> (Fresh, [])))
      in if ms = [] then (case keysgroup trs of
                            Some ks \<Rightarrow> (Fresh, map (drop 1) ks)
                          | None \<Rightarrow> (org, ms))
         else (org, ms))"

text \<open>\<^verbatim>\<open>multisignatures.push(trs.senderPublicKey)\<close> changes the array the variable is.\<close>

definition add_sender :: "transaction \<Rightarrow> account \<Rightarrow> account \<times> string list" where
  "add_sender trs sender =
     (let (org, ms) = determine_multisignatures trs sender
      in if truthy (requesterPublicKey trs) then
           (let ms1 = ms @ [senderPublicKey trs]
            in case org of
                 Sender_multisignatures \<Rightarrow> (sender\<lparr>multisignatures := Some ms1\<rparr>, ms1)
               | Sender_u_multisignatures \<Rightarrow> (sender\<lparr>u_multisignatures := Some ms1\<rparr>, ms1)
               | Fresh \<Rightarrow> (sender, ms1))
         else (sender, ms))"

text \<open>The inner loop over the keys: it does not stop at the first key that verifies.\<close>

fun verify_keys :: "env \<Rightarrow> transaction \<Rightarrow> string list \<Rightarrow> string \<Rightarrow> bool \<Rightarrow> string + bool" where
  "verify_keys env trs [] sg v = Inr v"
| "verify_keys env trs (k # ks) sg v =
     (if truthy (requesterPublicKey trs) \<and> Some k = requesterPublicKey trs
      then verify_keys env trs ks sg v
      else (case verifySignature env trs k (Some sg) of
              Inl e \<Rightarrow> Inl e
            | Inr r \<Rightarrow> verify_keys env trs ks sg (if r then True else v)))"

fun verify_signatures :: "env \<Rightarrow> transaction \<Rightarrow> string list \<Rightarrow> string list \<Rightarrow> error option" where
  "verify_signatures env trs ms [] = None"
| "verify_signatures env trs ms (sg # sgs) =
     (case verify_keys env trs ms sg False of
        Inl e \<Rightarrow> Some (Uncaught e)
      | Inr v \<Rightarrow> if v then verify_signatures env trs ms sgs
                 else Some Failed_to_verify_multisignature)"

definition check_multisignatures :: "env \<Rightarrow> transaction \<Rightarrow> string list \<Rightarrow> error option" where
  "check_multisignatures env trs ms =
     (case signatures trs of None \<Rightarrow> None | Some sgs \<Rightarrow> verify_signatures env trs ms sgs)"

text \<open>
  \<^verbatim>\<open>var fee = calculateFee(trs, sender) || false; if (!fee || trs.fee !== fee)\<close>:
  a calculated fee of 0 is falsy, and so is one that is \<^verbatim>\<open>NaN\<close>.
\<close>

definition check_fee :: "handler \<Rightarrow> transaction \<Rightarrow> account \<Rightarrow> error option" where
  "check_fee h trs sender =
     (let calculated = h_calculateFee h trs sender
      in if falsy calculated \<or> \<not> strict_equals (fee trs) calculated
         then Some Invalid_transaction_fee else None)"

text \<open>
  \<^verbatim>\<open>trs.amount < 0 || trs.amount > constants.totalAmount ||
  String(trs.amount).indexOf('.') >= 0 || trs.amount.toString().indexOf('e') >= 0\<close>
\<close>

definition check_amount :: "env \<Rightarrow> transaction \<Rightarrow> error option" where
  "check_amount env trs =
     (if number_less (amount trs) (Number_of 0)
         \<or> number_less (totalAmount env) (amount trs)
         \<or> 0 \<le> indexOf (Number_toString (amount trs)) CHR ''.''
         \<or> 0 \<le> indexOf (Number_toString (amount trs)) CHR ''e''
      then Some Invalid_transaction_amount else None)"

definition check_timestamp :: "env \<Rightarrow> transaction \<Rightarrow> error option" where
  "check_timestamp env trs =
     (if currentSlot env < getSlotNumber env (timestamp trs)
      then Some Invalid_transaction_timestamp else None)"

text \<open>The checks up to the one on duplicate signatures, which read the account only.\<close>

definition identity_checks :: "env \<Rightarrow> transaction \<Rightarrow> account \<Rightarrow> account option \<Rightarrow> error option" where
  "identity_checks env trs sender requester =
     first_error
       [check_sender_publicKey env trs sender,
        check_sender_address trs sender,
        check_requester trs sender,
        check_signature env trs,
        check_second_signature env trs sender requester,
        check_unique_signatures trs]"

text \<open>
  \<^verbatim>\<open>verify\<close> completes with the first error and leaves the sender account as the
  second component shows it; the handler's own verification runs last and its error
  is passed on as it is.
\<close>

definition verify :: "env \<Rightarrow> transaction \<Rightarrow> account option \<Rightarrow> account option \<Rightarrow> error option \<times> account option" where
  "verify env trs sender requester =
     (case types env (type trs) of
        None \<Rightarrow> (Some (Unknown_transaction_type (type trs)), sender)
      | Some h \<Rightarrow>
          (case sender of
             None \<Rightarrow> (Some Missing_sender, None)
           | Some s \<Rightarrow>
               (case identity_checks env trs s requester of
                  Some e \<Rightarrow> (Some e, Some s)
                | None \<Rightarrow>
                    (let (s1, ms) = add_sender trs s
                     in (first_error
                           [check_multisignatures env trs ms,
                            check_fee h trs s1,
                            check_amount env trs,
                            check_timestamp env trs,
                            map_option Handler_error (h_verify h trs s1)],
                         Some s1)))))"

subsection \<open>apply, undo, applyUnconfirmed, undoUnconfirmed\<close>

text \<open>\<^verbatim>\<open>Math.floor(height / slots.delegates) + (height % slots.delegates > 0 ? 1 : 0)\<close>, for a positive number of delegates.\<close>

definition calc :: "nat \<Rightarrow> nat \<Rightarrow> nat" where
  "calc dlg h = h div dlg + (if 0 < h mod dlg then 1 else 0)"

text \<open>The two shapes of delta the core merges: a confirmed one, tagged with the block, and an unconfirmed one.\<close>

definition confirmed_delta :: "env \<Rightarrow> block \<Rightarrow> number \<Rightarrow> delta" where
  "confirmed_delta env blk v =
     \<lparr>d_balance = v, d_u_balance = Number_of 0, d_blockId = Some (block_id blk),
      d_round = Some (calc (delegates env) (height blk))\<rparr>"

definition unconfirmed_delta :: "number \<Rightarrow> delta" where
  "unconfirmed_delta v = \<lparr>d_balance = Number_of 0, d_u_balance = v, d_blockId = None, d_round = None\<rparr>"

text \<open>
  \<^verbatim>\<open>bignum(trs.amount.toString()).plus(trs.fee.toString())\<close>, the amount of
  \<^verbatim>\<open>apply\<close> and \<^verbatim>\<open>applyUnconfirmed\<close> before \<^verbatim>\<open>toNumber()\<close>; and
  \<^verbatim>\<open>trs.amount + trs.fee\<close>, the amount of \<^verbatim>\<open>undo\<close> and \<^verbatim>\<open>undoUnconfirmed\<close>.
\<close>

definition exact_amount :: "transaction \<Rightarrow> bignum" where
  "exact_amount trs = bignum_plus (bignum_of (amount trs)) (bignum_of (fee trs))"

definition number_amount :: "transaction \<Rightarrow> number" where
  "number_amount trs = number_add (amount trs) (fee trs)"

text \<open>
  \<^verbatim>\<open>apply\<close>. The sum of the two big numbers is exact, but its terms are the decimals
  that the texts of \<^verbatim>\<open>trs.amount\<close> and \<^verbatim>\<open>trs.fee\<close> show; \<^verbatim>\<open>toNumber()\<close> rounds
  the sum. The balance is compared as the store holds it. The callback of the
  reversing merge is \<^verbatim>\<open>function (err) { return cb(err); }\<close>: its parameter hides the
  handler's error, so the operation completes with the error of that merge, or with
  none.
\<close>

definition apply_trs :: "env \<Rightarrow> transaction \<Rightarrow> block \<Rightarrow> account option \<Rightarrow> store \<Rightarrow> error option \<times> store" where
  "apply_trs env trs blk sender st =
     (case types env (type trs) of
        None \<Rightarrow> (Some (Unknown_transaction_type (type trs)), st)
      | Some h \<Rightarrow>
          (case ready env trs sender of
             Inl e \<Rightarrow> (Some (Uncaught e), st)
           | Inr rdy \<Rightarrow>
               if \<not> rdy then (Some Transaction_is_not_ready, st)
               else (case sender of
                       None \<Rightarrow> (Some Transaction_is_not_ready, st)
                     | Some s \<Rightarrow>
                         (let exceedsBalance = bignum_lessThan (Big (balance s) 0) (exact_amount trs)
                          in if blockId trs \<noteq> Some (genesis_id env) \<and> exceedsBalance
                             then (Some (Account_has_no_LISK (address s) (balance s)), st)
                             else (let amt = bignum_toNumber (exact_amount trs)
                                   in case merge st (address s) (confirmed_delta env blk (negate amt)) of
                                        (Inl err, st1) \<Rightarrow> (Some (Store_error err), st1)
                                      | (Inr s1, st1) \<Rightarrow>
                                          (case h_apply h trs blk s1 st1 of
                                             (err, st2) \<Rightarrow>
                                               if truthy err then
                                                 (case merge st2 (address s1) (confirmed_delta env blk amt) of
                                                    (Inl err2, st3) \<Rightarrow> (Some (Store_error err2), st3)
                                                  | (Inr s3, st3) \<Rightarrow> (None, st3))
                                               else (None, st2)))))))"

text \<open>
  \<^verbatim>\<open>undo\<close>. The sum is the sum of the two numbers. After a handler error
  the source merges \<^verbatim>\<open>balance: amount\<close> a second time, and completes with the error
  of that merge, or with none.
\<close>

definition undo_trs :: "env \<Rightarrow> transaction \<Rightarrow> block \<Rightarrow> account \<Rightarrow> store \<Rightarrow> error option \<times> store" where
  "undo_trs env trs blk s st =
     (case types env (type trs) of
        None \<Rightarrow> (Some (Unknown_transaction_type (type trs)), st)
      | Some h \<Rightarrow>
          (let amt = number_amount trs
           in case merge st (address s) (confirmed_delta env blk amt) of
                (Inl err, st1) \<Rightarrow> (Some (Store_error err), st1)
              | (Inr s1, st1) \<Rightarrow>
                  (case h_undo h trs blk s1 st1 of
                     (err, st2) \<Rightarrow>
                       if truthy err then
                         (case merge st2 (address s1) (confirmed_delta env blk amt) of
                            (Inl err2, st3) \<Rightarrow> (Some (Store_error err2), st3)
                          | (Inr s3, st3) \<Rightarrow> (None, st3))
                       else (None, st2))))"

text \<open>
  The four second-signature checks at the head of \<^verbatim>\<open>applyUnconfirmed\<close>, in the
  order of the source. The requester is \<open>None\<close> when the caller passes the callback
  in its place; its \<^verbatim>\<open>secondSignature\<close> is then undefined.
\<close>

definition second_signature_checks :: "env \<Rightarrow> transaction \<Rightarrow> account \<Rightarrow> account option \<Rightarrow> error option" where
  "second_signature_checks env trs s requester =
     (let requesterSecond = (case requester of None \<Rightarrow> False | Some r \<Rightarrow> secondSignature r)
      in if \<not> truthy (requesterPublicKey trs) \<and> secondSignature s
            \<and> \<not> truthy (signSignature trs) \<and> blockId trs \<noteq> Some (genesis_id env)
         then Some Missing_sender_second_signature
         else if \<not> truthy (requesterPublicKey trs) \<and> \<not> secondSignature s
                 \<and> truthy (signSignature trs)
         then Some Sender_does_not_have_a_second_signature
         else if truthy (requesterPublicKey trs) \<and> requesterSecond
                 \<and> \<not> truthy (signSignature trs)
         then Some Missing_requester_second_signature
         else if truthy (requesterPublicKey trs) \<and> \<not> requesterSecond
                 \<and> truthy (signSignature trs)
         then Some Requester_does_not_have_a_second_signature
         else None)"

text \<open>
  \<^verbatim>\<open>applyUnconfirmed\<close>. Here the callback of the reversing merge is
  \<^verbatim>\<open>function (err2) { return setImmediate(cb, err2 || err); }\<close>.
\<close>

definition applyUnconfirmed :: "env \<Rightarrow> transaction \<Rightarrow> account \<Rightarrow> account option \<Rightarrow> store \<Rightarrow> error option \<times> store" where
  "applyUnconfirmed env trs s requester st =
     (case types env (type trs) of
        None \<Rightarrow> (Some (Unknown_transaction_type (type trs)), st)
      | Some h \<Rightarrow>
          (case second_signature_checks env trs s requester of
             Some e \<Rightarrow> (Some e, st)
           | None \<Rightarrow>
               (let exceedsBalance = bignum_lessThan (Big (u_balance s) 0) (exact_amount trs)
                in if blockId trs \<noteq> Some (genesis_id env) \<and> exceedsBalance
                   then (Some (Account_has_no_LISK (address s) (u_balance s)), st)
                   else (let amt = bignum_toNumber (exact_amount trs)
                         in case merge st (address s) (unconfirmed_delta (negate amt)) of
                              (Inl err, st1) \<Rightarrow> (Some (Store_error err), st1)
                            | (Inr s1, st1) \<Rightarrow>
                                (case h_applyUnconfirmed h trs s1 st1 of
                                   (err, st2) \<Rightarrow>
                                     if truthy err then
                                       (case merge st2 (address s1) (unconfirmed_delta amt) of
                                          (Inl err2, st3) \<Rightarrow> (Some (Store_error err2), st3)
                                        | (Inr s3, st3) \<Rightarrow> (handler_error err, st3))
                                     else (None, st2))))))"

definition undoUnconfirmed :: "env \<Rightarrow> transaction \<Rightarrow> account \<Rightarrow> store \<Rightarrow> error option \<times> store" where
  "undoUnconfirmed env trs s st =
     (case types env (type trs) of
        None \<Rightarrow> (Some (Unknown_transaction_type (type trs)), st)
      | Some h \<Rightarrow>
          (let amt = number_amount trs
           in case merge st (address s) (unconfirmed_delta amt) of
                (Inl err, st1) \<Rightarrow> (Some (Store_error err), st1)
              | (Inr s1, st1) \<Rightarrow>
                  (case h_undoUnconfirmed h trs s1 st1 of
                     (err, st2) \<Rightarrow>
                       if truthy err then
                         (case merge st2 (address s1) (unconfirmed_delta (negate amt)) of
                            (Inl err2, st3) \<Rightarrow> (Some (Store_error err2), st3)
                          | (Inr s3, st3) \<Rightarrow> (handler_error err, st3))
                       else (None, st2))))"

subsection \<open>The byte layouts the properties speak about\<close>

text \<open>
  The recipient field in the words of section 4.1 of the specification: the address
  without its last character, read as a decimal integer, in 8 bytes big-endian; 8 zero
  bytes when there is no recipient. \<open>recipient_ok\<close> says that the address has this
  form and that its number fits 8 bytes.
\<close>

definition recipient_bytes :: "string option \<Rightarrow> buffer" where
  "recipient_bytes r =
     (case r of None \<Rightarrow> replicate 8 0
      | Some s \<Rightarrow> if s = [] then replicate 8 0 else be_bytes 8 (decimal_value (butlast s)))"

definition recipient_ok :: "string option \<Rightarrow> bool" where
  "recipient_ok r =
     (case r of None \<Rightarrow> True
      | Some s \<Rightarrow> s = [] \<or> (butlast s \<noteq> [] \<and> list_all is_digit (butlast s)
                              \<and> decimal_value (butlast s) < 2 ^ 64))"

text \<open>The two's complement of a signed 32-bit value.\<close>

definition twos32 :: "int \<Rightarrow> nat" where
  "twos32 v = nat (if v < 0 then v + 2 ^ 32 else v)"

text \<open>
  The bytes of a transaction without requester, asset bytes and second signature, for
  the decoded sender key \<open>pk\<close> and signature \<open>sg\<close>: first as section 4.1 of the
  specification words them, with a big-endian timestamp and amount, then with the
  byte order of the little-endian \<^verbatim>\<open>ByteBuffer\<close>.
\<close>

definition spec_to_bytes :: "transaction \<Rightarrow> buffer \<Rightarrow> buffer \<Rightarrow> buffer" where
  "spec_to_bytes trs pk sg =
     [type trs] @ be_bytes 4 (twos32 (timestamp trs)) @ pk @ recipient_bytes (recipientId trs)
     @ be_bytes 8 (nat (truncated (amount trs))) @ sg"

definition little_endian_bytes :: "transaction \<Rightarrow> buffer \<Rightarrow> buffer \<Rightarrow> buffer" where
  "little_endian_bytes trs pk sg =
     [type trs] @ le_bytes 4 (twos32 (timestamp trs)) @ pk @ recipient_bytes (recipientId trs)
     @ le_bytes 8 (nat (truncated (amount trs))) @ sg"

subsection \<open>The stages of verify\<close>

text \<open>
  \<^verbatim>\<open>verify\<close> gets as far as its fee check when the checks on the sender, the
  requester, the signatures and the multisignatures have passed.
\<close>

definition passes_before_fee :: "env \<Rightarrow> transaction \<Rightarrow> account \<Rightarrow> account option \<Rightarrow> bool" where
  "passes_before_fee env trs s requester =
     (identity_checks env trs s requester = None
      \<and> check_multisignatures env trs (snd (add_sender trs s)) = None)"

text \<open>The errors of the checks that stand before the fee check.\<close>

fun early_error :: "error \<Rightarrow> bool" where
  "early_error Invalid_sender_public_key = True"
| "early_error Invalid_sender_address = True"
| "early_error Invalid_requester_public_key = True"
| "early_error (Caught e) = True"
| "early_error (Uncaught e) = True"
| "early_error Failed_to_verify_signature = True"
| "early_error Failed_to_verify_second_signature = True"
| "early_error Duplicate_signature = True"
| "early_error Failed_to_verify_multisignature = True"
| "early_error _ = False"

subsection \<open>A small instance\<close>

text \<open>
  A registry with two handlers, used to evaluate the operations on concrete inputs.
  Type 0 has a handler whose state changes do nothing and succeed; the handler of
  type 1 fails in every state change. The hash and the signature check of the
  instance are stand-ins: no property below depends on what they compute.
\<close>

definition demo_handler :: handler where
  "demo_handler =
     \<lparr>h_getBytes = (\<lambda>trs skipSignature skipSecondSignature. Inr None),
      h_calculateFee = (\<lambda>trs sender. Number_of 10),
      h_verify = (\<lambda>trs sender. None),
      h_ready = (\<lambda>trs sender. True),
      h_apply = (\<lambda>trs blk sender st. (None, st)),
      h_undo = (\<lambda>trs blk sender st. (None, st)),
      h_applyUnconfirmed = (\<lambda>trs sender st. (None, st)),
      h_undoUnconfirmed = (\<lambda>trs sender st. (None, st))\<rparr>"

definition failing_handler :: handler where
  "failing_handler =
     demo_handler
       \<lparr>h_apply := (\<lambda>trs blk sender st. (Some ''handler failed'', st)),
        h_undo := (\<lambda>trs blk sender st. (Some ''handler failed'', st)),
        h_applyUnconfirmed := (\<lambda>trs sender st. (Some ''handler failed'', st)),
        h_undoUnconfirmed := (\<lambda>trs sender st. (Some ''handler failed'', st))\<rparr>"

text \<open>The handler of type 2 charges no fee.\<close>

definition free_handler :: handler where
  "free_handler = demo_handler\<lparr>h_calculateFee := (\<lambda>trs sender. Number_of 0)\<rparr>"

definition demo_env :: env where
  "demo_env =
     \<lparr>types = (\<lambda>t. if t = 0 then Some demo_handler
                    else if t = 1 then Some failing_handler
                    else if t = 2 then Some free_handler else None),
      genesis_id = ''6524861224470851795'',
      sha256 = (\<lambda>bytes. take 32 (bytes @ replicate 32 0)),
      ed_Verify = (\<lambda>hash sg pk. Inr True),
      exceptions_senderPublicKey = [],
      totalAmount = Number_of 10000000000000000,
      delegates = 101,
      getSlotNumber = (\<lambda>t. t div 10),
      currentSlot = 20000\<rparr>"

definition demo_key :: string where
  "demo_key = ''c094ebee7ec0c50ebee32918655e089f6e1a604b83bcaa760293c61e0f18ab6f''"

definition demo_signature :: string where
  "demo_signature =
     ''618a54975212ead93df8c881655c625544bce8ed7ccdfe6f08a42eecfb1adebd'' @
     ''051307be5014bb051617baf7815d50f62129e70918190361e5d4dd4796541b0a''"

definition demo_key_bytes :: buffer where
  "demo_key_bytes =
     [192, 148, 235, 238, 126, 192, 197, 14, 190, 227, 41, 24, 101, 94, 8, 159,
      110, 26, 96, 75, 131, 188, 170, 118, 2, 147, 198, 30, 15, 24, 171, 111]"

definition demo_signature_bytes :: buffer where
  "demo_signature_bytes =
     [97, 138, 84, 151, 82, 18, 234, 217, 61, 248, 200, 129, 101, 92, 98, 85,
      68, 188, 232, 237, 124, 205, 254, 111, 8, 164, 46, 236, 251, 26, 222, 189,
      5, 19, 7, 190, 80, 20, 187, 5, 22, 23, 186, 247, 129, 93, 80, 246,
      33, 41, 231, 9, 24, 25, 3, 97, 229, 212, 221, 71, 150, 84, 27, 10]"

definition demo_trs :: transaction where
  "demo_trs =
     \<lparr>type = 0, timestamp = 141738, senderPublicKey = demo_key,
      requesterPublicKey = None, senderId = Some ''16313739661670634666L'',
      recipientId = Some ''58191285901858109L'', amount = Number_of 1000, fee = Number_of 10,
      signature = Some demo_signature, signSignature = None, signatures = None,
      trs_id = None, blockId = Some ''9'', keysgroup = None\<rparr>"

text \<open>A transaction of type 2 that offers the fee its handler calculates, which is 0.\<close>

definition free_trs :: transaction where
  "free_trs = demo_trs\<lparr>type := 2, fee := Number_of 0\<rparr>"

text \<open>A co-signer of the sender's multisignature group, and the transfer handed in by it.\<close>

definition cosigner_key :: string where
  "cosigner_key = ''9d3058175acab969f41ad9b86f7a2926c74258670fe56b37c429c01fca9f2f0f''"

definition cosigner_key_bytes :: buffer where
  "cosigner_key_bytes =
     [157, 48, 88, 23, 90, 202, 185, 105, 244, 26, 217, 184, 111, 122, 41, 38,
      199, 66, 88, 103, 15, 229, 107, 55, 196, 41, 192, 31, 202, 159, 47, 15]"

definition requested_trs :: transaction where
  "requested_trs = demo_trs\<lparr>requesterPublicKey := Some cosigner_key\<rparr>"

definition demo_block :: block where
  "demo_block = \<lparr>block_id = ''9'', height = 250\<rparr>"

definition demo_sender :: account where
  "demo_sender =
     \<lparr>address = ''16313739661670634666L'', publicKey = demo_key, balance = 5000,
      u_balance = 5000, secondSignature = False, secondPublicKey = [],
      multisignatures = None, u_multisignatures = None\<rparr>"

definition group_sender :: account where
  "group_sender = demo_sender\<lparr>multisignatures := Some [cosigner_key]\<rparr>"

definition demo_store :: store where
  "demo_store = \<lparr>accounts = (\<lambda>a. demo_sender\<lparr>address := a\<rparr>), faults = []\<rparr>"


text \<open>
  A chain with a total supply of \<open>2 ^ 61\<close>, a sender that holds all of it, and a
  transfer of \<open>2 ^ 60\<close> with a fee of 105.
\<close>

definition large_env :: env where
  "large_env = demo_env\<lparr>totalAmount := Number_of 2305843009213693952\<rparr>"

definition large_trs :: transaction where
  "large_trs = demo_trs\<lparr>amount := Number_of 1152921504606846976, fee := Number_of 105\<rparr>"

definition large_sender :: account where
  "large_sender = demo_sender\<lparr>balance := 2305843009213693952\<rparr>"

definition large_store :: store where
  "large_store = \<lparr>accounts = (\<lambda>a. large_sender\<lparr>address := a\<rparr>), faults = []\<rparr>"
section \<open>Properties\<close>

subsection \<open>Facts about the instance\<close>

lemma demo_types_0: "types demo_env 0 = Some demo_handler"
  by (simp add: demo_env_def)

lemma demo_types_1: "types demo_env 1 = Some failing_handler"
  by (simp add: demo_env_def)

lemma demo_types_2: "types demo_env 2 = Some free_handler"
  by (simp add: demo_env_def)

lemma demo_trs_type: "type demo_trs = 0"
  by (simp add: demo_trs_def)

lemma truthy_simps:
  "truthy None = False" "truthy (Some s) = (s \<noteq> [])"
  by (simp_all add: truthy_def)

lemmas demo_defs = demo_env_def demo_trs_def demo_block_def demo_sender_def demo_store_def
  demo_handler_def failing_handler_def free_handler_def free_trs_def requested_trs_def
  group_sender_def


subsection \<open>Digits\<close>

lemma digit_char_values:
  "digit_char 0 = CHR ''0''" "digit_char 1 = CHR ''1''" "digit_char 2 = CHR ''2''"
  "digit_char 3 = CHR ''3''" "digit_char 4 = CHR ''4''" "digit_char 5 = CHR ''5''"
  "digit_char 6 = CHR ''6''" "digit_char 7 = CHR ''7''" "digit_char 8 = CHR ''8''"
  "digit_char 9 = CHR ''9''" "digit_char (Suc 0) = CHR ''1''"
  by (simp_all add: digit_char_def char_of_def bit_Suc_0_iff)

lemma of_char_digit_char: "d < 10 \<Longrightarrow> of_char (digit_char d) = 48 + d"
  by (simp add: digit_char_def)


lemma indexOf_nonneg_iff: "0 \<le> indexOf xs c \<longleftrightarrow> c \<in> set xs"
  by (induction xs) (auto simp: Let_def)

lemma dec_digits_nonempty: "dec_digits n \<noteq> []"
  by (subst dec_digits.simps) simp

lemma dec_digits_is_digit: "c \<in> set (dec_digits n) \<Longrightarrow> is_digit c"
proof (induction n rule: dec_digits.induct)
  case (1 n)
  show ?case
  proof (cases "n < 10")
    case True
    with "1.prems" have "c = digit_char n"
      by (subst (asm) dec_digits.simps) simp
    with True show ?thesis
      by (simp add: is_digit_def of_char_digit_char)
  next
    case False
    with "1.prems" have "c \<in> set (dec_digits (n div 10)) \<or> c = digit_char (n mod 10)"
      by (subst (asm) dec_digits.simps) auto
    then show ?thesis
    proof
      assume "c \<in> set (dec_digits (n div 10))"
      with False "1.IH" show ?thesis by simp
    next
      assume "c = digit_char (n mod 10)"
      then show ?thesis
        by (simp add: is_digit_def of_char_digit_char)
    qed
  qed
qed

lemma dec_digits_no_point: "CHR ''.'' \<notin> set (dec_digits n)" "CHR ''e'' \<notin> set (dec_digits n)"
  using dec_digits_is_digit [of "CHR ''.''" n] dec_digits_is_digit [of "CHR ''e''" n]
  by (auto simp: is_digit_def)

lemma length_dec_digits_le: "0 < m \<Longrightarrow> n < 10 ^ m \<Longrightarrow> length (dec_digits n) \<le> m"
proof (induction m arbitrary: n)
  case 0
  then show ?case by simp
next
  case (Suc m)
  show ?case
  proof (cases "n < 10")
    case True
    then show ?thesis by (subst dec_digits.simps) simp
  next
    case False
    with Suc.prems have m: "0 < m"
      by (cases m) simp_all
    from Suc.prems have "n div 10 < 10 ^ m"
      by (simp add: less_mult_imp_div_less mult.commute)
    with m Suc.IH have "length (dec_digits (n div 10)) \<le> m" by simp
    with False show ?thesis by (subst dec_digits.simps) simp
  qed
qed


subsection \<open>Rounding to a number\<close>

lemma log_up_bounds:
  "0 < q \<Longrightarrow> q \<le> p \<Longrightarrow> q * 2 ^ log_up p q \<le> p \<and> p < 2 * q * 2 ^ log_up p q"
proof (induction p q rule: log_up.induct)
  case (1 p q)
  show ?case
  proof (cases "2 * q \<le> p")
    case True
    with "1.prems" have "2 * q * 2 ^ log_up p (2 * q) \<le> p \<and> p < 2 * (2 * q) * 2 ^ log_up p (2 * q)"
      by (intro "1.IH") simp_all
    with True "1.prems" show ?thesis
      by (subst log_up.simps, subst (2) log_up.simps) (simp add: mult_ac)
  next
    case False
    with "1.prems" show ?thesis
      by (subst log_up.simps, subst (2) log_up.simps) simp
  qed
qed

lemma log_up_unique:
  "0 < q \<Longrightarrow> q * 2 ^ l \<le> p \<Longrightarrow> p < 2 * q * 2 ^ l \<Longrightarrow> log_up p q = l"
proof (induction l arbitrary: q)
  case 0
  then show ?case by (subst log_up.simps) simp
next
  case (Suc l)
  have "2 * q \<le> q * 2 ^ Suc l"
    by simp
  also have "\<dots> \<le> p"
    by (rule Suc.prems)
  finally have "2 * q \<le> p" .
  moreover from Suc.prems have "log_up p (2 * q) = l"
    by (intro Suc.IH) (simp_all add: mult_ac)
  ultimately show ?case
    using Suc.prems by (subst log_up.simps) simp
qed

lemma round_half_even_1 [simp]: "round_half_even a (Suc 0) = a"
  by (simp add: round_half_even_def)

lemma round_half_even_exact: "0 < b \<Longrightarrow> round_half_even (a * b) b = a"
  by (simp add: round_half_even_def)

lemma round_half_even_ge: "0 < b \<Longrightarrow> a div b \<le> round_half_even a b"
  by (simp add: round_half_even_def Let_def)

lemma round_half_even_scale:
  "0 < c \<Longrightarrow> round_half_even (a * c) (b * c) = round_half_even a b"
  by (simp add: round_half_even_def Let_def mod_mult_mult2 mult.assoc [symmetric])


lemma floor_log2_int: "0 < N \<Longrightarrow> floor_log2 N (Suc 0) = int (log_up N (Suc 0))"
  by (simp add: floor_log2_def Suc_leI)

lemma log_up_int_bounds:
  assumes "0 < N"
  shows "2 ^ log_up N (Suc 0) \<le> N" and "N < 2 * 2 ^ log_up N (Suc 0)"
  using log_up_bounds [of "Suc 0" N] assms by simp_all

lemma round_int_small:
  assumes "0 < N" and "N < 2 ^ 53"
  shows "\<exists>j. j \<le> 52 \<and> round_fraction neg N (Suc 0) = Finite neg (N * 2 ^ j) (- int j)
           \<and> 2 ^ 52 \<le> N * 2 ^ j \<and> N * 2 ^ j < 2 ^ 53"
proof -
  define l where "l = log_up N (Suc 0)"
  have b1: "2 ^ l \<le> N" and b2: "N < 2 * 2 ^ l"
    using log_up_int_bounds [OF assms(1)] by (simp_all add: l_def)
  from b1 assms(2) have "(2::nat) ^ l < 2 ^ 53"
    by (rule le_less_trans)
  then have l: "l < 53"
    using power_less_imp_less_exp [of "2::nat" l 53] by simp
  define j where "j = 52 - l"
  have "l + j = 52"
    using l by (simp add: j_def)
  then have p: "(2::nat) ^ 52 = 2 ^ l * 2 ^ j"
    by (simp only: power_add [symmetric])
  have lo: "2 ^ 52 \<le> N * 2 ^ j"
    unfolding p using b1 by (rule mult_le_mono1)
  have "N * 2 ^ j < (2 * 2 ^ l) * 2 ^ j"
    using b2 by (intro mult_less_mono1) simp_all
  also have "\<dots> = 2 ^ 53"
    by (simp only: mult.assoc p [symmetric]) simp
  finally have hi: "N * 2 ^ j < 2 ^ 53" .
  have e: "max (- 1074) (floor_log2 N (Suc 0) - 52) = - int j"
    using l by (simp add: floor_log2_int [OF assms(1)] l_def [symmetric] j_def)
  have m: "(if 0 \<le> - int j then round_half_even N (Suc 0 * 2 ^ nat (- int j))
            else round_half_even (N * 2 ^ nat (- (- int j))) (Suc 0)) = N * 2 ^ j"
    by (cases "j = 0") simp_all
  have "round_fraction neg N (Suc 0) = Finite neg (N * 2 ^ j) (- int j)"
    using assms(1) hi unfolding round_fraction_def e Let_def m by simp
  moreover have "j \<le> 52"
    by (simp add: j_def)
  ultimately show ?thesis
    using lo hi by blast
qed

lemma round_int_large:
  assumes "2 ^ 53 \<le> N"
  shows "round_fraction neg N (Suc 0) = Infinity neg
       \<or> (\<exists>m e. round_fraction neg N (Suc 0) = Finite neg m e \<and> 2 ^ 52 \<le> m \<and> m < 2 ^ 53
                \<and> int (log_up N (Suc 0)) - 52 \<le> e \<and> 1 \<le> e)"
proof -
  from assms have pos: "0 < N"
    by simp
  define l where "l = log_up N (Suc 0)"
  have b1: "2 ^ l \<le> N" and b2: "N < 2 * 2 ^ l"
    using log_up_int_bounds [OF pos] by (simp_all add: l_def)
  from assms b2 have "(2::nat) ^ 53 < 2 ^ Suc l"
    by simp
  then have l: "53 \<le> l"
    using power_less_imp_less_exp [of "2::nat" 53 "Suc l"] by simp
  define e where "e = l - 52"
  have "52 + e = l"
    using l by (simp add: e_def)
  then have p: "(2::nat) ^ l = 2 ^ 52 * 2 ^ e"
    by (simp only: power_add [symmetric])
  have e1: "1 \<le> e"
    using l by (simp add: e_def)
  have em: "max (- 1074) (floor_log2 N (Suc 0) - 52) = int e"
    using l by (simp add: floor_log2_int [OF pos] l_def [symmetric] e_def)
  define m where "m = round_half_even N (2 ^ e)"
  have "2 ^ 52 * 2 ^ e \<le> N"
    using b1 p by simp
  then have "2 ^ 52 \<le> N div 2 ^ e"
    by (simp add: less_eq_div_iff_mult_less_eq)
  also have "\<dots> \<le> m"
    unfolding m_def by (rule round_half_even_ge) simp
  finally have mlo: "2 ^ 52 \<le> m" .
  have "N < 2 ^ 53 * 2 ^ e"
    using b2 p by simp
  then have d: "N div 2 ^ e < 2 ^ 53"
    by (simp add: less_mult_imp_div_less)
  have "m \<le> N div 2 ^ e + 1"
    by (simp add: m_def round_half_even_def Let_def)
  with d have mhi: "m \<le> 2 ^ 53"
    by simp
  have r: "round_fraction neg N (Suc 0)
         = (let e1 = (if m = 2 ^ 53 then int e + 1 else int e);
                m1 = (if m = 2 ^ 53 then 2 ^ 52 else m)
            in if 971 < e1 then Infinity neg else Finite neg m1 e1)"
    using pos unfolding round_fraction_def em by (simp add: Let_def m_def)
  show ?thesis
  proof (cases "m = 2 ^ 53")
    case True
    with r e1 show ?thesis
      by (auto simp: Let_def l_def [symmetric] e_def)
  next
    case False
    with mhi have "m < 2 ^ 53" by simp
    with False r e1 mlo l show ?thesis
      by (auto simp: Let_def l_def [symmetric] e_def)
  qed
qed

lemma round_int_53:
  assumes "2 ^ 53 \<le> N" and "N < 2 ^ 54"
  shows "round_fraction neg N (Suc 0)
       = (if round_half_even N 2 = 2 ^ 53 then Finite neg (2 ^ 52) 2
          else Finite neg (round_half_even N 2) 1)"
proof -
  from assms have pos: "0 < N"
    by simp
  have "log_up N (Suc 0) = 53"
    using assms by (intro log_up_unique) simp_all
  then have "max (- 1074) (floor_log2 N (Suc 0) - 52) = 1"
    by (simp add: floor_log2_int [OF pos])
  then show ?thesis
    using pos unfolding round_fraction_def by (simp add: Let_def)
qed

lemma round_int_huge:
  assumes "2 ^ 54 \<le> N"
  shows "round_fraction neg N (Suc 0) = Infinity neg
       \<or> (\<exists>m e. round_fraction neg N (Suc 0) = Finite neg m e \<and> 2 \<le> e)"
proof -
  from assms have pos: "0 < N" and big: "2 ^ 53 \<le> N"
    by simp_all
  have b2: "N < 2 * 2 ^ log_up N (Suc 0)"
    using log_up_int_bounds [OF pos] by simp
  with assms have "(2::nat) ^ 54 < 2 ^ Suc (log_up N (Suc 0))"
    by simp
  then have "54 \<le> log_up N (Suc 0)"
    using power_less_imp_less_exp [of "2::nat" 54 "Suc (log_up N (Suc 0))"] by simp
  with round_int_large [OF big, of neg] show ?thesis
    by auto
qed

lemma log_up_scale: "0 < c \<Longrightarrow> log_up (p * c) (q * c) = log_up p q"
proof (induction p q rule: log_up.induct)
  case (1 p q)
  show ?case
  proof (cases "0 < q \<and> 2 * q \<le> p")
    case True
    with "1.prems" have "log_up (p * c) (2 * q * c) = log_up p (2 * q)"
      by (intro "1.IH") simp_all
    with True "1.prems" show ?thesis
      by (subst log_up.simps, subst (2) log_up.simps) (simp add: mult.assoc)
  next
    case False
    with "1.prems" show ?thesis
      by (subst log_up.simps, subst (2) log_up.simps) auto
  qed
qed

lemma log_down_scale: "0 < c \<Longrightarrow> log_down (p * c) (q * c) = log_down p q"
proof (induction p q rule: log_down.induct)
  case (1 p q)
  show ?case
  proof (cases "0 < p \<and> p < q")
    case True
    with "1.prems" have "log_down (2 * p * c) (q * c) = log_down (2 * p) q"
      by (intro "1.IH") simp_all
    with True "1.prems" show ?thesis
      by (subst log_down.simps, subst (2) log_down.simps) (simp add: mult.assoc)
  next
    case False
    with "1.prems" show ?thesis
      by (subst log_down.simps, subst (2) log_down.simps) auto
  qed
qed

lemma floor_log2_scale: "0 < c \<Longrightarrow> floor_log2 (p * c) (q * c) = floor_log2 p q"
  by (simp add: floor_log2_def log_up_scale log_down_scale)

lemma round_fraction_scale:
  assumes "0 < c"
  shows "round_fraction neg (p * c) (q * c) = round_fraction neg p q"
proof -
  have a: "round_half_even (p * c) (q * c * 2 ^ k) = round_half_even p (q * 2 ^ k)" for k
    using round_half_even_scale [OF assms, of p "q * 2 ^ k"] by (simp add: mult_ac)
  have b: "round_half_even (p * c * 2 ^ k) (q * c) = round_half_even (p * 2 ^ k) q" for k
    using round_half_even_scale [OF assms, of "p * 2 ^ k" q] by (simp add: mult_ac)
  show ?thesis
    using assms unfolding round_fraction_def floor_log2_scale [OF assms] a b by simp
qed


lemma same_binade:
  fixes X :: nat
  assumes "2 ^ 52 \<le> X * 2 ^ a" and "X * 2 ^ a < 2 ^ 53"
    and "2 ^ 52 \<le> X * 2 ^ b" and "X * 2 ^ b < 2 ^ 53"
  shows "a = b"
proof -
  have less: False
    if "u < v" and 1: "(2::nat) ^ 52 \<le> X * 2 ^ u" and 2: "X * 2 ^ v < (2::nat) ^ 53" for u v :: nat
  proof -
    from that(1) have "Suc u \<le> v" by simp
    then have "(2::nat) ^ Suc u \<le> 2 ^ v"
      by (intro power_increasing) simp_all
    then have s: "X * 2 ^ Suc u \<le> X * 2 ^ v"
      by (rule mult_le_mono2)
    have "(2::nat) ^ 53 = 2 * 2 ^ 52"
      by simp
    also have "\<dots> \<le> 2 * (X * 2 ^ u)"
      using 1 by simp
    also have "\<dots> = X * 2 ^ Suc u"
      by simp
    also note s
    finally have "(2::nat) ^ 53 \<le> X * 2 ^ v" .
    with 2 show False by simp
  qed
  show ?thesis
  proof (rule ccontr)
    assume "a \<noteq> b"
    then consider "a < b" | "b < a" by arith
    then show False
    proof cases
      case 1
      from less [OF this assms(1) assms(4)] show False .
    next
      case 2
      from less [OF this assms(3) assms(2)] show False .
    qed
  qed
qed

lemma integer_fraction:
  assumes "is_integer (Finite neg m e)"
  shows "\<exists>X q. 0 < q \<and> fraction m e = (X * q, q) \<and> truncated (Finite neg m e) = with_sign neg X"
proof (cases "0 \<le> e")
  case True
  then show ?thesis
    by (intro exI [of _ "m * 2 ^ nat e"] exI [of _ 1]) (simp add: fraction_def truncated_def)
next
  case False
  with assms have "m mod 2 ^ nat (- e) = 0"
    by (simp add: is_integer_def)
  then have "m = m div 2 ^ nat (- e) * 2 ^ nat (- e)"
    by (simp add: mod_eq_0_iff_dvd)
  with False show ?thesis
    by (intro exI [of _ "m div 2 ^ nat (- e)"] exI [of _ "2 ^ nat (- e)"])
      (simp add: fraction_def truncated_def)
qed

lemma round_trip_nonneg:
  assumes "2 ^ 52 \<le> m" and "m < 2 ^ 53" and "k \<le> 971"
  shows "round_fraction neg (m * 2 ^ k) (Suc 0) = Finite neg m (int k)"
proof -
  have pos: "0 < m * 2 ^ k"
    using assms(1) by simp
  have "2 ^ 52 * 2 ^ k \<le> m * 2 ^ k"
    using assms(1) by (rule mult_le_mono1)
  then have lo: "Suc 0 * 2 ^ (52 + k) \<le> m * 2 ^ k"
    by (simp add: power_add)
  have "m * 2 ^ k < 2 ^ 53 * 2 ^ k"
    using assms(2) by (intro mult_less_mono1) simp_all
  also have "\<dots> = 2 * Suc 0 * 2 ^ (52 + k)"
    by (simp only: power_add) simp
  finally have hi: "m * 2 ^ k < 2 * Suc 0 * 2 ^ (52 + k)" .
  have "log_up (m * 2 ^ k) (Suc 0) = 52 + k"
    using lo hi by (intro log_up_unique) simp_all
  then have e: "max (- 1074) (floor_log2 (m * 2 ^ k) (Suc 0) - 52) = int k"
    by (simp add: floor_log2_int [OF pos])
  have r: "round_half_even (m * 2 ^ k) (2 ^ k) = m"
    using round_half_even_exact [of "2 ^ k" m] by simp
  show ?thesis
    using pos assms(2) assms(3) unfolding round_fraction_def e Let_def by (simp add: r)
qed

lemma round_trip_neg:
  assumes "2 ^ 52 \<le> X * 2 ^ j" and "X * 2 ^ j < 2 ^ 53"
  shows "round_fraction neg X (Suc 0) = Finite neg (X * 2 ^ j) (- int j)"
proof -
  from assms(1) have pos: "0 < X"
    by (cases "X = 0") simp_all
  have "X \<le> X * 2 ^ j"
    by simp
  from this assms(2) have small: "X < 2 ^ 53"
    by (rule le_less_trans)
  from round_int_small [OF pos small, of neg] obtain j' where
    j': "round_fraction neg X (Suc 0) = Finite neg (X * 2 ^ j') (- int j')"
        "2 ^ 52 \<le> X * 2 ^ j'" "X * 2 ^ j' < 2 ^ 53"
    by blast
  from same_binade [OF assms j'(2) j'(3)] j'(1) show ?thesis
    by simp
qed

lemma round_trip:
  assumes "is_double (Finite neg m e)" and "0 < m" and "fraction m e = (X * q, q)" and "0 < q"
  shows "round_fraction neg X (Suc 0) = Finite neg m e"
proof (cases "0 \<le> e")
  case True
  with assms(3) have q: "q = 1" and X: "X = m * 2 ^ nat e"
    by (simp_all add: fraction_def)
  from assms(1) True have "2 ^ 52 \<le> m" "m < 2 ^ 53" "nat e \<le> 971"
    by (auto simp: is_double_def)
  from round_trip_nonneg [OF this, of neg] True show ?thesis
    by (simp add: X)
next
  case False
  with assms(3) have q: "q = 2 ^ nat (- e)" and m: "m = X * 2 ^ nat (- e)"
    by (auto simp: fraction_def)
  have "e \<noteq> - 1074"
  proof
    assume e: "e = - 1074"
    from assms(2) m have "0 < X"
      by (cases "X = 0") simp_all
    then have "1 * 2 ^ nat (- e) \<le> X * 2 ^ nat (- e)"
      by (intro mult_le_mono1) simp
    then have a: "(2::nat) ^ 1074 \<le> m"
      using m e by simp
    have "(2::nat) ^ 53 \<le> 2 ^ 1074"
      by (intro power_increasing) simp_all
    from this a have "2 ^ 53 \<le> m"
      by (rule le_trans)
    moreover from assms(1) have "m < 2 ^ 53"
      by (simp add: is_double_def)
    ultimately show False
      by simp
  qed
  with assms(1) have "2 ^ 52 \<le> m" "m < 2 ^ 53"
    by (auto simp: is_double_def)
  then have "2 ^ 52 \<le> X * 2 ^ nat (- e)" "X * 2 ^ nat (- e) < 2 ^ 53"
    using m by simp_all
  from round_trip_neg [OF this, of neg] False m show ?thesis
    by simp
qed

lemma truncated_round_int_small:
  assumes "N < 2 ^ 53"
  shows "truncated (round_fraction neg N (Suc 0)) = with_sign neg N"
proof (cases "N = 0")
  case True
  then show ?thesis
    by (simp add: round_fraction_def truncated_def fraction_def with_sign_def)
next
  case False
  then have "0 < N" by simp
  from round_int_small [OF this assms, of neg] show ?thesis
    by (auto simp: truncated_def fraction_def)
qed

lemma round_half_even_2: "even d \<Longrightarrow> round_half_even d 2 = d div 2"
  by (auto simp: round_half_even_def Let_def elim!: evenE)

lemma round_int_zero: "round_fraction neg 0 q = Finite neg 0 (- 1074)"
  by (simp add: round_fraction_def)

lemma round_int_inj:
  assumes eq: "round_fraction False d (Suc 0) = round_fraction False X (Suc 0)"
    and X: "0 < X" "X < 2 ^ 54" "X < 2 ^ 53 \<or> even X"
    and d: "d < 2 ^ 53 \<or> even d"
  shows "d = X"
proof (cases "X < 2 ^ 53")
  case True
  from round_int_small [OF X(1) True, of False] obtain j where
    j: "round_fraction False X (Suc 0) = Finite False (X * 2 ^ j) (- int j)"
       "2 ^ 52 \<le> X * 2 ^ j" "X * 2 ^ j < 2 ^ 53"
    by blast
  consider "d = 0" | "0 < d" "d < 2 ^ 53" | "2 ^ 53 \<le> d"
    by (cases "d = 0"; cases "d < 2 ^ 53") auto
  then show ?thesis
  proof cases
    case 1
    with eq j show ?thesis
      by (simp add: round_int_zero)
  next
    case 2
    from round_int_small [OF this, of False] obtain j' where
      j': "round_fraction False d (Suc 0) = Finite False (d * 2 ^ j') (- int j')"
      by blast
    have "Finite False (d * 2 ^ j') (- int j') = Finite False (X * 2 ^ j) (- int j)"
      by (simp only: j' [symmetric] j(1) [symmetric] eq)
    then show ?thesis by auto
  next
    case 3
    from round_int_large [OF this, of False] eq j(1) show ?thesis
      by auto
  qed
next
  case False
  with X(3) have ev: "even X" and big: "2 ^ 53 \<le> X"
    by simp_all
  from X(2) have "X div 2 < 2 ^ 53"
    by simp
  then have rX: "round_fraction False X (Suc 0) = Finite False (X div 2) 1"
    using round_int_53 [OF big X(2), of False] by (simp add: round_half_even_2 [OF ev])
  consider "d = 0" | "0 < d" "d < 2 ^ 53" | "2 ^ 53 \<le> d" "d < 2 ^ 54" | "2 ^ 54 \<le> d"
    by (cases "d = 0"; cases "d < 2 ^ 53"; cases "d < 2 ^ 54") auto
  then show ?thesis
  proof cases
    case 1
    with eq rX show ?thesis
      by (simp add: round_int_zero)
  next
    case 2
    from round_int_small [OF this, of False] eq rX show ?thesis
      by auto
  next
    case 3
    with d have evd: "even d" by simp
    from 3 have "d div 2 < 2 ^ 53"
      by simp
    then have "round_fraction False d (Suc 0) = Finite False (d div 2) 1"
      using round_int_53 [OF 3, of False] by (simp add: round_half_even_2 [OF evd])
    with eq rX have "d div 2 = X div 2"
      by simp
    with ev evd show ?thesis
      by (auto elim!: evenE)
  next
    case 4
    from round_int_huge [OF this, of False] eq rX show ?thesis
      by auto
  qed
qed

subsection \<open>The decimal a number is printed with\<close>

lemma low_digits_integer:
  "0 < q \<Longrightarrow> 0 \<le> t \<Longrightarrow> low_digits (X * q) q t = X div 10 ^ nat t"
  by (simp add: low_digits_def div_mult2_eq [symmetric] mult.commute)

lemma decimal_integer: "0 \<le> t \<Longrightarrow> decimal neg c t = round_fraction neg (c * 10 ^ nat t) (Suc 0)"
  by (simp add: decimal_def)

lemma nearer_high_exact:
  assumes "0 \<le> t" and "0 < q" and "lo * 10 ^ nat t = X"
  shows "\<not> nearer_high (X * q) q lo t"
proof -
  have "(2 * lo + 1) * 10 ^ nat t * q = 2 * (X * q) + 10 ^ nat t * q"
    using assms(3) by (simp add: algebra_simps)
  then show ?thesis
    using assms(1,2) by (simp add: nearer_high_def Let_def)
qed

lemma representable_integer:
  assumes "is_double (Finite neg m e)" and "fraction m e = (X * q, q)" and "0 < q"
  shows "X < 2 ^ 53 \<or> even X"
proof (cases "1 \<le> e")
  case True
  with assms(2) have "X = m * 2 ^ nat e"
    by (simp add: fraction_def)
  also have "nat e = Suc (nat (e - 1))"
    using True by simp
  finally have "X = 2 * (m * 2 ^ nat (e - 1))"
    by simp
  then show ?thesis
    by simp
next
  case False
  with assms(2) assms(3) have "X * q = m"
    by (auto simp: fraction_def split: if_splits)
  moreover have "X \<le> X * q"
    using assms(3) by simp
  moreover from assms(1) have "m < 2 ^ 53"
    by (simp add: is_double_def)
  ultimately show ?thesis
    by simp
qed

lemma shortest_integer:
  assumes v: "is_double (Finite False m e)" "0 < m" "fraction m e = (X * q, q)" "0 < q"
    and k: "int k \<le> n"
  shows "\<exists>c t. shortest m e n k = (c, t) \<and> 0 \<le> t \<and> t \<le> n - int k
           \<and> c \<le> X div 10 ^ nat t + 1 \<and> (X < 2 ^ 54 \<longrightarrow> c * 10 ^ nat t = X)"
  using k
proof (induction "nat (n - int k)" arbitrary: k rule: less_induct)
  case less
  define t where "t = n - int k"
  define lo where "lo = X div 10 ^ nat t"
  have t0: "0 \<le> t"
    using less.prems by (simp add: t_def)
  have X0: "0 < X"
    using v(2) v(3) by (cases "X = 0") (auto simp: fraction_def split: if_splits)
  have rt: "round_fraction False X (Suc 0) = Finite False m e"
    using v by (rule round_trip)
  have rep: "X < 2 ^ 53 \<or> even X"
    using v(1) v(3) v(4) by (rule representable_integer)
  have lo_eq: "low_digits (fst (fraction m e)) (snd (fraction m e)) t = lo"
    using v(4) t0 by (simp add: v(3) low_digits_integer lo_def)
  have lo_le: "lo * 10 ^ nat t \<le> X"
    by (simp add: lo_def)
  have exact: "c * 10 ^ nat t = X"
    if "decimal False c t = Finite False m e" and "X < 2 ^ 54" and "t = 0 \<longrightarrow> c = lo" for c
  proof (cases "t = 0")
    case True
    with that(3) show ?thesis
      by (simp add: lo_def)
  next
    case False
    with t0 have "0 < nat t" by simp
    then have "even ((10::nat) ^ nat t)"
      by simp
    then have "even (c * 10 ^ nat t)"
      by simp
    moreover from that(1) have "round_fraction False (c * 10 ^ nat t) (Suc 0)
        = round_fraction False X (Suc 0)"
      using t0 by (simp add: decimal_integer rt)
    ultimately show ?thesis
      using X0 that(2) rep by (intro round_int_inj) simp_all
  qed
  have at_end: "decimal False lo t = Finite False m e" if "t = 0"
    using that rt by (simp add: decimal_integer lo_def)
  have unfold: "shortest m e n k =
     (if n + int (nat (- e)) \<le> int k then (lo, t)
      else if decimal False lo t = Finite False m e
      then (if decimal False (lo + 1) t = Finite False m e
               \<and> nearer_high (fst (fraction m e)) (snd (fraction m e)) lo t
            then (lo + 1, t) else (lo, t))
      else if decimal False (lo + 1) t = Finite False m e then (lo + 1, t)
      else shortest m e n (k + 1))"
    by (subst shortest.simps) (simp add: Let_def lo_eq t_def [symmetric])
  consider (guard) "n + int (nat (- e)) \<le> int k"
    | (low) "\<not> n + int (nat (- e)) \<le> int k" "decimal False lo t = Finite False m e"
    | (high) "\<not> n + int (nat (- e)) \<le> int k" "decimal False lo t \<noteq> Finite False m e"
        "decimal False (lo + 1) t = Finite False m e"
    | (further) "\<not> n + int (nat (- e)) \<le> int k" "decimal False lo t \<noteq> Finite False m e"
        "decimal False (lo + 1) t \<noteq> Finite False m e"
    by blast
  then show ?case
  proof cases
    case guard
    with less.prems have "t = 0"
      unfolding t_def by arith
    with guard unfold show ?thesis
      by (simp add: lo_def t_def)
  next
    case low
    show ?thesis
    proof (cases "X < 2 ^ 54")
      case True
      from exact [OF low(2) True] have ex: "lo * 10 ^ nat t = X"
        by simp
      from nearer_high_exact [OF t0 v(4) ex]
      have "\<not> nearer_high (fst (fraction m e)) (snd (fraction m e)) lo t"
        by (simp add: v(3))
      with low unfold have "shortest m e n k = (lo, t)"
        by simp
      with ex t0 show ?thesis
        by (simp add: t_def lo_def)
    next
      case False
      from low unfold have "shortest m e n k = (lo, t) \<or> shortest m e n k = (lo + 1, t)"
        by auto
      with False t0 show ?thesis
        by (auto simp: t_def lo_def)
    qed
  next
    case high
    from high(2) at_end have "t \<noteq> 0"
      by blast
    then have "c * 10 ^ nat t = X" if "decimal False c t = Finite False m e" "X < 2 ^ 54" for c
      using exact [OF that] by simp
    from this [OF high(3)] high unfold t0 show ?thesis
      by (simp add: t_def lo_def)
  next
    case further
    from further(2) at_end have "t \<noteq> 0"
      by blast
    with t0 have "int (k + 1) \<le> n"
      by (simp add: t_def)
    moreover from this have "nat (n - int (k + 1)) < nat (n - int k)"
      by simp
    ultimately obtain c t' where
      r: "shortest m e n (k + 1) = (c, t')" "0 \<le> t'" "t' \<le> n - int (k + 1)"
         "c \<le> X div 10 ^ nat t' + 1" "X < 2 ^ 54 \<longrightarrow> c * 10 ^ nat t' = X"
      using less.hyps [of "k + 1"] by blast
    from further unfold have "shortest m e n k = shortest m e n (k + 1)"
      by simp
    with r show ?thesis
      by auto
  qed
qed


lemma length_dec_digits_div_le:
  "length (dec_digits (c div 10)) \<le> length (dec_digits c)"
proof (cases "c < 10")
  case True
  then show ?thesis
    by (simp add: dec_digits.simps [of c] dec_digits.simps [of 0])
next
  case False
  then show ?thesis by (subst (2) dec_digits.simps) simp
qed

lemma mag_up_lower: "0 < q \<Longrightarrow> q \<le> p \<Longrightarrow> q * 10 ^ mag_up p q \<le> p"
proof (induction p q rule: mag_up.induct)
  case (1 p q)
  show ?case
  proof (cases "10 * q \<le> p")
    case True
    with "1.prems" have "10 * q * 10 ^ mag_up p (10 * q) \<le> p"
      by (intro "1.IH") simp_all
    with True "1.prems" show ?thesis
      by (subst mag_up.simps) (simp add: mult_ac)
  next
    case False
    with "1.prems" show ?thesis
      by (subst mag_up.simps) simp
  qed
qed

text \<open>The decimal of an integer-valued number.\<close>

lemma decimal_of_integer:
  assumes v: "is_double (Finite False m e)" "0 < m" "fraction m e = (X * q, q)" "0 < q"
  shows "\<exists>c t. decimal_of m e = (c, t) \<and> 0 \<le> t
           \<and> (X < 10 ^ 20 \<longrightarrow> c < 10 ^ nat (21 - t) \<and> t \<le> 19)
           \<and> (X < 2 ^ 54 \<longrightarrow> c * 10 ^ nat t = X)"
proof -
  have X0: "0 < X"
    using v(2) v(3) by (cases "X = 0") (auto simp: fraction_def split: if_splits)
  then have qp: "q \<le> X * q"
    by simp
  define n where "n = magnitude (X * q) q"
  have n: "n = int (mag_up (X * q) q) + 1"
    using qp by (simp add: n_def magnitude_def)
  then have "int 1 \<le> n"
    by simp
  from shortest_integer [OF v this] obtain c t where
    r: "shortest m e n 1 = (c, t)" "0 \<le> t" "t \<le> n - int 1"
       "c \<le> X div 10 ^ nat t + 1" "X < 2 ^ 54 \<longrightarrow> c * 10 ^ nat t = X"
    by blast
  have d: "decimal_of m e = (c, t)"
    using r(1) by (simp add: decimal_of_def v(3) n_def)
  have "c < 10 ^ nat (21 - t) \<and> t \<le> 19" if small: "X < 10 ^ 20"
  proof -
    from mag_up_lower [OF v(4) qp] have "10 ^ mag_up (X * q) q \<le> X"
      using v(4) by (simp add: mult.commute)
    from this small have "(10::nat) ^ mag_up (X * q) q < 10 ^ 20"
      by (rule le_less_trans)
    then have "mag_up (X * q) q < 20"
      using power_less_imp_less_exp [of "10::nat" "mag_up (X * q) q" 20] by simp
    with r(3) n have t19: "t \<le> 19"
      by simp
    with r(2) have "nat t + nat (20 - t) = 20"
      by simp
    then have "(10::nat) ^ 20 = 10 ^ nat t * 10 ^ nat (20 - t)"
      by (simp only: power_add [symmetric])
    with small have "X div 10 ^ nat t < 10 ^ nat (20 - t)"
      by (simp add: less_mult_imp_div_less mult.commute)
    with r(4) have "c \<le> 10 ^ nat (20 - t)"
      by simp
    also have "(10::nat) ^ nat (20 - t) < 10 ^ nat (21 - t)"
      using t19 by (intro power_strict_increasing) simp_all
    finally show ?thesis
      using t19 by simp
  qed
  with d r(2) r(5) show ?thesis
    by blast
qed






lemma digits_toString_integer:
  assumes "int (length (dec_digits s)) \<le> n" and "n \<le> 21"
  shows "CHR ''.'' \<notin> set (digits_toString s n)" and "CHR ''e'' \<notin> set (digits_toString s n)"
  using assms dec_digits_no_point [of s] by (auto simp: digits_toString_def Let_def)

lemma digits_integer:
  assumes "is_double (Finite neg m e)" and "0 < m" and "fraction m e = (X * q, q)" and "0 < q"
    and "X < 10 ^ 20"
  shows "int (length (dec_digits (fst (digits m e)))) \<le> snd (digits m e)"
    and "snd (digits m e) \<le> 21"
proof -
  from assms(1) have v: "is_double (Finite False m e)"
    by (simp add: is_double_def)
  from decimal_of_integer [OF v assms(2-4)] assms(5) obtain c t where
    r: "decimal_of m e = (c, t)" "0 \<le> t" "c < 10 ^ nat (21 - t)" "t \<le> 19"
    by blast
  have l: "length (dec_digits c) \<le> nat (21 - t)"
    using r(3) r(4) by (intro length_dec_digits_le) simp_all
  from r(2) l length_dec_digits_div_le [of c]
  show "int (length (dec_digits (fst (digits m e)))) \<le> snd (digits m e)"
    by (simp add: digits_def r(1))
  from l r(4) show "snd (digits m e) \<le> 21"
    by (simp add: digits_def r(1))
qed

lemma Number_toString_integer:
  assumes "is_double (Finite neg m e)" and "fraction m e = (X * q, q)" and "0 < q"
    and "X < 10 ^ 20"
  shows "CHR ''.'' \<notin> set (Number_toString (Finite neg m e))"
    and "CHR ''e'' \<notin> set (Number_toString (Finite neg m e))"
proof -
  have "CHR ''.'' \<notin> set (Number_toString (Finite neg m e))
      \<and> CHR ''e'' \<notin> set (Number_toString (Finite neg m e))"
  proof (cases "m = 0")
    case True
    then show ?thesis by simp
  next
    case False
    then have "0 < m" by simp
    from digits_toString_integer [OF digits_integer [OF assms(1) this assms(2-4)]] show ?thesis
      by simp
  qed
  then show "CHR ''.'' \<notin> set (Number_toString (Finite neg m e))"
    and "CHR ''e'' \<notin> set (Number_toString (Finite neg m e))"
    by simp_all
qed

subsection \<open>Numbers that are integers\<close>

lemma with_sign_mult: "with_sign neg (X * k) = with_sign neg X * int k"
  by (simp add: with_sign_def)

lemma integer_of_Finite:
  assumes "integer_of (Finite neg m e) = Some A"
  shows "\<exists>X q. 0 < q \<and> fraction m e = (X * q, q) \<and> A = with_sign neg X"
proof -
  from assms have i: "is_integer (Finite neg m e)" and A: "A = truncated (Finite neg m e)"
    by (auto simp: integer_of_def split: if_splits)
  from integer_fraction [OF i] A show ?thesis
    by auto
qed

lemma integer_of_SomeE:
  assumes "integer_of x = Some A"
  obtains neg m e X q where "x = Finite neg m e" and "0 < q" and "fraction m e = (X * q, q)"
    and "A = with_sign neg X"
proof (cases x)
  case (Finite neg m e)
  with assms integer_of_Finite [of neg m e A] that show ?thesis
    by blast
qed (use assms in \<open>simp_all add: integer_of_def is_integer_def\<close>)

lemma Number_of_0 [simp]: "Number_of 0 = Finite False 0 (- 1074)"
  by (simp add: Number_of_def round_fraction_def)

lemma Number_of_small:
  assumes "\<bar>x\<bar> < 2 ^ 53"
  shows "is_double (Number_of x)" and "integer_of (Number_of x) = Some x"
proof -
  have "is_double (Number_of x) \<and> integer_of (Number_of x) = Some x"
  proof (cases "x = 0")
    case True
    then show ?thesis
      by (simp add: is_double_def integer_of_def is_integer_def truncated_def fraction_def with_sign_def)
  next
    case False
    then have pos: "0 < nat \<bar>x\<bar>"
      by simp
    from assms have small: "nat \<bar>x\<bar> < 2 ^ 53"
      by (simp add: nat_less_iff)
    from round_int_small [OF pos small, of "x < 0"] obtain j where
      j: "j \<le> 52" "Number_of x = Finite (x < 0) (nat \<bar>x\<bar> * 2 ^ j) (- int j)"
         "2 ^ 52 \<le> nat \<bar>x\<bar> * 2 ^ j" "nat \<bar>x\<bar> * 2 ^ j < 2 ^ 53"
      by (auto simp: Number_of_def)
    have "is_double (Number_of x)"
      using j by (simp add: is_double_def)
    moreover have "integer_of (Number_of x) = Some x"
      by (simp add: j(2) integer_of_def is_integer_def truncated_def fraction_def with_sign_def)
    ultimately show ?thesis
      by simp
  qed
  then show "is_double (Number_of x)" and "integer_of (Number_of x) = Some x"
    by simp_all
qed

lemma truncated_Number_of: "\<bar>x\<bar> < 2 ^ 53 \<Longrightarrow> truncated (Number_of x) = x"
  using Number_of_small(2) [of x] by (simp add: integer_of_def split: if_splits)

lemma number_less_integer:
  assumes "integer_of x = Some X" and "integer_of y = Some Y"
  shows "number_less x y \<longleftrightarrow> X < Y"
proof -
  from assms(1) obtain n1 m1 e1 X1 q1 where
    x: "x = Finite n1 m1 e1" "0 < q1" "fraction m1 e1 = (X1 * q1, q1)" "X = with_sign n1 X1"
    by (rule integer_of_SomeE)
  from assms(2) obtain n2 m2 e2 X2 q2 where
    y: "y = Finite n2 m2 e2" "0 < q2" "fraction m2 e2 = (X2 * q2, q2)" "Y = with_sign n2 X2"
    by (rule integer_of_SomeE)
  have "number_less x y \<longleftrightarrow> with_sign n1 (X1 * (q1 * q2)) < with_sign n2 (X2 * (q1 * q2))"
    by (simp add: x y mult_ac)
  also have "\<dots> \<longleftrightarrow> X * int (q1 * q2) < Y * int (q1 * q2)"
    by (simp only: with_sign_mult x(4) y(4))
  also have "\<dots> \<longleftrightarrow> X < Y"
    using x(2) y(2) by simp
  finally show ?thesis .
qed

lemma integer_of_negate: "integer_of (negate x) = map_option uminus (integer_of x)"
  by (cases x) (simp_all add: integer_of_def is_integer_def truncated_def with_sign_def
      split: prod.splits)

lemma is_double_negate [simp]: "is_double (negate x) = is_double x"
  by (cases x) (simp_all add: is_double_def)

lemma number_add_integer:
  assumes "integer_of a = Some A" and "integer_of f = Some F"
  shows "number_add a f = Number_of (A + F) \<or> (number_add a f = Finite True 0 (- 1074) \<and> A + F = 0)"
proof -
  from assms(1) obtain n1 m1 e1 X1 q1 where
    a: "a = Finite n1 m1 e1" "0 < q1" "fraction m1 e1 = (X1 * q1, q1)" "A = with_sign n1 X1"
    by (rule integer_of_SomeE)
  from assms(2) obtain n2 m2 e2 X2 q2 where
    f: "f = Finite n2 m2 e2" "0 < q2" "fraction m2 e2 = (X2 * q2, q2)" "F = with_sign n2 X2"
    by (rule integer_of_SomeE)
  define s where "s = with_sign n1 (X1 * q1 * q2) + with_sign n2 (X2 * q2 * q1)"
  have s: "s = (A + F) * int (q1 * q2)"
    by (simp add: s_def with_sign_mult a(4) f(4) algebra_simps)
  have r: "number_add a f
         = (if s = 0 then Finite (n1 \<and> n2) 0 (- 1074)
            else round_fraction (s < 0) (nat \<bar>s\<bar>) (q1 * q2))"
    by (simp add: a f s_def Let_def)
  show ?thesis
  proof (cases "A + F = 0")
    case True
    with s r show ?thesis
      by (cases "n1 \<and> n2") auto
  next
    case False
    with s a(2) f(2) have s0: "s \<noteq> 0"
      by simp
    have neg: "s < 0 \<longleftrightarrow> A + F < 0"
      using a(2) f(2) by (simp add: s mult_less_0_iff)
    have "nat \<bar>s\<bar> = nat \<bar>A + F\<bar> * (q1 * q2)"
      by (simp add: s abs_mult nat_mult_distrib)
    then have "round_fraction (s < 0) (nat \<bar>s\<bar>) (q1 * q2)
             = round_fraction (A + F < 0) (nat \<bar>A + F\<bar> * (q1 * q2)) (Suc 0 * (q1 * q2))"
      by (simp add: neg)
    also have "\<dots> = Number_of (A + F)"
      unfolding Number_of_def using a(2) f(2) by (subst round_fraction_scale) simp_all
    finally show ?thesis
      using r s0 by simp
  qed
qed

lemma bignum_of_integer:
  assumes "is_double a" and "integer_of a = Some A" and "0 \<le> A" and "A < 2 ^ 54"
  shows "\<exists>c t. bignum_of a = Big c t \<and> 0 \<le> t \<and> c * 10 ^ nat t = A"
proof -
  from assms(2) obtain neg m e X q where
    a: "a = Finite neg m e" "0 < q" "fraction m e = (X * q, q)" "A = with_sign neg X"
    by (rule integer_of_SomeE)
  show ?thesis
  proof (cases "m = 0")
    case True
    with a(2) a(3) have "X = 0"
      by (auto simp: fraction_def split: if_splits)
    with True a show ?thesis
      by (simp add: bignum_of_def with_sign_def)
  next
    case False
    then have m: "0 < m" by simp
    with a(2) a(3) have X: "0 < X"
      by (cases "X = 0") (auto simp: fraction_def split: if_splits)
    with a(4) assms(3) have neg: "\<not> neg" and AX: "A = int X"
      by (auto simp: with_sign_def split: if_splits)
    from assms(1) have v: "is_double (Finite False m e)"
      by (simp add: a(1) is_double_def)
    from assms(4) AX have "X < 2 ^ 54"
      by simp
    with decimal_of_integer [OF v m a(3) a(2)] obtain c t where
      r: "decimal_of m e = (c, t)" "0 \<le> t" "c * 10 ^ nat t = X"
      by blast
    from r(3) have "int (c * 10 ^ nat t) = int X"
      by simp
    then have "int c * 10 ^ nat t = A"
      unfolding AX by simp
    with False neg r show ?thesis
      by (simp add: a(1) bignum_of_def with_sign_def)
  qed
qed

lemma sum_scale:
  fixes c1 c2 :: int
  assumes "0 \<le> t1" and "0 \<le> t2"
  shows "(c1 * 10 ^ nat (t1 - min t1 t2) + c2 * 10 ^ nat (t2 - min t1 t2)) * 10 ^ nat (min t1 t2)
       = c1 * 10 ^ nat t1 + c2 * 10 ^ nat t2"
proof -
  have "nat (t1 - min t1 t2) + nat (min t1 t2) = nat t1"
    and "nat (t2 - min t1 t2) + nat (min t1 t2) = nat t2"
    using assms by simp_all
  then have "(10::int) ^ nat t1 = 10 ^ nat (t1 - min t1 t2) * 10 ^ nat (min t1 t2)"
    and "(10::int) ^ nat t2 = 10 ^ nat (t2 - min t1 t2) * 10 ^ nat (min t1 t2)"
    by (simp_all only: power_add [symmetric])
  then show ?thesis
    by (simp add: algebra_simps)
qed

lemma bignum_sum_integer:
  assumes "is_double a" and "integer_of a = Some A" and "0 \<le> A" and "A < 2 ^ 54"
    and "is_double f" and "integer_of f = Some F" and "0 \<le> F" and "F < 2 ^ 54"
  shows "bignum_toNumber (bignum_plus (bignum_of a) (bignum_of f)) = Number_of (A + F)"
    and "bignum_lessThan (Big B 0) (bignum_plus (bignum_of a) (bignum_of f)) \<longleftrightarrow> B < A + F"
proof -
  from bignum_of_integer [OF assms(1-4)] obtain c1 t1 where
    a: "bignum_of a = Big c1 t1" "0 \<le> t1" "c1 * 10 ^ nat t1 = A"
    by blast
  from bignum_of_integer [OF assms(5-8)] obtain c2 t2 where
    f: "bignum_of f = Big c2 t2" "0 \<le> t2" "c2 * 10 ^ nat t2 = F"
    by blast
  define t where "t = min t1 t2"
  define c where "c = c1 * 10 ^ nat (t1 - t) + c2 * 10 ^ nat (t2 - t)"
  have p: "bignum_plus (bignum_of a) (bignum_of f) = Big c t"
    by (simp add: a f c_def t_def Let_def)
  have t0: "0 \<le> t"
    using a(2) f(2) by (simp add: t_def)
  have v: "c * 10 ^ nat t = A + F"
    using sum_scale [OF a(2) f(2), of c1 c2] by (simp add: c_def t_def a(3) f(3))
  from v assms(3) assms(7) have "0 \<le> c * 10 ^ nat t"
    by simp
  moreover have "\<not> (10::int) ^ nat t \<le> 0"
    by (simp add: not_le)
  ultimately have c0: "0 \<le> c"
    by (simp add: zero_le_mult_iff)
  have "nat \<bar>c\<bar> * 10 ^ nat t = nat (A + F)"
    using c0 v by (simp add: nat_mult_distrib nat_power_eq flip: v)
  then show "bignum_toNumber (bignum_plus (bignum_of a) (bignum_of f)) = Number_of (A + F)"
    using c0 t0 assms(3) assms(7) by (simp add: p decimal_def Number_of_def)
  have "bignum_lessThan (Big B 0) (Big c t) \<longleftrightarrow> B < c * 10 ^ nat t"
    using t0 by (simp add: Let_def min_def)
  then show "bignum_lessThan (Big B 0) (bignum_plus (bignum_of a) (bignum_of f)) \<longleftrightarrow> B < A + F"
    by (simp add: p v)
qed

lemma Number_of_even:
  assumes "2 ^ 53 \<le> x" and "x < 2 ^ 54" and "even x"
  shows "is_double (Number_of x)" and "integer_of (Number_of x) = Some x"
proof -
  from assms(1) have pos: "0 \<le> x"
    by simp
  from assms(1) have lo: "2 ^ 53 \<le> nat x"
    by (simp add: le_nat_iff)
  from assms(2) pos have hi: "nat x < 2 ^ 54"
    by (simp add: nat_less_iff)
  from assms(3) pos have ev: "even (nat x)"
    by (simp add: even_nat_iff)
  from hi have "nat x div 2 < 2 ^ 53"
    by simp
  then have r: "Number_of x = Finite False (nat x div 2) 1"
    using round_int_53 [OF lo hi, of False] pos
    by (simp add: Number_of_def round_half_even_2 [OF ev])
  from lo have "2 ^ 52 \<le> nat x div 2"
    by simp
  with \<open>nat x div 2 < 2 ^ 53\<close> show "is_double (Number_of x)"
    by (simp add: r is_double_def)
  from ev have "nat x div 2 * 2 = nat x"
    by simp
  then show "integer_of (Number_of x) = Some x"
    using pos by (simp add: r integer_of_def is_integer_def truncated_def fraction_def with_sign_def)
qed

lemma round_fraction_not_NaN [simp]: "round_fraction neg p q \<noteq> NaN"
  by (simp add: round_fraction_def Let_def)

lemma Number_of_not_NaN [simp]: "Number_of x \<noteq> NaN"
  by (simp add: Number_of_def)

lemma integer_of_NaN [simp]: "integer_of NaN = None"
  by (simp add: integer_of_def is_integer_def)

lemma strict_equals_integer:
  assumes "integer_of x = Some X" and "integer_of y = Some Y"
  shows "strict_equals x y \<longleftrightarrow> X = Y"
proof -
  from assms have "x \<noteq> NaN" and "y \<noteq> NaN"
    by auto
  then show ?thesis
    using number_less_integer [OF assms] number_less_integer [OF assms(2) assms(1)]
    by (auto simp: strict_equals_def)
qed

lemma falsy_integer:
  assumes "integer_of x = Some X"
  shows "falsy x \<longleftrightarrow> X = 0"
proof -
  from assms obtain neg m e X' q where
    x: "x = Finite neg m e" "0 < q" "fraction m e = (X' * q, q)" "X = with_sign neg X'"
    by (rule integer_of_SomeE)
  from x(2) x(3) have "m = 0 \<longleftrightarrow> X' = 0"
    by (auto simp: fraction_def split: if_splits)
  then show ?thesis
    by (simp add: x(1) x(4) falsy_def with_sign_def)
qed

lemma number_add_Number_of:
  assumes "0 \<le> A" and "A < 2 ^ 53" and "0 \<le> F" and "F < 2 ^ 53"
  shows "number_add (Number_of A) (Number_of F) = Number_of (A + F)"
proof (cases "A + F = 0")
  case True
  with assms have "A = 0" and "F = 0"
    by simp_all
  then show ?thesis
    by (simp add: fraction_def with_sign_def)
next
  case False
  from assms have "integer_of (Number_of A) = Some A" and "integer_of (Number_of F) = Some F"
    by (simp_all add: Number_of_small)
  from number_add_integer [OF this] False show ?thesis
    by simp
qed

lemma bignum_sum_Number_of:
  assumes "0 \<le> A" and "A < 2 ^ 53" and "0 \<le> F" and "F < 2 ^ 53"
  shows "bignum_toNumber (bignum_plus (bignum_of (Number_of A)) (bignum_of (Number_of F)))
         = Number_of (A + F)"
    and "bignum_lessThan (Big B 0) (bignum_plus (bignum_of (Number_of A)) (bignum_of (Number_of F)))
         \<longleftrightarrow> B < A + F"
proof -
  from assms have a: "is_double (Number_of A)" "integer_of (Number_of A) = Some A" "A < 2 ^ 54"
    and f: "is_double (Number_of F)" "integer_of (Number_of F) = Some F" "F < 2 ^ 54"
    by (simp_all add: Number_of_small)
  from bignum_sum_integer [OF a(1,2) assms(1) a(3) f(1,2) assms(3) f(3)]
  show "bignum_toNumber (bignum_plus (bignum_of (Number_of A)) (bignum_of (Number_of F)))
         = Number_of (A + F)"
    and "bignum_lessThan (Big B 0) (bignum_plus (bignum_of (Number_of A)) (bignum_of (Number_of F)))
         \<longleftrightarrow> B < A + F"
    by simp_all
qed

lemma amounts_agree:
  assumes "is_double x" and "integer_of x = Some A" and "0 \<le> A" and "A < 2 ^ 54"
    and "is_double y" and "integer_of y = Some F" and "0 \<le> F" and "F < 2 ^ 54"
  shows "bignum_toNumber (bignum_plus (bignum_of x) (bignum_of y)) = number_add x y
       \<or> (bignum_toNumber (bignum_plus (bignum_of x) (bignum_of y)) = Finite False 0 (- 1074)
          \<and> number_add x y = Finite True 0 (- 1074))"
proof -
  note s = bignum_sum_integer(1) [OF assms]
  from number_add_integer [OF assms(2) assms(6)] show ?thesis
  proof
    assume "number_add x y = Number_of (A + F)"
    with s show ?thesis by simp
  next
    assume "number_add x y = Finite True 0 (- 1074) \<and> A + F = 0"
    with s show ?thesis by simp
  qed
qed

lemma integer_of_zeros [simp]:
  "integer_of (Finite neg 0 e) = Some 0"
  by (simp add: integer_of_def is_integer_def truncated_def fraction_def with_sign_def)

subsection \<open>The account store\<close>

lemma merge_Inr:
  assumes "merge st a d = (Inr s1, st1)"
  shows "address s1 = a"
    and "accounts st1 a = s1"
    and "\<exists>v. integer_of (d_balance d) = Some v
             \<and> balance (accounts st1 a) = balance (accounts st a) + v"
    and "\<exists>v. integer_of (d_u_balance d) = Some v
             \<and> u_balance (accounts st1 a) = u_balance (accounts st a) + v"
    and "b \<noteq> a \<Longrightarrow> accounts st1 b = accounts st b"
  using assms by (auto simp: merge_def Let_def split: if_splits option.splits)

lemma merge_Inl:
  assumes "merge st a d = (Inl e, st1)"
  shows "accounts st1 = accounts st" and "e \<noteq> []"
  using assms by (auto simp: merge_def Let_def split: if_splits option.splits)

lemma merge_faults: "merge st a d = (r, st1) \<Longrightarrow> faults st1 = tl (faults st)"
  by (auto simp: merge_def Let_def split: if_splits option.splits)

lemma merge_passes:
  assumes "faults st = []"
    and "integer_of (d_balance d) = Some v" and "integer_of (d_u_balance d) = Some u"
  shows "\<exists>s1 st1. merge st a d = (Inr s1, st1)"
  using assms by (simp add: merge_def Let_def)


subsection \<open>Bytes\<close>

lemma le_bytes_numeral:
  "le_bytes (numeral k) v = (v mod 256) # le_bytes (pred_numeral k) (v div 256)"
proof -
  have "le_bytes (Suc (pred_numeral k)) v = (v mod 256) # le_bytes (pred_numeral k) (v div 256)"
    by simp
  then show ?thesis by (simp only: numeral_eq_Suc [of k, symmetric])
qed

lemma length_le_bytes [simp]: "length (le_bytes n v) = n"
  by (induction n arbitrary: v) simp_all

lemma length_be_bytes [simp]: "length (be_bytes n v) = n"
  by (simp add: be_bytes_def)

lemma upt_0_8: "[0..<8] = [0, 1, 2, 3, 4, 5, 6, 7::nat]"
  by code_simp

lemma first_8_of_8:
  assumes "length buf = 8"
  shows "map (byte_at buf) [0..<8] = buf"
proof (rule nth_equalityI)
  show "length (map (byte_at buf) [0..<8]) = length buf"
    using assms by simp
next
  fix i assume "i < length (map (byte_at buf) [0..<8])"
  then have "i < 8" by simp
  then show "map (byte_at buf) [0..<8] ! i = buf ! i"
    using assms by (simp add: byte_at_def del: upt_Suc)
qed

lemma reversed_first_8:
  assumes "8 \<le> length hash"
  shows "map (\<lambda>i. byte_at hash (7 - i)) [0..<8] = rev (take 8 hash)"
proof (rule nth_equalityI)
  show "length (map (\<lambda>i. byte_at hash (7 - i)) [0..<8]) = length (rev (take 8 hash))"
    using assms by simp
next
  fix i assume "i < length (map (\<lambda>i. byte_at hash (7 - i)) [0..<8])"
  then have i: "i < 8" by simp
  then have "rev (take 8 hash) ! i = hash ! (7 - i)"
    using assms by (simp add: rev_nth)
  moreover have "7 - i < length hash"
    using assms by arith
  then have "map (\<lambda>i. byte_at hash (7 - i)) [0..<8] ! i = hash ! (7 - i)"
    using i by (simp add: byte_at_def del: upt_Suc)
  ultimately show "map (\<lambda>i. byte_at hash (7 - i)) [0..<8] ! i = rev (take 8 hash) ! i"
    by simp
qed

lemma le_value_bound:
  "list_all (\<lambda>b. b < 256) bs \<Longrightarrow> le_value bs < 256 ^ length bs"
proof (induction bs)
  case Nil
  then show ?case by simp
next
  case (Cons b bs)
  then have "b < 256" and "le_value bs < 256 ^ length bs" by simp_all
  then have "b + 256 * le_value bs < 256 * (le_value bs + 1)"
    and "le_value bs + 1 \<le> 256 ^ length bs"
    by simp_all
  then have "b + 256 * le_value bs < 256 * 256 ^ length bs"
    by (meson less_le_trans mult_le_mono2)
  then show ?case by simp
qed

lemma recipient_field_ok:
  assumes "recipient_ok r"
  shows "recipient_field r = Inr (recipient_bytes r)"
proof (cases r)
  case None
  then show ?thesis by (simp add: recipient_field_def recipient_bytes_def)
next
  case (Some s)
  show ?thesis
  proof (cases "s = []")
    case True
    with Some show ?thesis by (simp add: recipient_field_def recipient_bytes_def)
  next
    case False
    with assms Some have d: "butlast s \<noteq> []" "list_all is_digit (butlast s)"
      and v: "decimal_value (butlast s) < 2 ^ 64"
      by (simp_all add: recipient_ok_def)
    from v have c: "chunks (decimal_value (butlast s)) = 1"
      by (simp add: chunks.simps)
    have "map (byte_at (be_bytes 8 (decimal_value (butlast s)))) [0..<8]
          = be_bytes 8 (decimal_value (butlast s))"
      by (rule first_8_of_8) simp
    with Some False d c show ?thesis
      by (simp add: recipient_field_def recipient_bytes_def bignum_toBuffer_def)
  qed
qed

lemma length_recipient_bytes [simp]: "length (recipient_bytes r) = 8"
  by (simp add: recipient_bytes_def split: option.splits)

lemma writeInt_twos32:
  assumes "- (2 ^ 31) \<le> v" and "v < 2 ^ 31"
  shows "writeInt v = le_bytes 4 (twos32 v)"
proof -
  have "v mod 2 ^ 32 = (if v < 0 then v + 2 ^ 32 else v)"
  proof (cases "v < 0")
    case True
    then have "(v + 2 ^ 32) mod 2 ^ 32 = v + 2 ^ 32"
      using assms by (intro mod_pos_pos_trivial) simp_all
    then show ?thesis using True by simp
  next
    case False
    then show ?thesis using assms by simp
  qed
  then show ?thesis by (simp add: writeInt_def twos32_def)
qed

lemma writeLong_amount:
  assumes "0 \<le> truncated x" and "truncated x < 2 ^ 63"
  shows "writeLong x = le_bytes 8 (nat (truncated x))"
proof -
  have "Long_fromNumber (truncated x) = truncated x"
    using assms by (simp add: Long_fromNumber_def)
  moreover have "truncated x mod 2 ^ 64 = truncated x"
    using assms by (intro mod_pos_pos_trivial) simp_all
  ultimately show ?thesis by (simp add: writeLong_def)
qed

lemma demo_amount [simp]: "truncated (Number_of 1000) = 1000"
  by (simp add: truncated_Number_of)

lemma demo_key_hex: "Buffer_hex demo_key = Inr demo_key_bytes"
  by (simp add: Buffer_hex_def demo_key_def demo_key_bytes_def hex_digit_def)

lemma demo_signature_hex: "Buffer_hex demo_signature = Inr demo_signature_bytes"
  by (simp add: Buffer_hex_def demo_signature_def demo_signature_bytes_def hex_digit_def)

lemma demo_recipient_ok: "recipient_ok (Some ''58191285901858109L'')"
  by (simp add: recipient_ok_def is_digit_def decimal_value_def)

text \<open>
  The bytes of a transaction with no requester, no asset bytes and no second
  signature, with or without its signature.
\<close>

lemma getBytes_plain:
  assumes "types env (type trs) = Some h"
    and "\<not> truthy (requesterPublicKey trs)"
    and "h_getBytes h trs skipSignature skipSecondSignature = Inr assetBytes"
    and "assetBytes = None \<or> assetBytes = Some []"
    and "type trs < 256"
    and "- (2 ^ 31) \<le> timestamp trs" and "timestamp trs < 2 ^ 31"
    and "Buffer_hex (senderPublicKey trs) = Inr pk"
    and "recipient_ok (recipientId trs)"
    and "0 \<le> truncated (amount trs)" and "truncated (amount trs) < 2 ^ 63"
    and "signature trs = Some s" and "Buffer_hex s = Inr sg" and "sg \<noteq> []"
    and "\<not> truthy (signSignature trs)"
  shows "getBytes env trs skipSignature skipSecondSignature
         = Inr (little_endian_bytes trs pk (if skipSignature then [] else sg))"
proof -
  have rq: "hex_if True (requesterPublicKey trs) = Inr []"
    using assms(2) by (simp add: hex_if_def truthy_def split: option.splits)
  have s2: "hex_if (\<not> skipSecondSignature) (signSignature trs) = Inr []"
    using assms(15) by (simp add: hex_if_def truthy_def split: option.splits)
  have "s \<noteq> []"
    using assms(13,14) by (auto simp: Buffer_hex_def)
  then have s1: "hex_if (\<not> skipSignature) (signature trs) = Inr (if skipSignature then [] else sg)"
    using assms(12,13) by (simp add: hex_if_def)
  have ab: "(case assetBytes of None \<Rightarrow> [] | Some b \<Rightarrow> concat (map (\<lambda>x. writeByte (int x)) b)) = []"
    using assms(4) by auto
  have ty: "writeByte (int (type trs)) = [type trs]"
    using assms(5) by (simp add: writeByte_def nat_mod_distrib)
  show ?thesis
    using assms(1) assms(3) assms(8)
    by (simp add: getBytes_def rq s1 s2 ab ty little_endian_bytes_def
        writeInt_twos32 [OF assms(6,7)] writeLong_amount [OF assms(10,11)]
        recipient_field_ok [OF assms(9)])
qed

lemma demo_getBytes:
  "getBytes demo_env demo_trs skipSignature skipSecondSignature
   = Inr (little_endian_bytes demo_trs demo_key_bytes
            (if skipSignature then [] else demo_signature_bytes))"
proof (rule getBytes_plain)
  show "types demo_env (type demo_trs) = Some demo_handler"
    by (simp add: demo_types_0 demo_trs_type)
  show "h_getBytes demo_handler demo_trs skipSignature skipSecondSignature = Inr None"
    by (simp add: demo_handler_def)
  show "Buffer_hex (senderPublicKey demo_trs) = Inr demo_key_bytes"
    by (simp add: demo_trs_def demo_key_hex)
  show "recipient_ok (recipientId demo_trs)"
    by (simp add: demo_trs_def demo_recipient_ok)
  show "signature demo_trs = Some demo_signature"
    by (simp add: demo_trs_def)
  show "Buffer_hex demo_signature = Inr demo_signature_bytes"
    by (rule demo_signature_hex)
  show "demo_signature_bytes \<noteq> []"
    by (simp add: demo_signature_bytes_def)
qed (simp_all add: demo_trs_def truthy_def)

subsection \<open>The canonical bytes\<close>

text \<open>
  C5, as amended. For a transaction of a registered type (a type below 256) with no
  requester public key, no asset bytes from the handler, a 32-byte sender public key,
  a 64-byte signature and no second signature, with a timestamp in the signed 32-bit
  range, an amount that is an integer from 0 below \<open>2^63\<close> and a recipient that is absent or a decimal
  number below \<open>2^64\<close> with one suffix character, \<^verbatim>\<open>getBytes\<close> with no skip flags
  returns exactly 117 bytes: the type byte, the timestamp in 4 bytes least significant
  byte first, the 32 bytes of the sender key, the recipient's number in 8 bytes most
  significant byte first (8 zero bytes without a recipient), the amount in 8 bytes
  least significant byte first, and the 64 bytes of the signature.
\<close>

theorem getBytes_layout:
  assumes "types env (type trs) = Some h"
    and "\<not> truthy (requesterPublicKey trs)"
    and "h_getBytes h trs False False = Inr assetBytes"
    and "assetBytes = None \<or> assetBytes = Some []"
    and "type trs < 256"
    and "- (2 ^ 31) \<le> timestamp trs" and "timestamp trs < 2 ^ 31"
    and "Buffer_hex (senderPublicKey trs) = Inr pk" and "length pk = 32"
    and "recipient_ok (recipientId trs)"
    and "integer_of (amount trs) = Some a" and "0 \<le> a" and "a < 2 ^ 63"
    and "signature trs = Some s" and "Buffer_hex s = Inr sg" and "length sg = 64"
    and "\<not> truthy (signSignature trs)"
  shows "getBytes env trs False False = Inr (little_endian_bytes trs pk sg)
       \<and> length (little_endian_bytes trs pk sg) = 117
       \<and> truncated (amount trs) = a"
proof -
  have "sg \<noteq> []"
    using assms(16) by auto
  have a: "truncated (amount trs) = a"
    using assms(11) by (simp add: integer_of_def split: if_splits)
  then have "0 \<le> truncated (amount trs)" and "truncated (amount trs) < 2 ^ 63"
    using assms(12,13) by simp_all
  from getBytes_plain [OF assms(1-8) assms(10) this assms(14,15) \<open>sg \<noteq> []\<close> assms(17)]
  have "getBytes env trs False False = Inr (little_endian_bytes trs pk sg)"
    by simp
  moreover have "length (little_endian_bytes trs pk sg) = 117"
    using assms(9) assms(16) by (simp add: little_endian_bytes_def)
  ultimately show ?thesis using a by simp
qed

theorem getBytes_layout_witness:
  "getBytes demo_env demo_trs False False
     = Inr (little_endian_bytes demo_trs demo_key_bytes demo_signature_bytes)
   \<and> length (little_endian_bytes demo_trs demo_key_bytes demo_signature_bytes) = 117
   \<and> little_endian_bytes demo_trs demo_key_bytes demo_signature_bytes
     = [0] @ [170, 41, 2, 0] @ demo_key_bytes @ [0, 206, 188, 170, 141, 52, 21, 61]
       @ [232, 3, 0, 0, 0, 0, 0, 0] @ demo_signature_bytes"
proof -
  have t: "types demo_env (type demo_trs) = Some demo_handler"
    by (simp add: demo_types_0 demo_trs_type)
  have r: "\<not> truthy (requesterPublicKey demo_trs)"
    by (simp add: demo_trs_def truthy_def)
  have a: "h_getBytes demo_handler demo_trs False False = Inr None"
    by (simp add: demo_handler_def)
  have e: "None = None \<or> None = Some ([] :: buffer)"
    by simp
  have ty: "type demo_trs < 256"
    by (simp add: demo_trs_def)
  have t1: "- (2 ^ 31) \<le> timestamp demo_trs" and t2: "timestamp demo_trs < 2 ^ 31"
    by (simp_all add: demo_trs_def)
  have k: "Buffer_hex (senderPublicKey demo_trs) = Inr demo_key_bytes"
    by (simp add: demo_trs_def demo_key_hex)
  have kl: "length demo_key_bytes = 32"
    by (simp add: demo_key_bytes_def)
  have rc: "recipient_ok (recipientId demo_trs)"
    by (simp add: demo_trs_def demo_recipient_ok)
  have a0: "integer_of (amount demo_trs) = Some 1000"
    by (simp add: demo_trs_def Number_of_small)
  have a1: "0 \<le> (1000::int)" and a2: "(1000::int) < 2 ^ 63"
    by simp_all
  have s: "signature demo_trs = Some demo_signature"
    by (simp add: demo_trs_def)
  have sl: "length demo_signature_bytes = 64"
    by (simp add: demo_signature_bytes_def)
  have s2: "\<not> truthy (signSignature demo_trs)"
    by (simp add: demo_trs_def truthy_def)
  have l: "little_endian_bytes demo_trs demo_key_bytes demo_signature_bytes
     = [0] @ [170, 41, 2, 0] @ demo_key_bytes @ [0, 206, 188, 170, 141, 52, 21, 61]
       @ [232, 3, 0, 0, 0, 0, 0, 0] @ demo_signature_bytes"
    by (simp add: little_endian_bytes_def demo_trs_def twos32_def le_bytes_numeral
        recipient_bytes_def decimal_value_def be_bytes_def)
  show ?thesis
    using getBytes_layout [OF t r a e ty t1 t2 k kl rc a0 a1 a2 s demo_signature_hex sl s2] l
    by simp
qed

text \<open>
  The claim as the specification words it asks for a big-endian timestamp and
  amount. For the transfer of scenario 1 of the specification (timestamp 141738,
  amount 1000) the bytes of \<^verbatim>\<open>getBytes\<close> are not those: the timestamp is written
  as \<open>170, 41, 2, 0\<close> and not as \<open>0, 2, 41, 170\<close>.
\<close>

theorem getBytes_not_big_endian:
  "types demo_env (type demo_trs) = Some demo_handler
   \<and> requesterPublicKey demo_trs = None
   \<and> h_getBytes demo_handler demo_trs False False = Inr None
   \<and> signSignature demo_trs = None
   \<and> Buffer_hex (senderPublicKey demo_trs) = Inr demo_key_bytes
   \<and> signature demo_trs = Some demo_signature
   \<and> Buffer_hex demo_signature = Inr demo_signature_bytes
   \<and> length demo_signature_bytes = 64
   \<and> getBytes demo_env demo_trs False False
       \<noteq> Inr (spec_to_bytes demo_trs demo_key_bytes demo_signature_bytes)
   \<and> take 4 (drop 1 (spec_to_bytes demo_trs demo_key_bytes demo_signature_bytes)) = [0, 2, 41, 170]
   \<and> getBytes demo_env demo_trs False False
       = Inr ([0] @ [170, 41, 2, 0] @ demo_key_bytes @ [0, 206, 188, 170, 141, 52, 21, 61]
              @ [232, 3, 0, 0, 0, 0, 0, 0] @ demo_signature_bytes)"
proof -
  have l: "little_endian_bytes demo_trs demo_key_bytes demo_signature_bytes
     = [0] @ [170, 41, 2, 0] @ demo_key_bytes @ [0, 206, 188, 170, 141, 52, 21, 61]
       @ [232, 3, 0, 0, 0, 0, 0, 0] @ demo_signature_bytes"
    by (simp add: little_endian_bytes_def demo_trs_def twos32_def le_bytes_numeral
        recipient_bytes_def decimal_value_def be_bytes_def)
  have b: "spec_to_bytes demo_trs demo_key_bytes demo_signature_bytes
     = [0] @ [0, 2, 41, 170] @ demo_key_bytes @ [0, 206, 188, 170, 141, 52, 21, 61]
       @ [0, 0, 0, 0, 0, 0, 3, 232] @ demo_signature_bytes"
    by (simp add: spec_to_bytes_def demo_trs_def twos32_def le_bytes_numeral
        recipient_bytes_def decimal_value_def be_bytes_def)
  have g: "getBytes demo_env demo_trs False False
           = Inr (little_endian_bytes demo_trs demo_key_bytes demo_signature_bytes)"
    using demo_getBytes [of False False] by simp
  have d: "getBytes demo_env demo_trs False False
           \<noteq> Inr (spec_to_bytes demo_trs demo_key_bytes demo_signature_bytes)"
    by (simp add: g l b)
  have f: "take 4 (drop 1 (spec_to_bytes demo_trs demo_key_bytes demo_signature_bytes)) = [0, 2, 41, 170]"
    by (simp add: b)
  show ?thesis
    using d f g l
    by (simp add: demo_types_0 demo_trs_type demo_trs_def demo_handler_def demo_key_hex
        demo_signature_hex demo_signature_bytes_def)
qed

subsection \<open>The identifier\<close>

text \<open>
  C6. When \<^verbatim>\<open>getBytes(trs)\<close> succeeds (so the type is registered) and the digest
  has its 32 bytes, \<^verbatim>\<open>getId\<close> returns the decimal digits of the unsigned 64-bit
  integer got from bytes 0 to 7 of SHA-256 of those bytes by reversing them and
  reading the reversed bytes as a little-endian integer.
\<close>

theorem getId_formula:
  assumes "getBytes env trs False False = Inr bytes"
    and "length (sha256 env bytes) = 32"
    and "list_all (\<lambda>b. b < 256) (sha256 env bytes)"
  shows "getId env trs = Inr (dec_digits (le_value (rev (take 8 (sha256 env bytes)))))
       \<and> le_value (rev (take 8 (sha256 env bytes))) < 2 ^ 64"
proof -
  have r: "map (\<lambda>i. byte_at (sha256 env bytes) (7 - i)) [0..<8] = rev (take 8 (sha256 env bytes))"
    using assms(2) by (simp add: reversed_first_8)
  have "list_all (\<lambda>b. b < 256) (rev (take 8 (sha256 env bytes)))"
    using assms(3) by (auto simp: list_all_iff dest: in_set_takeD)
  from le_value_bound [OF this] have "le_value (rev (take 8 (sha256 env bytes))) < 256 ^ 8"
    using assms(2) by simp
  then show ?thesis
    using assms(1) r by (simp add: getId_def getHash_def bignum_fromBuffer_def Let_def)
qed

lemma demo_hash:
  "sha256 demo_env (little_endian_bytes demo_trs demo_key_bytes demo_signature_bytes)
   = [0, 170, 41, 2, 0, 192, 148, 235, 238, 126, 192, 197, 14, 190, 227, 41, 24, 101, 94, 8,
      159, 110, 26, 96, 75, 131, 188, 170, 118, 2, 147, 198]"
  by (simp add: demo_env_def little_endian_bytes_def demo_trs_def demo_key_bytes_def
      twos32_def le_bytes_numeral)

theorem getId_formula_witness:
  "getBytes demo_env demo_trs False False
     = Inr (little_endian_bytes demo_trs demo_key_bytes demo_signature_bytes)
   \<and> length (sha256 demo_env (little_endian_bytes demo_trs demo_key_bytes demo_signature_bytes)) = 32
   \<and> rev (take 8 (sha256 demo_env (little_endian_bytes demo_trs demo_key_bytes demo_signature_bytes)))
       = [235, 148, 192, 0, 2, 41, 170, 0]
   \<and> le_value [235, 148, 192, 0, 2, 41, 170, 0] = 47895834620105963
   \<and> getId demo_env demo_trs = Inr ''47895834620105963''"
proof -
  have g: "getBytes demo_env demo_trs False False
           = Inr (little_endian_bytes demo_trs demo_key_bytes demo_signature_bytes)"
    using demo_getBytes [of False False] by simp
  have l: "length (sha256 demo_env (little_endian_bytes demo_trs demo_key_bytes demo_signature_bytes)) = 32"
    by (simp add: demo_hash)
  have a: "list_all (\<lambda>b. b < 256)
             (sha256 demo_env (little_endian_bytes demo_trs demo_key_bytes demo_signature_bytes))"
    by (simp add: demo_hash)
  have r: "rev (take 8 (sha256 demo_env (little_endian_bytes demo_trs demo_key_bytes demo_signature_bytes)))
       = [235, 148, 192, 0, 2, 41, 170, 0]"
    by (simp add: demo_hash)
  have v: "le_value [235, 148, 192, 0, 2, 41, 170, 0] = 47895834620105963"
    by simp
  have d: "dec_digits 47895834620105963 = ''47895834620105963''"
    by (simp add: dec_digits.simps digit_char_values)
  show ?thesis
    using getId_formula [OF g l a] g l r v by (simp add: d)
qed


subsection \<open>The amounts of the instance\<close>

lemma demo_amounts:
  "bignum_toNumber (bignum_plus (bignum_of (Number_of 1000)) (bignum_of (Number_of 10)))
   = Number_of 1010"
  "bignum_lessThan (Big B 0) (bignum_plus (bignum_of (Number_of 1000)) (bignum_of (Number_of 10)))
   \<longleftrightarrow> B < 1010"
  "number_add (Number_of 1000) (Number_of 10) = Number_of 1010"
  "integer_of (Number_of 1010) = Some 1010"
  "integer_of (negate (Number_of 1010)) = Some (- 1010)"
  using bignum_sum_Number_of(1) [of 1000 10] bignum_sum_Number_of(2) [of 1000 10 B]
    number_add_Number_of [of 1000 10]
  by (simp_all add: Number_of_small integer_of_negate)

subsection \<open>The paths through apply and undo\<close>

lemma apply_trs_success:
  assumes "types env (type trs) = Some h"
    and "h_ready h trs s"
    and "blockId trs = Some (genesis_id env)
         \<or> \<not> bignum_lessThan (Big (balance s) 0) (exact_amount trs)"
    and "merge st (address s) (confirmed_delta env blk (negate (bignum_toNumber (exact_amount trs))))
         = (Inr s1, st1)"
    and "h_apply h trs blk s1 st1 = (err, st2)"
    and "\<not> truthy err"
  shows "apply_trs env trs blk (Some s) st = (None, st2)"
  using assms by (auto simp: apply_trs_def ready_def Let_def)

lemma apply_trs_handler_failure:
  assumes "types env (type trs) = Some h"
    and "h_ready h trs s"
    and "blockId trs = Some (genesis_id env)
         \<or> \<not> bignum_lessThan (Big (balance s) 0) (exact_amount trs)"
    and "merge st (address s) (confirmed_delta env blk (negate (bignum_toNumber (exact_amount trs))))
         = (Inr s1, st1)"
    and "h_apply h trs blk s1 st1 = (err, st2)"
    and "truthy err"
    and "merge st2 (address s) (confirmed_delta env blk (bignum_toNumber (exact_amount trs)))
         = (Inr s3, st3)"
  shows "apply_trs env trs blk (Some s) st = (None, st3)"
  using assms merge_Inr(1) [OF assms(4)] by (auto simp: apply_trs_def ready_def Let_def)

lemma undo_trs_success:
  assumes "types env (type trs) = Some h"
    and "merge st (address s) (confirmed_delta env blk (number_amount trs)) = (Inr s1, st1)"
    and "h_undo h trs blk s1 st1 = (err, st2)"
    and "\<not> truthy err"
  shows "undo_trs env trs blk s st = (None, st2)"
  using assms by (auto simp: undo_trs_def Let_def)

lemma undo_trs_handler_failure:
  assumes "types env (type trs) = Some h"
    and "merge st (address s) (confirmed_delta env blk (number_amount trs)) = (Inr s1, st1)"
    and "h_undo h trs blk s1 st1 = (err, st2)"
    and "truthy err"
    and "merge st2 (address s) (confirmed_delta env blk (number_amount trs)) = (Inr s3, st3)"
  shows "undo_trs env trs blk s st = (None, st3)"
  using assms merge_Inr(1) [OF assms(2)] by (auto simp: undo_trs_def Let_def)

subsection \<open>A handler error inside apply\<close>

text \<open>
  C1. The claim: when the debit merge of \<^verbatim>\<open>apply\<close> succeeds and the handler's
  \<^verbatim>\<open>apply\<close> then reports an error, \<^verbatim>\<open>apply\<close> credits amount plus fee back and
  completes with the handler's error. The source does the first and not the second.
  At the input below the handler of type 1 reports "handler failed" after the debit of
  1010; \<^verbatim>\<open>apply\<close> credits the 1010 back, so the sender's balance is what it was,
  and then completes with no error at all: the caller takes the transaction for
  applied.
\<close>

theorem apply_loses_handler_error:
  "fst (h_apply failing_handler (demo_trs\<lparr>type := 1\<rparr>) demo_block demo_sender demo_store)
     = Some ''handler failed''
   \<and> fst (apply_trs demo_env (demo_trs\<lparr>type := 1\<rparr>) demo_block (Some demo_sender) demo_store) = None
   \<and> balance (accounts (snd (apply_trs demo_env (demo_trs\<lparr>type := 1\<rparr>) demo_block
                               (Some demo_sender) demo_store)) (address demo_sender))
       = balance (accounts demo_store (address demo_sender))"
  by (simp add: apply_trs_def ready_def merge_def confirmed_delta_def truthy_def
      exact_amount_def demo_amounts demo_defs Let_def)

subsection \<open>A handler error inside undo\<close>

text \<open>
  C2. The claim: when the credit merge of \<^verbatim>\<open>undo\<close> succeeds and the handler's
  \<^verbatim>\<open>undo\<close> then reports an error, the balance ends at its value before the call.
  The source merges \<^verbatim>\<open>balance: amount\<close> once more where the reversal needs
  \<^verbatim>\<open>balance: -amount\<close>. At the input below amount plus fee is 1010 and the
  sender's balance is 5000; the handler of type 1 reports "handler failed";
  \<^verbatim>\<open>undo\<close> completes with no error and leaves the balance at 7020, twice the
  credit above its value before the call.
\<close>

theorem undo_credits_twice:
  "fst (h_undo failing_handler (demo_trs\<lparr>type := 1\<rparr>) demo_block demo_sender demo_store)
     = Some ''handler failed''
   \<and> number_amount (demo_trs\<lparr>type := 1\<rparr>) = Number_of 1010
   \<and> balance (accounts demo_store (address demo_sender)) = 5000
   \<and> fst (undo_trs demo_env (demo_trs\<lparr>type := 1\<rparr>) demo_block demo_sender demo_store) = None
   \<and> balance (accounts (snd (undo_trs demo_env (demo_trs\<lparr>type := 1\<rparr>) demo_block
                               demo_sender demo_store)) (address demo_sender)) = 7020"
  by (simp add: undo_trs_def merge_def confirmed_delta_def truthy_def
      number_amount_def demo_amounts demo_defs Let_def)

subsection \<open>apply followed by undo\<close>

text \<open>
  The amounts of the transfer \<open>large_trs\<close>. The text of \<open>2 ^ 60\<close> is
  \<^verbatim>\<open>1152921504606847000\<close>, 24 above the number; with the fee of 105 the exact sum
  of the two texts is 129 above \<open>2 ^ 60\<close>, past the middle of the 256 between two
  numbers of that size, and rounds to \<open>2 ^ 60 + 256\<close>. The sum of the two numbers is
  105 above \<open>2 ^ 60\<close> and rounds to \<open>2 ^ 60\<close>.
\<close>

lemmas number_eval = Number_of_def round_fraction_def floor_log2_def log_up.simps log_down.simps
  round_half_even_def Let_def

lemma large_numbers:
  "Number_of 1152921504606846976 = Finite False 4503599627370496 8"
  "Number_of 105 = Finite False 7388718138654720 (- 46)"
  "Number_of 2305843009213693952 = Finite False 4503599627370496 9"
  by (simp_all add: number_eval)

lemma large_texts:
  "decimal_of 4503599627370496 8 = (1152921504606847, 3)"
  "decimal_of 7388718138654720 (- 46) = (105, 0)"
  by (simp_all add: decimal_of_def shortest.simps magnitude_def mag_up.simps mag_down.simps
      fraction_def low_digits_def decimal_def nearer_high_def number_eval)

lemma large_exact: "exact_amount large_trs = Big 1152921504606847105 0"
  by (simp add: exact_amount_def large_trs_def large_numbers bignum_of_def large_texts with_sign_def)

lemma large_debit:
  "bignum_toNumber (exact_amount large_trs) = Finite False 4503599627370497 8"
  "bignum_lessThan (Big B 0) (exact_amount large_trs) \<longleftrightarrow> B < 1152921504606847105"
  by (simp_all add: large_exact decimal_def round_fraction_def floor_log2_def log_up.simps
      round_half_even_def Let_def)

lemma large_credit: "number_amount large_trs = Finite False 4503599627370496 8"
  by (simp add: number_amount_def large_trs_def large_numbers fraction_def with_sign_def
      round_fraction_def floor_log2_def log_up.simps round_half_even_def Let_def)

lemma large_integers:
  "integer_of (Finite False 4503599627370496 8) = Some 1152921504606846976"
  "integer_of (Finite True 4503599627370497 8) = Some (- 1152921504606847232)"
  "integer_of (Finite False 7388718138654720 (- 46)) = Some 105"
  "integer_of (Finite False 4503599627370496 9) = Some 2305843009213693952"
  by (simp_all add: integer_of_def is_integer_def truncated_def fraction_def with_sign_def)

text \<open>
  C3. The claim: for every amount and fee in \<open>[0, TOTAL_SUPPLY]\<close>, \<^verbatim>\<open>apply\<close> followed
  by \<^verbatim>\<open>undo\<close>, with handlers that succeed and undo each other, restores the
  sender's balance, since the debit of \<^verbatim>\<open>apply\<close> equals the credit of \<^verbatim>\<open>undo\<close>.
  The total supply is a constant of the chain, bounded by \<open>2 ^ 64\<close> only, and the claim
  fails on a chain whose supply is \<open>2 ^ 61\<close>: for the amount \<open>2 ^ 60\<close> and the fee 105
  \<^verbatim>\<open>apply\<close> debits \<open>2 ^ 60 + 256\<close> and \<^verbatim>\<open>undo\<close> credits \<open>2 ^ 60\<close>. Both complete
  without an error, the handler changes nothing, and the sender's balance ends
  256 below its value before \<^verbatim>\<open>apply\<close>.
\<close>

theorem apply_undo_differ_on_large_amount:
  "integer_of (totalAmount large_env) = Some (2 ^ 61)
   \<and> integer_of (amount large_trs) = Some (2 ^ 60)
   \<and> integer_of (fee large_trs) = Some 105
   \<and> balance (accounts large_store (address large_sender)) = 2 ^ 61
   \<and> fst (apply_trs large_env large_trs demo_block (Some large_sender) large_store) = None
   \<and> balance (accounts (snd (apply_trs large_env large_trs demo_block (Some large_sender)
                               large_store)) (address large_sender))
       = 2 ^ 61 - (2 ^ 60 + 256)
   \<and> fst (undo_trs large_env large_trs demo_block large_sender
            (snd (apply_trs large_env large_trs demo_block (Some large_sender) large_store))) = None
   \<and> balance (accounts (snd (undo_trs large_env large_trs demo_block large_sender
            (snd (apply_trs large_env large_trs demo_block (Some large_sender) large_store))))
         (address large_sender))
       = 2 ^ 61 - 256"
proof -
  have t: "types large_env (type large_trs) = Some demo_handler"
    by (simp add: large_env_def large_trs_def demo_env_def demo_trs_def)
  have a: "apply_trs large_env large_trs demo_block (Some large_sender) large_store
           = (None, large_store\<lparr>accounts := (accounts large_store)
                (address large_sender := large_sender\<lparr>balance := 1152921504606846720\<rparr>)\<rparr>)"
    by (simp add: apply_trs_def t ready_def merge_def confirmed_delta_def truthy_def
        large_debit large_integers demo_handler_def large_store_def large_sender_def
        demo_sender_def Let_def)
  have u: "undo_trs large_env large_trs demo_block large_sender
             (large_store\<lparr>accounts := (accounts large_store)
                (address large_sender := large_sender\<lparr>balance := 1152921504606846720\<rparr>)\<rparr>)
           = (None, large_store\<lparr>accounts := (accounts large_store)
                (address large_sender := large_sender\<lparr>balance := 2305843009213693696\<rparr>)\<rparr>)"
    by (simp add: undo_trs_def t merge_def confirmed_delta_def truthy_def
        large_credit large_integers demo_handler_def large_store_def large_sender_def
        demo_sender_def Let_def)
  have i: "integer_of (totalAmount large_env) = Some (2 ^ 61)"
    "integer_of (amount large_trs) = Some (2 ^ 60)"
    "integer_of (fee large_trs) = Some 105"
    "balance (accounts large_store (address large_sender)) = 2 ^ 61"
    by (simp_all add: large_env_def large_trs_def large_numbers large_integers large_store_def
        large_sender_def)
  show ?thesis
    by (simp add: i a u)
qed

text \<open>
  C3, amended. The text of an integer below \<open>2 ^ 54\<close> shows the integer itself. For an
  amount and a fee that are integers in \<open>[0, 2 ^ 54)\<close>, which are all the amounts and
  fees in \<open>[0, TOTAL_SUPPLY]\<close> on a chain whose supply is below \<open>2 ^ 54\<close>, the debit of
  \<^verbatim>\<open>apply\<close> and the credit of \<^verbatim>\<open>undo\<close> are equal. Let \<^verbatim>\<open>apply\<close> run with its
  checks passed, its debit merge succeeding and the handler's \<^verbatim>\<open>apply\<close> succeeding,
  and let \<^verbatim>\<open>undo\<close> then run with its credit merge and the handler's \<^verbatim>\<open>undo\<close>
  succeeding. If what the two handler calls do to the sender's balance cancels out,
  the sender's balance after \<^verbatim>\<open>undo\<close> is its value before \<^verbatim>\<open>apply\<close>.
\<close>

theorem apply_undo_restores_balance:
  assumes "types env (type trs) = Some h"
    and "h_ready h trs s"
    and "is_double (amount trs)" and "integer_of (amount trs) = Some a"
    and "0 \<le> a" and "a < 2 ^ 54"
    and "is_double (fee trs)" and "integer_of (fee trs) = Some f"
    and "0 \<le> f" and "f < 2 ^ 54"
    and "blockId trs = Some (genesis_id env) \<or> a + f \<le> balance s"
    and "merge st (address s) (confirmed_delta env blk (negate (bignum_toNumber (exact_amount trs))))
         = (Inr s1, st1)"
    and "h_apply h trs blk s1 st1 = (err, st2)" and "\<not> truthy err"
    and "merge st2 (address s) (confirmed_delta env blk (number_amount trs)) = (Inr s3, st3)"
    and "h_undo h trs blk s3 st3 = (err', st4)" and "\<not> truthy err'"
    and "(balance (accounts st2 (address s)) - balance (accounts st1 (address s)))
         + (balance (accounts st4 (address s)) - balance (accounts st3 (address s))) = 0"
  shows "apply_trs env trs blk (Some s) st = (None, st2)
       \<and> undo_trs env trs blk s st2 = (None, st4)
       \<and> strict_equals (bignum_toNumber (exact_amount trs)) (number_amount trs)
       \<and> balance (accounts st4 (address s)) = balance (accounts st (address s))"
proof -
  note sum = bignum_sum_integer [OF assms(3-10)]
  have "blockId trs = Some (genesis_id env)
        \<or> \<not> bignum_lessThan (Big (balance s) 0) (exact_amount trs)"
    using assms(11) by (auto simp: exact_amount_def sum(2))
  with assms(1,2) have a: "apply_trs env trs blk (Some s) st = (None, st2)"
    using assms(12-14) by (rule apply_trs_success)
  have u: "undo_trs env trs blk s st2 = (None, st4)"
    using assms(1) assms(15-17) by (rule undo_trs_success)
  from merge_Inr(3) [OF assms(15)] obtain v where
    v: "integer_of (number_amount trs) = Some v"
    and b3: "balance (accounts st3 (address s)) = balance (accounts st2 (address s)) + v"
    by (auto simp: confirmed_delta_def)
  from amounts_agree [OF assms(3-10)] v
  have d: "integer_of (bignum_toNumber (exact_amount trs)) = Some v"
    by (auto simp: exact_amount_def number_amount_def)
  from merge_Inr(3) [OF assms(12)]
  have b1: "balance (accounts st1 (address s)) = balance (accounts st (address s)) - v"
    by (auto simp: confirmed_delta_def integer_of_negate d)
  from d v have "strict_equals (bignum_toNumber (exact_amount trs)) (number_amount trs)"
    by (simp add: strict_equals_integer)
  with a u b1 b3 assms(18) show ?thesis
    by simp
qed

theorem apply_undo_restores_balance_witness:
  "integer_of (totalAmount demo_env) = Some 10000000000000000
   \<and> integer_of (amount demo_trs) = Some 1000 \<and> integer_of (fee demo_trs) = Some 10
   \<and> fst (apply_trs demo_env demo_trs demo_block (Some demo_sender) demo_store) = None
   \<and> fst (undo_trs demo_env demo_trs demo_block demo_sender
            (snd (apply_trs demo_env demo_trs demo_block (Some demo_sender) demo_store))) = None
   \<and> strict_equals (bignum_toNumber (exact_amount demo_trs)) (number_amount demo_trs)
   \<and> balance (accounts (snd (undo_trs demo_env demo_trs demo_block demo_sender
            (snd (apply_trs demo_env demo_trs demo_block (Some demo_sender) demo_store))))
         (address demo_sender))
       = balance (accounts demo_store (address demo_sender))"
proof -
  have t: "types demo_env (type demo_trs) = Some demo_handler"
    by (simp add: demo_types_0 demo_trs_type)
  have r: "h_ready demo_handler demo_trs demo_sender"
    by (simp add: demo_handler_def)
  have T: "integer_of (totalAmount demo_env) = Some 10000000000000000"
    by (simp add: demo_env_def Number_of_even)
  have a: "is_double (amount demo_trs)" "integer_of (amount demo_trs) = Some 1000"
    and f: "is_double (fee demo_trs)" "integer_of (fee demo_trs) = Some 10"
    by (simp_all add: demo_trs_def Number_of_small)
  have b: "blockId demo_trs = Some (genesis_id demo_env) \<or> 1000 + 10 \<le> balance demo_sender"
    by (simp add: demo_sender_def)
  have i: "integer_of (negate (bignum_toNumber (exact_amount demo_trs))) = Some (- 1010)"
    "integer_of (number_amount demo_trs) = Some 1010"
    by (simp_all add: exact_amount_def number_amount_def demo_trs_def demo_amounts)
  obtain s1 st1 where m1:
    "merge demo_store (address demo_sender)
       (confirmed_delta demo_env demo_block (negate (bignum_toNumber (exact_amount demo_trs))))
     = (Inr s1, st1)"
  proof -
    have "\<exists>s1 st1. merge demo_store (address demo_sender)
            (confirmed_delta demo_env demo_block (negate (bignum_toNumber (exact_amount demo_trs))))
          = (Inr s1, st1)"
      by (rule merge_passes) (simp_all add: demo_store_def confirmed_delta_def i)
    then show ?thesis
      using that by blast
  qed
  have f1: "faults st1 = []"
    using merge_faults [OF m1] by (simp add: demo_store_def)
  have h1: "h_apply demo_handler demo_trs demo_block s1 st1 = (None, st1)"
    by (simp add: demo_handler_def)
  obtain s3 st3 where m3:
    "merge st1 (address demo_sender)
       (confirmed_delta demo_env demo_block (number_amount demo_trs))
     = (Inr s3, st3)"
  proof -
    have "\<exists>s3 st3. merge st1 (address demo_sender)
            (confirmed_delta demo_env demo_block (number_amount demo_trs)) = (Inr s3, st3)"
      by (rule merge_passes) (simp_all add: f1 confirmed_delta_def i)
    then show ?thesis
      using that by blast
  qed
  have h3: "h_undo demo_handler demo_trs demo_block s3 st3 = (None, st3)"
    by (simp add: demo_handler_def)
  have n: "\<not> truthy None"
    by (simp add: truthy_def)
  have c: "(balance (accounts st1 (address demo_sender)) - balance (accounts st1 (address demo_sender)))
         + (balance (accounts st3 (address demo_sender)) - balance (accounts st3 (address demo_sender))) = 0"
    by simp
  show ?thesis
    using apply_undo_restores_balance [OF t r a(1) a(2) _ _ f(1) f(2) _ _ b m1 h1 n m3 h3 n c] T a(2) f(2)
    by simp
qed


subsection \<open>The order of the checks in verify\<close>

lemma first_error_Cons:
  "first_error (c # cs) = (case c of None \<Rightarrow> first_error cs | Some e \<Rightarrow> Some e)"
  by (cases c) simp_all

lemma verify_Some:
  assumes "types env (type trs) = Some h"
  shows "verify env trs (Some s) requester =
     (case identity_checks env trs s requester of
        Some e \<Rightarrow> (Some e, Some s)
      | None \<Rightarrow>
          (first_error
             [check_multisignatures env trs (snd (add_sender trs s)),
              check_fee h trs (fst (add_sender trs s)),
              check_amount env trs,
              check_timestamp env trs,
              map_option Handler_error (h_verify h trs (fst (add_sender trs s)))],
           Some (fst (add_sender trs s))))"
  using assms by (simp add: verify_def split: option.splits prod.splits)

lemma identity_checks_error:
  "identity_checks env trs s requester = Some e \<Longrightarrow> early_error e"
  by (auto simp: identity_checks_def first_error_Cons check_sender_publicKey_def
      check_sender_address_def check_requester_def check_signature_def
      check_second_signature_def check_unique_signatures_def
      split: option.splits if_splits sum.splits)

lemma verify_signatures_error:
  "verify_signatures env trs ms sgs = Some e \<Longrightarrow> early_error e"
  by (induction sgs) (auto split: sum.splits if_splits)

lemma check_multisignatures_error:
  "check_multisignatures env trs ms = Some e \<Longrightarrow> early_error e"
  by (auto simp: check_multisignatures_def split: option.splits dest: verify_signatures_error)


lemma verify_fee_iff:
  assumes "types env (type trs) = Some h"
  shows "fst (verify env trs (Some s) requester) = Some Invalid_transaction_fee
     \<longleftrightarrow> (passes_before_fee env trs s requester
          \<and> (falsy (h_calculateFee h trs (fst (add_sender trs s)))
               \<or> \<not> strict_equals (fee trs) (h_calculateFee h trs (fst (add_sender trs s)))))"
proof (cases "identity_checks env trs s requester")
  case (Some e)
  then have "early_error e" by (rule identity_checks_error)
  then have "e \<noteq> Invalid_transaction_fee" by auto
  with Some show ?thesis
    by (simp add: verify_Some [OF assms] passes_before_fee_def)
next
  case None
  show ?thesis
  proof (cases "check_multisignatures env trs (snd (add_sender trs s))")
    case (Some e)
    then have "early_error e" by (rule check_multisignatures_error)
    then have "e \<noteq> Invalid_transaction_fee" by auto
    with None Some show ?thesis
      by (simp add: verify_Some [OF assms] passes_before_fee_def)
  next
    case Nm: None
    with None show ?thesis
      by (auto simp: verify_Some [OF assms] passes_before_fee_def check_fee_def Let_def
          first_error_Cons check_amount_def check_timestamp_def
          split: option.splits if_splits)
  qed
qed


subsection \<open>The condition of the amount check\<close>

text \<open>
  For an amount that is an integer the condition says that the integer is below 0 or
  above the total supply: the text of an integer in that range has neither a point nor
  an exponent. An infinite amount and an amount with a fraction meet the condition.
\<close>

lemma amount_condition_integer:
  assumes "is_double x" and "integer_of x = Some a"
    and "integer_of supply = Some T" and "T < 2 ^ 64"
  shows "number_less x (Number_of 0) \<or> number_less supply x
         \<or> CHR ''.'' \<in> set (Number_toString x) \<or> CHR ''e'' \<in> set (Number_toString x)
     \<longleftrightarrow> a < 0 \<or> T < a"
proof -
  have z: "integer_of (Number_of 0) = Some 0"
    by simp
  have l: "number_less x (Number_of 0) \<longleftrightarrow> a < 0"
    using assms(2) z by (rule number_less_integer)
  have g: "number_less supply x \<longleftrightarrow> T < a"
    using assms(3) assms(2) by (rule number_less_integer)
  show ?thesis
  proof (cases "a < 0 \<or> T < a")
    case True
    with l g show ?thesis by blast
  next
    case False
    from assms(2) obtain neg m e X q where
      x: "x = Finite neg m e" "0 < q" "fraction m e = (X * q, q)" "a = with_sign neg X"
      by (rule integer_of_SomeE)
    from False x(4) have "int X \<le> T"
      by (simp add: with_sign_def split: if_splits)
    with assms(4) have "int X < 18446744073709551616"
      by simp
    then have "X < 18446744073709551616"
      by linarith
    then have "X < 10 ^ 20"
      by simp
    from Number_toString_integer [OF assms(1) [unfolded x(1)] x(3) x(2) this] False l g
    show ?thesis
      by (simp add: x(1))
  qed
qed


subsection \<open>verify on the instance\<close>

lemma cosigner_key_hex: "Buffer_hex cosigner_key = Inr cosigner_key_bytes"
  by (simp add: Buffer_hex_def cosigner_key_def cosigner_key_bytes_def hex_digit_def)

lemma demo_signature_nonempty: "demo_signature \<noteq> []"
  by (simp add: demo_signature_def)

lemma cosigner_key_nonempty: "cosigner_key \<noteq> []"
  by (simp add: cosigner_key_def)

lemma demo_types_handler:
  assumes "t < 3"
  shows "\<exists>h. types demo_env t = Some h
           \<and> h_getBytes h = (\<lambda>trs skipSignature skipSecondSignature. Inr None)
           \<and> h_verify h = (\<lambda>trs sender. None)"
proof -
  from assms have "t = 0 \<or> t = 1 \<or> t = 2" by arith
  then show ?thesis
    by (auto simp: demo_env_def demo_handler_def failing_handler_def free_handler_def)
qed

text \<open>
  The checks before the fee check pass for every type, amount and fee put into the
  transfer of the instance, on a chain with any total supply: the signature check of
  the instance accepts every signature.
\<close>

lemma demo_variant_getBytes:
  assumes "t < 3"
  shows "\<exists>bytes. getBytes (demo_env\<lparr>totalAmount := T\<rparr>)
                    (demo_trs\<lparr>type := t, amount := a, fee := f\<rparr>) True True = Inr bytes"
proof -
  from demo_types_handler [OF assms] obtain h where
    h: "types demo_env t = Some h"
       "h_getBytes h = (\<lambda>trs skipSignature skipSecondSignature. Inr None)"
    by blast
  then show ?thesis
    by (simp add: getBytes_def demo_trs_def demo_key_hex hex_if_def
        recipient_field_ok [OF demo_recipient_ok])
qed

lemma demo_variant_passes:
  assumes "t < 3"
  shows "passes_before_fee (demo_env\<lparr>totalAmount := T\<rparr>)
           (demo_trs\<lparr>type := t, amount := a, fee := f\<rparr>) demo_sender None"
proof -
  let ?env = "demo_env\<lparr>totalAmount := T\<rparr>"
  let ?trs = "demo_trs\<lparr>type := t, amount := a, fee := f\<rparr>"
  from demo_types_handler [OF assms] obtain h where
    h: "types demo_env t = Some h" by blast
  from demo_variant_getBytes [OF assms] obtain bytes where
    g: "getBytes ?env ?trs True True = Inr bytes" by blast
  have v: "verifySignature ?env ?trs demo_key (Some demo_signature) = Inr True"
    using h g
    by (simp add: verifySignature_def verifyBytes_def demo_signature_nonempty
        demo_signature_hex demo_key_hex demo_env_def)
  have c: "check_signature ?env ?trs = None"
    using v by (simp add: check_signature_def demo_trs_def truthy_def)
  have i: "identity_checks ?env ?trs demo_sender None = None"
    using c
    by (simp add: identity_checks_def check_sender_publicKey_def check_sender_address_def
        check_requester_def check_second_signature_def check_unique_signatures_def
        demo_trs_def demo_sender_def truthy_def String_of_def)
  have m: "check_multisignatures ?env ?trs (snd (add_sender ?trs demo_sender)) = None"
    by (simp add: check_multisignatures_def demo_trs_def)
  from i m show ?thesis by (simp add: passes_before_fee_def)
qed

lemma demo_env_supply: "demo_env = demo_env\<lparr>totalAmount := Number_of 10000000000000000\<rparr>"
  by (simp add: demo_env_def)

lemma demo_trs_passes:
  "passes_before_fee demo_env (demo_trs\<lparr>amount := a\<rparr>) demo_sender None"
  "passes_before_fee demo_env (demo_trs\<lparr>fee := f\<rparr>) demo_sender None"
  "passes_before_fee demo_env demo_trs demo_sender None"
  "passes_before_fee demo_env free_trs demo_sender None"
proof -
  have a: "demo_trs\<lparr>amount := a\<rparr> = demo_trs\<lparr>type := 0, amount := a, fee := Number_of 10\<rparr>"
    and f: "demo_trs\<lparr>fee := f\<rparr> = demo_trs\<lparr>type := 0, amount := Number_of 1000, fee := f\<rparr>"
    and d: "demo_trs = demo_trs\<lparr>type := 0, amount := Number_of 1000, fee := Number_of 10\<rparr>"
    and z: "free_trs = demo_trs\<lparr>type := 2, amount := Number_of 1000, fee := Number_of 0\<rparr>"
    by (simp_all add: free_trs_def demo_trs_def)
  show "passes_before_fee demo_env (demo_trs\<lparr>amount := a\<rparr>) demo_sender None"
    by (subst demo_env_supply, subst a) (rule demo_variant_passes, simp)
  show "passes_before_fee demo_env (demo_trs\<lparr>fee := f\<rparr>) demo_sender None"
    by (subst demo_env_supply, subst f) (rule demo_variant_passes, simp)
  show "passes_before_fee demo_env demo_trs demo_sender None"
    by (subst demo_env_supply, subst d) (rule demo_variant_passes, simp)
  show "passes_before_fee demo_env free_trs demo_sender None"
    by (subst demo_env_supply, subst z) (rule demo_variant_passes, simp)
qed


lemma identity_checks_None:
  "identity_checks env trs s requester = None \<longleftrightarrow>
     check_sender_publicKey env trs s = None \<and> check_sender_address trs s = None
     \<and> check_requester trs s = None \<and> check_signature env trs = None
     \<and> check_second_signature env trs s requester = None \<and> check_unique_signatures trs = None"
  by (auto simp: identity_checks_def first_error_Cons split: option.splits)

lemma add_sender_requester:
  assumes "truthy (requesterPublicKey trs)" and "multisignatures s = Some ms" and "ms \<noteq> []"
  shows "add_sender trs s
         = (s\<lparr>multisignatures := Some (ms @ [senderPublicKey trs])\<rparr>, ms @ [senderPublicKey trs])"
  using assms by (simp add: add_sender_def determine_multisignatures_def Let_def)

lemma identity_checks_after_push:
  assumes "identity_checks env trs s requester = None"
    and "multisignatures s = Some ms"
  shows "identity_checks env trs (s\<lparr>multisignatures := Some (ms @ ks)\<rparr>) requester = None"
  using assms
  by (auto simp: identity_checks_None check_sender_publicKey_def check_sender_address_def
      check_requester_def check_second_signature_def split: option.splits if_splits)

lemma requested_getBytes: "\<exists>bytes. getBytes demo_env requested_trs True True = Inr bytes"
  by (simp add: getBytes_def requested_trs_def demo_trs_def demo_types_0 demo_handler_def
      demo_key_hex cosigner_key_hex hex_if_def cosigner_key_nonempty
      recipient_field_ok [OF demo_recipient_ok])

lemma requested_identity_checks:
  "identity_checks demo_env requested_trs group_sender None = None"
proof -
  obtain bytes where g: "getBytes demo_env requested_trs True True = Inr bytes"
    using requested_getBytes by blast
  have t: "types demo_env (type requested_trs) = Some demo_handler"
    by (simp add: requested_trs_def demo_trs_type demo_types_0)
  have v: "verifySignature demo_env requested_trs cosigner_key (Some demo_signature) = Inr True"
    using t g
    by (simp add: verifySignature_def verifyBytes_def demo_signature_nonempty
        demo_signature_hex cosigner_key_hex demo_env_def)
  have c: "check_signature demo_env requested_trs = None"
    using v cosigner_key_nonempty
    by (simp add: check_signature_def requested_trs_def demo_trs_def truthy_def String_of_def)
  show ?thesis
    using c cosigner_key_nonempty
    by (simp add: identity_checks_None check_sender_publicKey_def check_sender_address_def
        check_requester_def check_second_signature_def check_unique_signatures_def
        requested_trs_def group_sender_def demo_trs_def demo_sender_def truthy_def String_of_def)
qed


subsection \<open>The fee check\<close>

text \<open>
  C4, as amended. For a transaction of a registered type, \<^verbatim>\<open>verify\<close> completes
  with "Invalid transaction fee" if and only if it gets as far as the fee check and
  there the fee the handler calculates is falsy (0 or \<^verbatim>\<open>NaN\<close>) or is not
  \<^verbatim>\<open>===\<close> to \<^verbatim>\<open>trs.fee\<close>. For integer fees that is: the calculated fee is 0 or
  differs from \<^verbatim>\<open>trs.fee\<close>. So when the fee check is reached and \<^verbatim>\<open>trs.fee\<close>
  equals a calculated fee other than 0, the fee check passes. Without a sender
  \<^verbatim>\<open>verify\<close> never completes with this error.
\<close>

theorem verify_fee_check:
  assumes "types env (type trs) = Some h"
  shows "(fst (verify env trs (Some s) requester) = Some Invalid_transaction_fee
          \<longleftrightarrow> passes_before_fee env trs s requester
               \<and> (falsy (h_calculateFee h trs (fst (add_sender trs s)))
                    \<or> \<not> strict_equals (fee trs) (h_calculateFee h trs (fst (add_sender trs s)))))
       \<and> (integer_of (fee trs) = Some F
            \<and> integer_of (h_calculateFee h trs (fst (add_sender trs s))) = Some C
          \<longrightarrow> (fst (verify env trs (Some s) requester) = Some Invalid_transaction_fee
                 \<longleftrightarrow> passes_before_fee env trs s requester \<and> (C = 0 \<or> F \<noteq> C)))
       \<and> fst (verify env trs None requester) \<noteq> Some Invalid_transaction_fee
       \<and> message Invalid_transaction_fee = ''Invalid transaction fee''"
  using verify_fee_iff [OF assms, of s requester] assms
  by (auto simp: verify_def falsy_integer strict_equals_integer)

theorem verify_fee_check_witness:
  "types demo_env (type demo_trs) = Some demo_handler
   \<and> passes_before_fee demo_env demo_trs demo_sender None
   \<and> integer_of (fee demo_trs) = Some 10
   \<and> integer_of (h_calculateFee demo_handler demo_trs (fst (add_sender demo_trs demo_sender)))
       = Some 10
   \<and> fst (verify demo_env demo_trs (Some demo_sender) None) \<noteq> Some Invalid_transaction_fee
   \<and> passes_before_fee demo_env (demo_trs\<lparr>fee := Number_of 0\<rparr>) demo_sender None
   \<and> integer_of (fee (demo_trs\<lparr>fee := Number_of 0\<rparr>)) = Some 0
   \<and> integer_of (h_calculateFee demo_handler (demo_trs\<lparr>fee := Number_of 0\<rparr>)
                   (fst (add_sender (demo_trs\<lparr>fee := Number_of 0\<rparr>) demo_sender)))
       = Some 10
   \<and> fst (verify demo_env (demo_trs\<lparr>fee := Number_of 0\<rparr>) (Some demo_sender) None)
        = Some Invalid_transaction_fee"
proof -
  have t: "types demo_env (type demo_trs) = Some demo_handler"
    by (simp add: demo_types_0 demo_trs_type)
  have t0: "types demo_env (type (demo_trs\<lparr>fee := Number_of 0\<rparr>)) = Some demo_handler"
    by (simp add: demo_types_0 demo_trs_type)
  note p = demo_trs_passes(3)
  note p0 = demo_trs_passes(2) [of "Number_of 0"]
  have c: "integer_of (h_calculateFee demo_handler demo_trs (fst (add_sender demo_trs demo_sender)))
           = Some 10"
    "integer_of (h_calculateFee demo_handler (demo_trs\<lparr>fee := Number_of 0\<rparr>)
       (fst (add_sender (demo_trs\<lparr>fee := Number_of 0\<rparr>) demo_sender))) = Some 10"
    by (simp_all add: demo_handler_def Number_of_small)
  have f: "integer_of (fee demo_trs) = Some 10"
    "integer_of (fee (demo_trs\<lparr>fee := Number_of 0\<rparr>)) = Some 0"
    by (simp_all add: demo_trs_def Number_of_small)
  note w = verify_fee_check [OF t, where s = demo_sender and requester = None and F = 10
      and C = 10, THEN conjunct2, THEN conjunct1]
  note w0 = verify_fee_check [OF t0, where s = demo_sender and requester = None and F = 0
      and C = 10, THEN conjunct2, THEN conjunct1]
  from w f(1) c(1) have r: "fst (verify demo_env demo_trs (Some demo_sender) None)
      \<noteq> Some Invalid_transaction_fee"
    by simp
  from w0 f(2) c(2) p0
  have r0: "fst (verify demo_env (demo_trs\<lparr>fee := Number_of 0\<rparr>) (Some demo_sender) None)
      = Some Invalid_transaction_fee"
    by simp
  from t p c f r p0 r0 show ?thesis
    by simp
qed

text \<open>
  The claim as the specification words it lets the fee check pass whenever
  \<^verbatim>\<open>trs.fee\<close> equals the calculated fee, a calculated fee of 0 included. The
  handler of type 2 calculates the fee 0 and the transaction below offers the fee 0;
  all checks before the fee check pass, and \<^verbatim>\<open>verify\<close> completes with "Invalid
  transaction fee".
\<close>

theorem verify_zero_fee_rejected:
  "types demo_env (type free_trs) = Some free_handler
   \<and> passes_before_fee demo_env free_trs demo_sender None
   \<and> fee free_trs = h_calculateFee free_handler free_trs (fst (add_sender free_trs demo_sender))
   \<and> integer_of (fee free_trs) = Some 0
   \<and> fst (verify demo_env free_trs (Some demo_sender) None) = Some Invalid_transaction_fee"
proof -
  have t: "types demo_env (type free_trs) = Some free_handler"
    by (simp add: free_trs_def demo_types_2)
  note p = demo_trs_passes(4)
  have f: "h_calculateFee free_handler free_trs (fst (add_sender free_trs demo_sender))
           = Finite False 0 (- 1074)"
    by (simp add: free_handler_def demo_handler_def)
  have z: "fee free_trs = Finite False 0 (- 1074)"
    by (simp add: free_trs_def)
  from verify_fee_iff [OF t, of demo_sender None] p f
  have "fst (verify demo_env free_trs (Some demo_sender) None) = Some Invalid_transaction_fee"
    by (simp add: falsy_def)
  with t p f z show ?thesis by simp
qed

subsection \<open>The amount check\<close>






subsection \<open>The sender's multisignatures after verify\<close>

text \<open>
  C10, as amended. Let the transaction be of a registered type and carry a requester
  public key, let the sender's \<^verbatim>\<open>multisignatures\<close> be a non-empty list, and let
  the checks of \<^verbatim>\<open>verify\<close> up to the one on duplicate signatures pass. Then
  \<^verbatim>\<open>verify\<close> appends \<^verbatim>\<open>trs.senderPublicKey\<close> to the sender account's own
  list, whatever the later checks say: the account it leaves behind has the key as a
  further last element of \<^verbatim>\<open>multisignatures\<close>, and a second call on that account
  appends the key once more.
\<close>

theorem verify_grows_multisignatures:
  assumes "types env (type trs) = Some h"
    and "truthy (requesterPublicKey trs)"
    and "multisignatures s = Some ms" and "ms \<noteq> []"
    and "identity_checks env trs s requester = None"
  shows "snd (verify env trs (Some s) requester)
           = Some (s\<lparr>multisignatures := Some (ms @ [senderPublicKey trs])\<rparr>)
       \<and> snd (verify env trs (snd (verify env trs (Some s) requester)) requester)
           = Some (s\<lparr>multisignatures := Some (ms @ [senderPublicKey trs, senderPublicKey trs])\<rparr>)"
proof -
  let ?s1 = "s\<lparr>multisignatures := Some (ms @ [senderPublicKey trs])\<rparr>"
  have a: "add_sender trs s = (?s1, ms @ [senderPublicKey trs])"
    using assms(2-4) by (rule add_sender_requester)
  have v1: "snd (verify env trs (Some s) requester) = Some ?s1"
    using assms(5) a by (simp add: verify_Some [OF assms(1)])
  have i1: "identity_checks env trs ?s1 requester = None"
    using assms(5) assms(3) by (rule identity_checks_after_push)
  have "add_sender trs ?s1
        = (?s1\<lparr>multisignatures := Some ((ms @ [senderPublicKey trs]) @ [senderPublicKey trs])\<rparr>,
           (ms @ [senderPublicKey trs]) @ [senderPublicKey trs])"
    using assms(2) by (intro add_sender_requester) simp_all
  then have v2: "snd (verify env trs (Some ?s1) requester)
        = Some (s\<lparr>multisignatures := Some (ms @ [senderPublicKey trs, senderPublicKey trs])\<rparr>)"
    using i1 by (simp add: verify_Some [OF assms(1)])
  from v1 v2 show ?thesis by simp
qed

theorem verify_grows_multisignatures_witness:
  "truthy (requesterPublicKey requested_trs)
   \<and> multisignatures group_sender = Some [cosigner_key]
   \<and> snd (verify demo_env requested_trs (Some group_sender) None)
        = Some (group_sender\<lparr>multisignatures := Some [cosigner_key, demo_key]\<rparr>)
   \<and> snd (verify demo_env requested_trs
             (snd (verify demo_env requested_trs (Some group_sender) None)) None)
        = Some (group_sender\<lparr>multisignatures := Some [cosigner_key, demo_key, demo_key]\<rparr>)"
proof -
  have t: "types demo_env (type requested_trs) = Some demo_handler"
    by (simp add: requested_trs_def demo_trs_type demo_types_0)
  have r: "truthy (requesterPublicKey requested_trs)"
    using cosigner_key_nonempty by (simp add: requested_trs_def truthy_def)
  have m: "multisignatures group_sender = Some [cosigner_key]"
    by (simp add: group_sender_def)
  have n: "[cosigner_key] \<noteq> []"
    by simp
  have k: "senderPublicKey requested_trs = demo_key"
    by (simp add: requested_trs_def demo_trs_def)
  note w = verify_grows_multisignatures [OF t r m n requested_identity_checks,
      unfolded k append_Cons append_Nil]
  from w r m show ?thesis by blast
qed

text \<open>
  The claim without the condition on the earlier checks does not hold: a requester
  public key and a non-empty list are not enough. The transaction below has no
  signature; \<^verbatim>\<open>verify\<close> completes with "Failed to verify signature" before it
  reaches the list, and the sender account is as it was.
\<close>

theorem verify_early_return_keeps_multisignatures:
  "truthy (requesterPublicKey (requested_trs\<lparr>signature := None\<rparr>))
   \<and> multisignatures group_sender = Some [cosigner_key]
   \<and> verify demo_env (requested_trs\<lparr>signature := None\<rparr>) (Some group_sender) None
        = (Some Failed_to_verify_signature, Some group_sender)"
proof -
  have t: "types demo_env (type (requested_trs\<lparr>signature := None\<rparr>)) = Some demo_handler"
    by (simp add: requested_trs_def demo_trs_type demo_types_0)
  have r: "truthy (requesterPublicKey (requested_trs\<lparr>signature := None\<rparr>))"
    using cosigner_key_nonempty by (simp add: requested_trs_def truthy_def)
  have m: "multisignatures group_sender = Some [cosigner_key]"
    by (simp add: group_sender_def)
  have c: "check_signature demo_env (requested_trs\<lparr>signature := None\<rparr>)
           = Some Failed_to_verify_signature"
    using t by (simp add: check_signature_def verifySignature_def)
  have i: "identity_checks demo_env (requested_trs\<lparr>signature := None\<rparr>) group_sender None
           = Some Failed_to_verify_signature"
    using c cosigner_key_nonempty
    by (simp add: identity_checks_def check_sender_publicKey_def check_sender_address_def
        check_requester_def requested_trs_def group_sender_def demo_trs_def demo_sender_def
        String_of_def)
  show ?thesis
    using r m i by (simp add: verify_Some [OF t])
qed

subsection \<open>Signature checks without a signature\<close>

text \<open>
  C9. For a transaction of a registered type and any public key,
  \<^verbatim>\<open>verifySignature\<close> and \<^verbatim>\<open>verifySecondSignature\<close> return \<^verbatim>\<open>false\<close>, and do not
  throw, when the signature argument is missing or empty.
\<close>

theorem verifySignature_without_signature:
  assumes "types env (type trs) = Some h" and "\<not> truthy sg"
  shows "verifySignature env trs pk sg = Inr False
       \<and> verifySecondSignature env trs pk sg = Inr False"
  using assms
  by (cases sg) (simp_all add: verifySignature_def verifySecondSignature_def truthy_def)

theorem verifySignature_without_signature_witness:
  "types demo_env (type demo_trs) = Some demo_handler
   \<and> \<not> truthy None \<and> \<not> truthy (Some [])
   \<and> verifySignature demo_env demo_trs demo_key None = Inr False
   \<and> verifySecondSignature demo_env demo_trs demo_key None = Inr False
   \<and> verifySignature demo_env demo_trs demo_key (Some []) = Inr False
   \<and> verifySecondSignature demo_env demo_trs demo_key (Some []) = Inr False"
proof -
  have t: "types demo_env (type demo_trs) = Some demo_handler"
    by (simp add: demo_types_0 demo_trs_type)
  have n: "\<not> truthy None" and e: "\<not> truthy (Some [])"
    by (simp_all add: truthy_def)
  show ?thesis
    using t n e
      verifySignature_without_signature [OF t n, of demo_key]
      verifySignature_without_signature [OF t e, of demo_key]
    by simp
qed

subsection \<open>The second-signature checks of applyUnconfirmed\<close>

text \<open>
  C8. For a transaction of a registered type with no requester public key,
  \<^verbatim>\<open>applyUnconfirmed\<close> fails with "Missing sender second signature" when the sender
  has a second signature, the transaction carries none and its block is not the
  genesis block; it fails with "Sender does not have a second signature" when the
  sender has no second signature and the transaction carries a non-empty one. In both
  cases the account store is left as it was: no merge has run, and the sender's
  unconfirmed balance is unchanged.
\<close>

theorem applyUnconfirmed_second_signature:
  assumes "types env (type trs) = Some h" and "\<not> truthy (requesterPublicKey trs)"
  shows "(secondSignature s \<and> \<not> truthy (signSignature trs) \<and> blockId trs \<noteq> Some (genesis_id env)
            \<longrightarrow> applyUnconfirmed env trs s requester st = (Some Missing_sender_second_signature, st))
       \<and> (\<not> secondSignature s \<and> truthy (signSignature trs)
            \<longrightarrow> applyUnconfirmed env trs s requester st
                = (Some Sender_does_not_have_a_second_signature, st))
       \<and> message Missing_sender_second_signature = ''Missing sender second signature''
       \<and> message Sender_does_not_have_a_second_signature
           = ''Sender does not have a second signature''"
  using assms by (simp add: applyUnconfirmed_def second_signature_checks_def)

theorem applyUnconfirmed_second_signature_witness:
  "types demo_env (type demo_trs) = Some demo_handler
   \<and> \<not> truthy (requesterPublicKey demo_trs)
   \<and> secondSignature (demo_sender\<lparr>secondSignature := True\<rparr>)
   \<and> \<not> truthy (signSignature demo_trs)
   \<and> blockId demo_trs \<noteq> Some (genesis_id demo_env)
   \<and> applyUnconfirmed demo_env demo_trs (demo_sender\<lparr>secondSignature := True\<rparr>) None demo_store
       = (Some Missing_sender_second_signature, demo_store)
   \<and> types demo_env (type (demo_trs\<lparr>signSignature := Some demo_signature\<rparr>)) = Some demo_handler
   \<and> \<not> truthy (requesterPublicKey (demo_trs\<lparr>signSignature := Some demo_signature\<rparr>))
   \<and> \<not> secondSignature demo_sender
   \<and> truthy (signSignature (demo_trs\<lparr>signSignature := Some demo_signature\<rparr>))
   \<and> applyUnconfirmed demo_env (demo_trs\<lparr>signSignature := Some demo_signature\<rparr>) demo_sender None demo_store
       = (Some Sender_does_not_have_a_second_signature, demo_store)"
proof -
  have t: "types demo_env (type demo_trs) = Some demo_handler"
    by (simp add: demo_types_0 demo_trs_type)
  have r: "\<not> truthy (requesterPublicKey demo_trs)"
    by (simp add: demo_trs_def truthy_def)
  have t2: "types demo_env (type (demo_trs\<lparr>signSignature := Some demo_signature\<rparr>)) = Some demo_handler"
    by (simp add: demo_types_0 demo_trs_type)
  have r2: "\<not> truthy (requesterPublicKey (demo_trs\<lparr>signSignature := Some demo_signature\<rparr>))"
    by (simp add: demo_trs_def truthy_def)
  have a: "secondSignature (demo_sender\<lparr>secondSignature := True\<rparr>)
           \<and> \<not> truthy (signSignature demo_trs)
           \<and> blockId demo_trs \<noteq> Some (genesis_id demo_env)"
    by (simp add: demo_trs_def demo_env_def truthy_def)
  have b: "\<not> secondSignature demo_sender
           \<and> truthy (signSignature (demo_trs\<lparr>signSignature := Some demo_signature\<rparr>))"
    by (simp add: demo_sender_def demo_signature_def truthy_def)
  show ?thesis
    using t r t2 r2 a b
      applyUnconfirmed_second_signature
        [OF t r, of "demo_sender\<lparr>secondSignature := True\<rparr>" None demo_store]
      applyUnconfirmed_second_signature [OF t2 r2, of demo_sender None demo_store]
    by simp
qed


section \<open>Further properties\<close>

subsection \<open>The paths through applyUnconfirmed and undoUnconfirmed\<close>

lemma applyUnconfirmed_success:
  assumes "types env (type trs) = Some h"
    and "second_signature_checks env trs s requester = None"
    and "blockId trs = Some (genesis_id env)
         \<or> \<not> bignum_lessThan (Big (u_balance s) 0) (exact_amount trs)"
    and "merge st (address s) (unconfirmed_delta (negate (bignum_toNumber (exact_amount trs))))
         = (Inr s1, st1)"
    and "h_applyUnconfirmed h trs s1 st1 = (err, st2)"
    and "\<not> truthy err"
  shows "applyUnconfirmed env trs s requester st = (None, st2)"
  using assms by (auto simp: applyUnconfirmed_def Let_def)

lemma applyUnconfirmed_handler_failure:
  assumes "types env (type trs) = Some h"
    and "second_signature_checks env trs s requester = None"
    and "blockId trs = Some (genesis_id env)
         \<or> \<not> bignum_lessThan (Big (u_balance s) 0) (exact_amount trs)"
    and "merge st (address s) (unconfirmed_delta (negate (bignum_toNumber (exact_amount trs))))
         = (Inr s1, st1)"
    and "h_applyUnconfirmed h trs s1 st1 = (Some e, st2)"
    and "e \<noteq> []"
    and "merge st2 (address s) (unconfirmed_delta (bignum_toNumber (exact_amount trs)))
         = (Inr s3, st3)"
  shows "applyUnconfirmed env trs s requester st = (Some (Handler_error e), st3)"
  using assms merge_Inr(1) [OF assms(4)]
  by (auto simp: applyUnconfirmed_def Let_def truthy_def handler_error_def)

lemma undoUnconfirmed_success:
  assumes "types env (type trs) = Some h"
    and "merge st (address s) (unconfirmed_delta (number_amount trs)) = (Inr s1, st1)"
    and "h_undoUnconfirmed h trs s1 st1 = (err, st2)"
    and "\<not> truthy err"
  shows "undoUnconfirmed env trs s st = (None, st2)"
  using assms by (auto simp: undoUnconfirmed_def Let_def)

lemma undoUnconfirmed_handler_failure:
  assumes "types env (type trs) = Some h"
    and "merge st (address s) (unconfirmed_delta (number_amount trs)) = (Inr s1, st1)"
    and "h_undoUnconfirmed h trs s1 st1 = (Some e, st2)"
    and "e \<noteq> []"
    and "merge st2 (address s) (unconfirmed_delta (negate (number_amount trs))) = (Inr s3, st3)"
  shows "undoUnconfirmed env trs s st = (Some (Handler_error e), st3)"
  using assms merge_Inr(1) [OF assms(2)]
  by (auto simp: undoUnconfirmed_def Let_def truthy_def handler_error_def)

text \<open>A merge of a whole amount into a store with no fault left succeeds.\<close>

lemma merge_integer:
  assumes "faults st = []" and "integer_of v = Some i"
  shows "\<exists>s1 st1. merge st a (confirmed_delta env blk v) = (Inr s1, st1) \<and> faults st1 = []"
    and "\<exists>s1 st1. merge st a (unconfirmed_delta v) = (Inr s1, st1) \<and> faults st1 = []"
  using assms by (simp_all add: merge_def confirmed_delta_def unconfirmed_delta_def Let_def)

lemma demo_store_faults: "faults demo_store = []"
  by (simp add: demo_store_def)

lemma failing_trs_type: "types demo_env (type (demo_trs\<lparr>type := 1\<rparr>)) = Some failing_handler"
  by (simp add: demo_env_def)

lemma demo_second_signature_checks:
  "second_signature_checks demo_env (demo_trs\<lparr>type := t\<rparr>) demo_sender None = None"
  by (simp add: second_signature_checks_def demo_trs_def demo_sender_def truthy_def)

lemma demo_trs_amounts:
  "bignum_toNumber (exact_amount (demo_trs\<lparr>type := t\<rparr>)) = Number_of 1010"
  "bignum_lessThan (Big B 0) (exact_amount (demo_trs\<lparr>type := t\<rparr>)) \<longleftrightarrow> B < 1010"
  "number_amount (demo_trs\<lparr>type := t\<rparr>) = Number_of 1010"
  by (simp_all add: exact_amount_def number_amount_def demo_trs_def demo_amounts)

subsection \<open>What the four operations do after a handler error\<close>

text \<open>
  X1. When the checks of \<^verbatim>\<open>apply\<close> pass, its debit merge succeeds, the handler's
  \<^verbatim>\<open>apply\<close> reports an error without changing the sender's balance, and the
  reversing merge succeeds, \<^verbatim>\<open>apply\<close> completes with no error and the sender's
  balance is what it was before the call.
\<close>

theorem apply_after_handler_error:
  assumes "types env (type trs) = Some h"
    and "h_ready h trs s"
    and "blockId trs = Some (genesis_id env)
         \<or> \<not> bignum_lessThan (Big (balance s) 0) (exact_amount trs)"
    and "merge st (address s) (confirmed_delta env blk (negate (bignum_toNumber (exact_amount trs))))
         = (Inr s1, st1)"
    and "h_apply h trs blk s1 st1 = (err, st2)"
    and "truthy err"
    and "balance (accounts st2 (address s)) = balance (accounts st1 (address s))"
    and "merge st2 (address s) (confirmed_delta env blk (bignum_toNumber (exact_amount trs)))
         = (Inr s3, st3)"
  shows "apply_trs env trs blk (Some s) st = (None, st3)
       \<and> balance (accounts st3 (address s)) = balance (accounts st (address s))"
proof -
  have a: "apply_trs env trs blk (Some s) st = (None, st3)"
    using assms(1-6) assms(8) by (rule apply_trs_handler_failure)
  from merge_Inr(3) [OF assms(8)] obtain v where
    v: "integer_of (bignum_toNumber (exact_amount trs)) = Some v"
    and b3: "balance (accounts st3 (address s)) = balance (accounts st2 (address s)) + v"
    by (auto simp: confirmed_delta_def)
  from merge_Inr(3) [OF assms(4)]
  have "balance (accounts st1 (address s)) = balance (accounts st (address s)) - v"
    by (auto simp: confirmed_delta_def integer_of_negate v)
  with a b3 assms(7) show ?thesis
    by simp
qed

theorem apply_after_handler_error_witness:
  "fst (apply_trs demo_env (demo_trs\<lparr>type := 1\<rparr>) demo_block (Some demo_sender) demo_store) = None
   \<and> balance (accounts (snd (apply_trs demo_env (demo_trs\<lparr>type := 1\<rparr>) demo_block
                               (Some demo_sender) demo_store)) (address demo_sender))
       = balance (accounts demo_store (address demo_sender))"
proof -
  let ?trs = "demo_trs\<lparr>type := 1\<rparr>"
  have r: "h_ready failing_handler ?trs demo_sender"
    by (simp add: failing_handler_def demo_handler_def)
  have b: "blockId ?trs = Some (genesis_id demo_env)
           \<or> \<not> bignum_lessThan (Big (balance demo_sender) 0) (exact_amount ?trs)"
    by (simp add: demo_trs_amounts demo_sender_def)
  have i: "integer_of (negate (bignum_toNumber (exact_amount ?trs))) = Some (- 1010)"
    "integer_of (bignum_toNumber (exact_amount ?trs)) = Some 1010"
    by (simp_all add: demo_trs_amounts demo_amounts)
  obtain s1 st1 where m1:
    "merge demo_store (address demo_sender)
       (confirmed_delta demo_env demo_block (negate (bignum_toNumber (exact_amount ?trs))))
     = (Inr s1, st1)"
    and f1: "faults st1 = []"
    using merge_integer(1) [OF demo_store_faults i(1)] by blast
  have h1: "h_apply failing_handler ?trs demo_block s1 st1 = (Some ''handler failed'', st1)"
    by (simp add: failing_handler_def)
  have tr: "truthy (Some ''handler failed'')"
    by (simp add: truthy_def)
  have e: "balance (accounts st1 (address demo_sender)) = balance (accounts st1 (address demo_sender))"
    by simp
  obtain s3 st3 where m3:
    "merge st1 (address demo_sender)
       (confirmed_delta demo_env demo_block (bignum_toNumber (exact_amount ?trs))) = (Inr s3, st3)"
    using merge_integer(1) [OF f1 i(2)] by blast
  show ?thesis
    using apply_after_handler_error [OF failing_trs_type r b m1 h1 tr e m3] by simp
qed

text \<open>
  X2. When the credit merge of \<^verbatim>\<open>undo\<close> succeeds, the handler's \<^verbatim>\<open>undo\<close>
  reports an error without changing the sender's balance, and the second merge
  succeeds, \<^verbatim>\<open>undo\<close> completes with no error and the sender's balance is twice
  the sum of amount and fee above what it was before the call.
\<close>

theorem undo_after_handler_error:
  assumes "types env (type trs) = Some h"
    and "merge st (address s) (confirmed_delta env blk (number_amount trs)) = (Inr s1, st1)"
    and "h_undo h trs blk s1 st1 = (err, st2)"
    and "truthy err"
    and "balance (accounts st2 (address s)) = balance (accounts st1 (address s))"
    and "merge st2 (address s) (confirmed_delta env blk (number_amount trs)) = (Inr s3, st3)"
  shows "undo_trs env trs blk s st = (None, st3)
       \<and> (\<exists>v. integer_of (number_amount trs) = Some v
              \<and> balance (accounts st3 (address s)) = balance (accounts st (address s)) + 2 * v)"
proof -
  have a: "undo_trs env trs blk s st = (None, st3)"
    using assms(1-4) assms(6) by (rule undo_trs_handler_failure)
  from merge_Inr(3) [OF assms(2)] obtain v where
    v: "integer_of (number_amount trs) = Some v"
    and b1: "balance (accounts st1 (address s)) = balance (accounts st (address s)) + v"
    by (auto simp: confirmed_delta_def)
  from merge_Inr(3) [OF assms(6)]
  have "balance (accounts st3 (address s)) = balance (accounts st2 (address s)) + v"
    by (auto simp: confirmed_delta_def v)
  with a v b1 assms(5) show ?thesis
    by simp
qed

theorem undo_after_handler_error_witness:
  "fst (undo_trs demo_env (demo_trs\<lparr>type := 1\<rparr>) demo_block demo_sender demo_store) = None
   \<and> integer_of (number_amount (demo_trs\<lparr>type := 1\<rparr>)) = Some 1010
   \<and> balance (accounts (snd (undo_trs demo_env (demo_trs\<lparr>type := 1\<rparr>) demo_block
                               demo_sender demo_store)) (address demo_sender))
       = balance (accounts demo_store (address demo_sender)) + 2 * 1010"
proof -
  let ?trs = "demo_trs\<lparr>type := 1\<rparr>"
  have i: "integer_of (number_amount ?trs) = Some 1010"
    by (simp add: demo_trs_amounts demo_amounts)
  obtain s1 st1 where m1:
    "merge demo_store (address demo_sender)
       (confirmed_delta demo_env demo_block (number_amount ?trs)) = (Inr s1, st1)"
    and f1: "faults st1 = []"
    using merge_integer(1) [OF demo_store_faults i] by blast
  have h1: "h_undo failing_handler ?trs demo_block s1 st1 = (Some ''handler failed'', st1)"
    by (simp add: failing_handler_def)
  have tr: "truthy (Some ''handler failed'')"
    by (simp add: truthy_def)
  have e: "balance (accounts st1 (address demo_sender)) = balance (accounts st1 (address demo_sender))"
    by simp
  obtain s3 st3 where m3:
    "merge st1 (address demo_sender)
       (confirmed_delta demo_env demo_block (number_amount ?trs)) = (Inr s3, st3)"
    using merge_integer(1) [OF f1 i] by blast
  show ?thesis
    using undo_after_handler_error [OF failing_trs_type m1 h1 tr e m3] i by simp
qed

text \<open>
  X3. When the checks of \<^verbatim>\<open>applyUnconfirmed\<close> pass, its debit merge succeeds,
  the handler's \<^verbatim>\<open>applyUnconfirmed\<close> reports an error without changing the
  sender's unconfirmed balance, and the reversing merge succeeds,
  \<^verbatim>\<open>applyUnconfirmed\<close> completes with the handler's error and the sender's
  unconfirmed balance is what it was before the call.
\<close>

theorem applyUnconfirmed_after_handler_error:
  assumes "types env (type trs) = Some h"
    and "second_signature_checks env trs s requester = None"
    and "blockId trs = Some (genesis_id env)
         \<or> \<not> bignum_lessThan (Big (u_balance s) 0) (exact_amount trs)"
    and "merge st (address s) (unconfirmed_delta (negate (bignum_toNumber (exact_amount trs))))
         = (Inr s1, st1)"
    and "h_applyUnconfirmed h trs s1 st1 = (Some e, st2)"
    and "e \<noteq> []"
    and "u_balance (accounts st2 (address s)) = u_balance (accounts st1 (address s))"
    and "merge st2 (address s) (unconfirmed_delta (bignum_toNumber (exact_amount trs)))
         = (Inr s3, st3)"
  shows "applyUnconfirmed env trs s requester st = (Some (Handler_error e), st3)
       \<and> message (Handler_error e) = e
       \<and> u_balance (accounts st3 (address s)) = u_balance (accounts st (address s))"
proof -
  have a: "applyUnconfirmed env trs s requester st = (Some (Handler_error e), st3)"
    using assms(1-6) assms(8) by (rule applyUnconfirmed_handler_failure)
  from merge_Inr(4) [OF assms(8)] obtain v where
    v: "integer_of (bignum_toNumber (exact_amount trs)) = Some v"
    and b3: "u_balance (accounts st3 (address s)) = u_balance (accounts st2 (address s)) + v"
    by (auto simp: unconfirmed_delta_def)
  from merge_Inr(4) [OF assms(4)]
  have "u_balance (accounts st1 (address s)) = u_balance (accounts st (address s)) - v"
    by (auto simp: unconfirmed_delta_def integer_of_negate v)
  with a b3 assms(7) show ?thesis
    by simp
qed

theorem applyUnconfirmed_after_handler_error_witness:
  "applyUnconfirmed demo_env (demo_trs\<lparr>type := 1\<rparr>) demo_sender None demo_store
     = (Some (Handler_error ''handler failed''),
        snd (applyUnconfirmed demo_env (demo_trs\<lparr>type := 1\<rparr>) demo_sender None demo_store))
   \<and> u_balance (accounts (snd (applyUnconfirmed demo_env (demo_trs\<lparr>type := 1\<rparr>) demo_sender None
                                 demo_store)) (address demo_sender))
       = u_balance (accounts demo_store (address demo_sender))"
proof -
  let ?trs = "demo_trs\<lparr>type := 1\<rparr>"
  have b: "blockId ?trs = Some (genesis_id demo_env)
           \<or> \<not> bignum_lessThan (Big (u_balance demo_sender) 0) (exact_amount ?trs)"
    by (simp add: demo_trs_amounts demo_sender_def)
  have i: "integer_of (negate (bignum_toNumber (exact_amount ?trs))) = Some (- 1010)"
    "integer_of (bignum_toNumber (exact_amount ?trs)) = Some 1010"
    by (simp_all add: demo_trs_amounts demo_amounts)
  obtain s1 st1 where m1:
    "merge demo_store (address demo_sender)
       (unconfirmed_delta (negate (bignum_toNumber (exact_amount ?trs)))) = (Inr s1, st1)"
    and f1: "faults st1 = []"
    using merge_integer(2) [OF demo_store_faults i(1)] by blast
  have h1: "h_applyUnconfirmed failing_handler ?trs s1 st1 = (Some ''handler failed'', st1)"
    by (simp add: failing_handler_def)
  have ne: "''handler failed'' \<noteq> []"
    by simp
  have e: "u_balance (accounts st1 (address demo_sender)) = u_balance (accounts st1 (address demo_sender))"
    by simp
  obtain s3 st3 where m3:
    "merge st1 (address demo_sender)
       (unconfirmed_delta (bignum_toNumber (exact_amount ?trs))) = (Inr s3, st3)"
    using merge_integer(2) [OF f1 i(2)] by blast
  show ?thesis
    using applyUnconfirmed_after_handler_error
      [OF failing_trs_type demo_second_signature_checks b m1 h1 ne e m3]
    by simp
qed

text \<open>
  X4. When the credit merge of \<^verbatim>\<open>undoUnconfirmed\<close> succeeds, the handler's
  \<^verbatim>\<open>undoUnconfirmed\<close> reports an error without changing the sender's unconfirmed
  balance, and the reversing merge succeeds, \<^verbatim>\<open>undoUnconfirmed\<close> completes with
  the handler's error and the sender's unconfirmed balance is what it was before the
  call.
\<close>

theorem undoUnconfirmed_after_handler_error:
  assumes "types env (type trs) = Some h"
    and "merge st (address s) (unconfirmed_delta (number_amount trs)) = (Inr s1, st1)"
    and "h_undoUnconfirmed h trs s1 st1 = (Some e, st2)"
    and "e \<noteq> []"
    and "u_balance (accounts st2 (address s)) = u_balance (accounts st1 (address s))"
    and "merge st2 (address s) (unconfirmed_delta (negate (number_amount trs))) = (Inr s3, st3)"
  shows "undoUnconfirmed env trs s st = (Some (Handler_error e), st3)
       \<and> message (Handler_error e) = e
       \<and> u_balance (accounts st3 (address s)) = u_balance (accounts st (address s))"
proof -
  have a: "undoUnconfirmed env trs s st = (Some (Handler_error e), st3)"
    using assms(1-4) assms(6) by (rule undoUnconfirmed_handler_failure)
  from merge_Inr(4) [OF assms(2)] obtain v where
    v: "integer_of (number_amount trs) = Some v"
    and b1: "u_balance (accounts st1 (address s)) = u_balance (accounts st (address s)) + v"
    by (auto simp: unconfirmed_delta_def)
  from merge_Inr(4) [OF assms(6)]
  have "u_balance (accounts st3 (address s)) = u_balance (accounts st2 (address s)) - v"
    by (auto simp: unconfirmed_delta_def integer_of_negate v)
  with a b1 assms(5) show ?thesis
    by simp
qed

theorem undoUnconfirmed_after_handler_error_witness:
  "undoUnconfirmed demo_env (demo_trs\<lparr>type := 1\<rparr>) demo_sender demo_store
     = (Some (Handler_error ''handler failed''),
        snd (undoUnconfirmed demo_env (demo_trs\<lparr>type := 1\<rparr>) demo_sender demo_store))
   \<and> u_balance (accounts (snd (undoUnconfirmed demo_env (demo_trs\<lparr>type := 1\<rparr>) demo_sender
                                 demo_store)) (address demo_sender))
       = u_balance (accounts demo_store (address demo_sender))"
proof -
  let ?trs = "demo_trs\<lparr>type := 1\<rparr>"
  have i: "integer_of (number_amount ?trs) = Some 1010"
    "integer_of (negate (number_amount ?trs)) = Some (- 1010)"
    by (simp_all add: demo_trs_amounts demo_amounts)
  obtain s1 st1 where m1:
    "merge demo_store (address demo_sender)
       (unconfirmed_delta (number_amount ?trs)) = (Inr s1, st1)"
    and f1: "faults st1 = []"
    using merge_integer(2) [OF demo_store_faults i(1)] by blast
  have h1: "h_undoUnconfirmed failing_handler ?trs s1 st1 = (Some ''handler failed'', st1)"
    by (simp add: failing_handler_def)
  have ne: "''handler failed'' \<noteq> []"
    by simp
  have e: "u_balance (accounts st1 (address demo_sender)) = u_balance (accounts st1 (address demo_sender))"
    by simp
  obtain s3 st3 where m3:
    "merge st1 (address demo_sender)
       (unconfirmed_delta (negate (number_amount ?trs))) = (Inr s3, st3)"
    using merge_integer(2) [OF f1 i(2)] by blast
  show ?thesis
    using undoUnconfirmed_after_handler_error [OF failing_trs_type m1 h1 ne e m3]
    by simp
qed

subsection \<open>applyUnconfirmed followed by undoUnconfirmed\<close>

text \<open>
  X5. Let the amount and the fee be integers from 0 below \<open>2 ^ 54\<close>. Let
  \<^verbatim>\<open>applyUnconfirmed\<close> run with its checks passed, its debit merge and the
  handler's \<^verbatim>\<open>applyUnconfirmed\<close> succeeding, and let \<^verbatim>\<open>undoUnconfirmed\<close> then
  run with its credit merge and the handler's \<^verbatim>\<open>undoUnconfirmed\<close> succeeding. If
  what the two handler calls do to the sender's unconfirmed balance cancels out, the
  unconfirmed balance after \<^verbatim>\<open>undoUnconfirmed\<close> is its value before
  \<^verbatim>\<open>applyUnconfirmed\<close>.
\<close>

theorem applyUnconfirmed_undoUnconfirmed_restores:
  assumes "types env (type trs) = Some h"
    and "second_signature_checks env trs s requester = None"
    and "is_double (amount trs)" and "integer_of (amount trs) = Some a"
    and "0 \<le> a" and "a < 2 ^ 54"
    and "is_double (fee trs)" and "integer_of (fee trs) = Some f"
    and "0 \<le> f" and "f < 2 ^ 54"
    and "blockId trs = Some (genesis_id env) \<or> a + f \<le> u_balance s"
    and "merge st (address s) (unconfirmed_delta (negate (bignum_toNumber (exact_amount trs))))
         = (Inr s1, st1)"
    and "h_applyUnconfirmed h trs s1 st1 = (err, st2)" and "\<not> truthy err"
    and "merge st2 (address s) (unconfirmed_delta (number_amount trs)) = (Inr s3, st3)"
    and "h_undoUnconfirmed h trs s3 st3 = (err', st4)" and "\<not> truthy err'"
    and "(u_balance (accounts st2 (address s)) - u_balance (accounts st1 (address s)))
         + (u_balance (accounts st4 (address s)) - u_balance (accounts st3 (address s))) = 0"
  shows "applyUnconfirmed env trs s requester st = (None, st2)
       \<and> undoUnconfirmed env trs s st2 = (None, st4)
       \<and> u_balance (accounts st4 (address s)) = u_balance (accounts st (address s))"
proof -
  note sum = bignum_sum_integer [OF assms(3-10)]
  have "blockId trs = Some (genesis_id env)
        \<or> \<not> bignum_lessThan (Big (u_balance s) 0) (exact_amount trs)"
    using assms(11) by (auto simp: exact_amount_def sum(2))
  with assms(1,2) have a: "applyUnconfirmed env trs s requester st = (None, st2)"
    using assms(12-14) by (rule applyUnconfirmed_success)
  have u: "undoUnconfirmed env trs s st2 = (None, st4)"
    using assms(1) assms(15-17) by (rule undoUnconfirmed_success)
  from merge_Inr(4) [OF assms(15)] obtain v where
    v: "integer_of (number_amount trs) = Some v"
    and b3: "u_balance (accounts st3 (address s)) = u_balance (accounts st2 (address s)) + v"
    by (auto simp: unconfirmed_delta_def)
  from amounts_agree [OF assms(3-10)] v
  have d: "integer_of (bignum_toNumber (exact_amount trs)) = Some v"
    by (auto simp: exact_amount_def number_amount_def)
  from merge_Inr(4) [OF assms(12)]
  have b1: "u_balance (accounts st1 (address s)) = u_balance (accounts st (address s)) - v"
    by (auto simp: unconfirmed_delta_def integer_of_negate d)
  from a u b1 b3 assms(18) show ?thesis
    by simp
qed

theorem applyUnconfirmed_undoUnconfirmed_restores_witness:
  "fst (applyUnconfirmed demo_env demo_trs demo_sender None demo_store) = None
   \<and> fst (undoUnconfirmed demo_env demo_trs demo_sender
            (snd (applyUnconfirmed demo_env demo_trs demo_sender None demo_store))) = None
   \<and> u_balance (accounts (snd (undoUnconfirmed demo_env demo_trs demo_sender
            (snd (applyUnconfirmed demo_env demo_trs demo_sender None demo_store))))
         (address demo_sender))
       = u_balance (accounts demo_store (address demo_sender))"
proof -
  have t: "types demo_env (type demo_trs) = Some demo_handler"
    by (simp add: demo_types_0 demo_trs_type)
  have c: "second_signature_checks demo_env demo_trs demo_sender None = None"
    using demo_second_signature_checks [of 0] by (simp add: demo_trs_def)
  have a: "is_double (amount demo_trs)" "integer_of (amount demo_trs) = Some 1000"
    and f: "is_double (fee demo_trs)" "integer_of (fee demo_trs) = Some 10"
    by (simp_all add: demo_trs_def Number_of_small)
  have b: "blockId demo_trs = Some (genesis_id demo_env) \<or> 1000 + 10 \<le> u_balance demo_sender"
    by (simp add: demo_sender_def)
  have i: "integer_of (negate (bignum_toNumber (exact_amount demo_trs))) = Some (- 1010)"
    "integer_of (number_amount demo_trs) = Some 1010"
    by (simp_all add: exact_amount_def number_amount_def demo_trs_def demo_amounts)
  obtain s1 st1 where m1:
    "merge demo_store (address demo_sender)
       (unconfirmed_delta (negate (bignum_toNumber (exact_amount demo_trs)))) = (Inr s1, st1)"
    and f1: "faults st1 = []"
    using merge_integer(2) [OF demo_store_faults i(1)] by blast
  have h1: "h_applyUnconfirmed demo_handler demo_trs s1 st1 = (None, st1)"
    by (simp add: demo_handler_def)
  obtain s3 st3 where m3:
    "merge st1 (address demo_sender) (unconfirmed_delta (number_amount demo_trs)) = (Inr s3, st3)"
    using merge_integer(2) [OF f1 i(2)] by blast
  have h3: "h_undoUnconfirmed demo_handler demo_trs s3 st3 = (None, st3)"
    by (simp add: demo_handler_def)
  have n: "\<not> truthy None"
    by (simp add: truthy_def)
  have z: "(u_balance (accounts st1 (address demo_sender)) - u_balance (accounts st1 (address demo_sender)))
         + (u_balance (accounts st3 (address demo_sender)) - u_balance (accounts st3 (address demo_sender))) = 0"
    by simp
  show ?thesis
    using applyUnconfirmed_undoUnconfirmed_restores
      [OF t c a(1) a(2) _ _ f(1) f(2) _ _ b m1 h1 n m3 h3 n z]
    by simp
qed

subsection \<open>The balance check of apply\<close>

text \<open>
  X6. For a ready transaction of a registered type outside the genesis block whose
  amount and fee are integers from 0 below \<open>2 ^ 54\<close> and together exceed the sender's
  balance, \<^verbatim>\<open>apply\<close> completes with "Account has no LISK" and leaves the account
  store as it was.
\<close>

theorem apply_insufficient_balance:
  assumes "types env (type trs) = Some h"
    and "h_ready h trs s"
    and "blockId trs \<noteq> Some (genesis_id env)"
    and "is_double (amount trs)" and "integer_of (amount trs) = Some a"
    and "0 \<le> a" and "a < 2 ^ 54"
    and "is_double (fee trs)" and "integer_of (fee trs) = Some f"
    and "0 \<le> f" and "f < 2 ^ 54"
    and "balance s < a + f"
  shows "apply_trs env trs blk (Some s) st = (Some (Account_has_no_LISK (address s) (balance s)), st)"
  using assms(1-3) assms(12) bignum_sum_integer(2) [OF assms(4-11), of "balance s"]
  by (simp add: apply_trs_def ready_def exact_amount_def Let_def)

theorem apply_insufficient_balance_witness:
  "blockId (demo_trs\<lparr>amount := Number_of 4991\<rparr>) \<noteq> Some (genesis_id demo_env)
   \<and> integer_of (amount (demo_trs\<lparr>amount := Number_of 4991\<rparr>)) = Some 4991
   \<and> integer_of (fee (demo_trs\<lparr>amount := Number_of 4991\<rparr>)) = Some 10
   \<and> balance demo_sender < 4991 + 10
   \<and> apply_trs demo_env (demo_trs\<lparr>amount := Number_of 4991\<rparr>) demo_block (Some demo_sender)
        demo_store
       = (Some (Account_has_no_LISK ''16313739661670634666L'' 5000), demo_store)"
proof -
  let ?trs = "demo_trs\<lparr>amount := Number_of 4991\<rparr>"
  have t: "types demo_env (type ?trs) = Some demo_handler"
    by (simp add: demo_types_0 demo_trs_type)
  have r: "h_ready demo_handler ?trs demo_sender"
    by (simp add: demo_handler_def)
  have g: "blockId ?trs \<noteq> Some (genesis_id demo_env)"
    by (simp add: demo_trs_def demo_env_def)
  have a: "is_double (amount ?trs)" "integer_of (amount ?trs) = Some 4991"
    and f: "is_double (fee ?trs)" "integer_of (fee ?trs) = Some 10"
    by (simp_all add: demo_trs_def Number_of_small)
  have b: "balance demo_sender < 4991 + 10"
    by (simp add: demo_sender_def)
  show ?thesis
    using apply_insufficient_balance [OF t r g a(1) a(2) _ _ f(1) f(2) _ _ b,
        of demo_block demo_store] g a(2) f(2) b
    by (simp add: demo_sender_def)
qed

subsection \<open>Further checks of verify\<close>

lemma unique_fold:
  "distinct p \<Longrightarrow>
   distinct (foldl (\<lambda>p c. if c \<in> set p then p else p @ [c]) p xs)
   \<and> set (foldl (\<lambda>p c. if c \<in> set p then p else p @ [c]) p xs) = set p \<union> set xs"
  by (induction xs arbitrary: p) auto

lemma unique_fold_length:
  "length (foldl (\<lambda>p c. if c \<in> set p then p else p @ [c]) [] xs) = length xs \<longleftrightarrow> distinct xs"
proof -
  let ?u = "foldl (\<lambda>p c. if c \<in> set p then p else p @ [c]) [] xs"
  from unique_fold [of "[]" xs] have d: "distinct ?u" and e: "set ?u = set xs" by simp_all
  from d have l: "length ?u = card (set xs)"
    using e distinct_card by fastforce
  show ?thesis
  proof
    assume "length ?u = length xs"
    with l have "card (set xs) = length xs" by simp
    then show "distinct xs" by (rule card_distinct)
  next
    assume "distinct xs"
    then have "card (set xs) = length xs" by (rule distinct_card)
    with l show "length ?u = length xs" by simp
  qed
qed

lemma check_unique_signatures_iff:
  "check_unique_signatures trs = None \<longleftrightarrow> (\<forall>sgs. signatures trs = Some sgs \<longrightarrow> distinct sgs)"
  by (auto simp: check_unique_signatures_def unique_fold_length split: option.splits)

lemma demo_check_signature:
  assumes "type trs = 0" and "requesterPublicKey trs = None"
    and "senderPublicKey trs = demo_key" and "recipientId trs = Some ''58191285901858109L''"
    and "signature trs = Some demo_signature" and "signSignature trs = None"
    and "- (2 ^ 31) \<le> timestamp trs" and "timestamp trs < 2 ^ 31"
    and "0 \<le> truncated (amount trs)" and "truncated (amount trs) < 2 ^ 63"
  shows "check_signature demo_env trs = None"
proof -
  have t: "types demo_env (type trs) = Some demo_handler"
    using assms(1) by (simp add: demo_types_0)
  have "getBytes demo_env trs True True
        = Inr (little_endian_bytes trs demo_key_bytes (if True then [] else demo_signature_bytes))"
  proof (rule getBytes_plain [OF t])
    show "h_getBytes demo_handler trs True True = Inr None"
      by (simp add: demo_handler_def)
    show "Buffer_hex (senderPublicKey trs) = Inr demo_key_bytes"
      using assms(3) by (simp add: demo_key_hex)
    show "recipient_ok (recipientId trs)"
      using assms(4) by (simp add: demo_recipient_ok)
    show "Buffer_hex demo_signature = Inr demo_signature_bytes"
      by (rule demo_signature_hex)
    show "demo_signature_bytes \<noteq> []"
      by (simp add: demo_signature_bytes_def)
  qed (use assms in \<open>simp_all add: truthy_def\<close>)
  then have "verifySignature demo_env trs demo_key (Some demo_signature) = Inr True"
    using t
    by (simp add: verifySignature_def verifyBytes_def demo_signature_nonempty
        demo_signature_hex demo_key_hex demo_env_def)
  then show ?thesis
    using assms(2,3,5) by (simp add: check_signature_def truthy_def)
qed

lemma demo_timestamp_passes:
  assumes "- (2 ^ 31) \<le> ts" and "ts < 2 ^ 31"
  shows "passes_before_fee demo_env (demo_trs\<lparr>timestamp := ts\<rparr>) demo_sender None"
proof -
  let ?trs = "demo_trs\<lparr>timestamp := ts\<rparr>"
  have c6: "check_signature demo_env ?trs = None"
    by (rule demo_check_signature) (use assms in \<open>simp_all add: demo_trs_def\<close>)
  then have "identity_checks demo_env ?trs demo_sender None = None"
    by (simp add: identity_checks_def check_sender_publicKey_def check_sender_address_def
        check_requester_def check_second_signature_def check_unique_signatures_def
        demo_trs_def demo_sender_def truthy_def String_of_def)
  moreover have "check_multisignatures demo_env ?trs (snd (add_sender ?trs demo_sender)) = None"
    by (simp add: check_multisignatures_def demo_trs_def)
  ultimately show ?thesis by (simp add: passes_before_fee_def)
qed

lemma demo_fee_and_amount_pass:
  assumes "fee trs = Number_of 10" and "amount trs = Number_of 1000"
  shows "check_fee demo_handler trs s = None" and "check_amount demo_env trs = None"
proof -
  have ten: "integer_of (Number_of 10) = Some 10"
    by (simp add: Number_of_small)
  from strict_equals_integer [OF ten ten] falsy_integer [OF ten] assms(1)
  show "check_fee demo_handler trs s = None"
    by (simp add: check_fee_def demo_handler_def)
  have "is_double (Number_of 1000)" and "integer_of (Number_of 1000) = Some 1000"
    and "integer_of (Number_of 10000000000000000) = Some 10000000000000000"
    by (simp_all add: Number_of_small Number_of_even)
  from amount_condition_integer [OF this] assms(2)
  show "check_amount demo_env trs = None"
    by (simp add: check_amount_def demo_env_def indexOf_nonneg_iff)
qed

text \<open>
  X7. When the checks of \<^verbatim>\<open>verify\<close> up to the second signature pass and
  \<^verbatim>\<open>trs.signatures\<close> holds the same signature twice, \<^verbatim>\<open>verify\<close> completes
  with "Encountered duplicate signature in transaction" and leaves the sender account
  as it was.
\<close>

theorem verify_duplicate_signatures:
  assumes "types env (type trs) = Some h"
    and "check_sender_publicKey env trs s = None" and "check_sender_address trs s = None"
    and "check_requester trs s = None" and "check_signature env trs = None"
    and "check_second_signature env trs s requester = None"
    and "signatures trs = Some sgs" and "\<not> distinct sgs"
  shows "verify env trs (Some s) requester = (Some Duplicate_signature, Some s)
       \<and> message Duplicate_signature = ''Encountered duplicate signature in transaction''"
proof -
  have "check_unique_signatures trs = Some Duplicate_signature"
    using assms(7,8) by (simp add: check_unique_signatures_def unique_fold_length)
  then have "identity_checks env trs s requester = Some Duplicate_signature"
    using assms(2-6) by (simp add: identity_checks_def)
  then show ?thesis by (simp add: verify_Some [OF assms(1)])
qed

theorem verify_duplicate_signatures_witness:
  "signatures (demo_trs\<lparr>signatures := Some [demo_signature, demo_signature]\<rparr>)
     = Some [demo_signature, demo_signature]
   \<and> \<not> distinct [demo_signature, demo_signature]
   \<and> verify demo_env (demo_trs\<lparr>signatures := Some [demo_signature, demo_signature]\<rparr>)
        (Some demo_sender) None
       = (Some Duplicate_signature, Some demo_sender)"
proof -
  let ?trs = "demo_trs\<lparr>signatures := Some [demo_signature, demo_signature]\<rparr>"
  have t: "types demo_env (type ?trs) = Some demo_handler"
    by (simp add: demo_types_0 demo_trs_type)
  have c3: "check_sender_publicKey demo_env ?trs demo_sender = None"
    by (simp add: check_sender_publicKey_def demo_trs_def demo_sender_def)
  have c4: "check_sender_address ?trs demo_sender = None"
    by (simp add: check_sender_address_def demo_trs_def demo_sender_def String_of_def)
  have c5: "check_requester ?trs demo_sender = None"
    by (simp add: check_requester_def demo_trs_def)
  have c6: "check_signature demo_env ?trs = None"
    by (rule demo_check_signature) (simp_all add: demo_trs_def)
  have c7: "check_second_signature demo_env ?trs demo_sender None = None"
    by (simp add: check_second_signature_def demo_trs_def demo_sender_def truthy_def)
  have sg: "signatures ?trs = Some [demo_signature, demo_signature]"
    by simp
  have nd: "\<not> distinct [demo_signature, demo_signature]"
    by simp
  show ?thesis
    using verify_duplicate_signatures [OF t c3 c4 c5 c6 c7 sg nd] sg nd by simp
qed

text \<open>
  X8. When the sender's public key and address match and the requester public key
  of the transaction is not in the sender's \<^verbatim>\<open>multisignatures\<close>, \<^verbatim>\<open>verify\<close>
  completes with "Invalid requester public key" and leaves the sender account as it
  was.
\<close>

theorem verify_requester_outside_group:
  assumes "types env (type trs) = Some h"
    and "check_sender_publicKey env trs s = None" and "check_sender_address trs s = None"
    and "requesterPublicKey trs = Some r" and "r \<noteq> []"
    and "multisignatures s = Some ms" and "r \<notin> set ms"
  shows "verify env trs (Some s) requester = (Some Invalid_requester_public_key, Some s)
       \<and> message Invalid_requester_public_key = ''Invalid requester public key''"
proof -
  have "check_requester trs s = Some Invalid_requester_public_key"
    using assms(4-7) by (simp add: check_requester_def)
  then have "identity_checks env trs s requester = Some Invalid_requester_public_key"
    using assms(2,3) by (simp add: identity_checks_def)
  then show ?thesis by (simp add: verify_Some [OF assms(1)])
qed

theorem verify_requester_outside_group_witness:
  "requesterPublicKey requested_trs = Some cosigner_key
   \<and> multisignatures (demo_sender\<lparr>multisignatures := Some [demo_key]\<rparr>) = Some [demo_key]
   \<and> cosigner_key \<notin> set [demo_key]
   \<and> verify demo_env requested_trs (Some (demo_sender\<lparr>multisignatures := Some [demo_key]\<rparr>)) None
       = (Some Invalid_requester_public_key, Some (demo_sender\<lparr>multisignatures := Some [demo_key]\<rparr>))"
proof -
  let ?s = "demo_sender\<lparr>multisignatures := Some [demo_key]\<rparr>"
  have t: "types demo_env (type requested_trs) = Some demo_handler"
    by (simp add: requested_trs_def demo_trs_type demo_types_0)
  have c3: "check_sender_publicKey demo_env requested_trs ?s = None"
    by (simp add: check_sender_publicKey_def requested_trs_def demo_trs_def demo_sender_def)
  have c4: "check_sender_address requested_trs ?s = None"
    by (simp add: check_sender_address_def requested_trs_def demo_trs_def demo_sender_def
        String_of_def)
  have r: "requesterPublicKey requested_trs = Some cosigner_key"
    by (simp add: requested_trs_def)
  have m: "multisignatures ?s = Some [demo_key]"
    by simp
  have n: "cosigner_key \<notin> set [demo_key]"
    by (simp add: cosigner_key_def demo_key_def)
  show ?thesis
    using verify_requester_outside_group [OF t c3 c4 r cosigner_key_nonempty m n, of None] r m n
    by simp
qed

text \<open>
  X9. When \<^verbatim>\<open>verify\<close> gets past the amount check, it completes with "Invalid
  transaction timestamp" if and only if the slot of the transaction's timestamp is
  later than the current slot: a timestamp in the current slot is accepted.
\<close>

theorem verify_timestamp_check:
  assumes "types env (type trs) = Some h"
    and "passes_before_fee env trs s requester"
    and "check_fee h trs (fst (add_sender trs s)) = None"
    and "check_amount env trs = None"
  shows "fst (verify env trs (Some s) requester) = Some Invalid_transaction_timestamp
         \<longleftrightarrow> currentSlot env < getSlotNumber env (timestamp trs)"
  using assms(2-4)
  by (auto simp: verify_Some [OF assms(1)] passes_before_fee_def check_timestamp_def
      first_error_Cons split: option.splits)

theorem verify_timestamp_check_witness:
  "getSlotNumber demo_env (timestamp (demo_trs\<lparr>timestamp := 200000\<rparr>)) = currentSlot demo_env
   \<and> fst (verify demo_env (demo_trs\<lparr>timestamp := 200000\<rparr>) (Some demo_sender) None)
        \<noteq> Some Invalid_transaction_timestamp
   \<and> currentSlot demo_env < getSlotNumber demo_env (timestamp (demo_trs\<lparr>timestamp := 200010\<rparr>))
   \<and> fst (verify demo_env (demo_trs\<lparr>timestamp := 200010\<rparr>) (Some demo_sender) None)
        = Some Invalid_transaction_timestamp"
proof -
  have t: "types demo_env (type (demo_trs\<lparr>timestamp := ts\<rparr>)) = Some demo_handler" for ts
    by (simp add: demo_types_0 demo_trs_type)
  have f: "check_fee demo_handler (demo_trs\<lparr>timestamp := ts\<rparr>)
             (fst (add_sender (demo_trs\<lparr>timestamp := ts\<rparr>) demo_sender)) = None" for ts
    by (rule demo_fee_and_amount_pass) (simp_all add: demo_trs_def)
  have a: "check_amount demo_env (demo_trs\<lparr>timestamp := ts\<rparr>) = None" for ts
    by (rule demo_fee_and_amount_pass) (simp_all add: demo_trs_def)
  have p1: "passes_before_fee demo_env (demo_trs\<lparr>timestamp := 200000\<rparr>) demo_sender None"
    by (rule demo_timestamp_passes) simp_all
  have p2: "passes_before_fee demo_env (demo_trs\<lparr>timestamp := 200010\<rparr>) demo_sender None"
    by (rule demo_timestamp_passes) simp_all
  have s1: "getSlotNumber demo_env (timestamp (demo_trs\<lparr>timestamp := 200000\<rparr>)) = currentSlot demo_env"
    by (simp add: demo_env_def)
  have s2: "currentSlot demo_env < getSlotNumber demo_env (timestamp (demo_trs\<lparr>timestamp := 200010\<rparr>))"
    by (simp add: demo_env_def)
  show ?thesis
    using verify_timestamp_check [OF t p1 f a] verify_timestamp_check [OF t p2 f a] s1 s2
    by simp
qed

subsection \<open>Unregistered types\<close>

text \<open>
  X10. For a transaction of a type that is not registered, \<^verbatim>\<open>verify\<close>,
  \<^verbatim>\<open>apply\<close>, \<^verbatim>\<open>undo\<close>, \<^verbatim>\<open>applyUnconfirmed\<close> and \<^verbatim>\<open>undoUnconfirmed\<close>
  complete with "Unknown transaction type" and the type, leaving the accounts as they
  were, and \<^verbatim>\<open>getBytes\<close>, \<^verbatim>\<open>getId\<close>, \<^verbatim>\<open>verifySignature\<close>,
  \<^verbatim>\<open>verifySecondSignature\<close> and \<^verbatim>\<open>ready\<close> throw an error with that message.
\<close>

theorem unknown_transaction_type:
  assumes "types env (type trs) = None"
  shows "verify env trs sender requester = (Some (Unknown_transaction_type (type trs)), sender)
       \<and> apply_trs env trs blk sender st = (Some (Unknown_transaction_type (type trs)), st)
       \<and> undo_trs env trs blk s st = (Some (Unknown_transaction_type (type trs)), st)
       \<and> applyUnconfirmed env trs s requester st = (Some (Unknown_transaction_type (type trs)), st)
       \<and> undoUnconfirmed env trs s st = (Some (Unknown_transaction_type (type trs)), st)
       \<and> getBytes env trs skipSignature skipSecondSignature
           = Inl (''Error: Unknown transaction type '' @ dec_digits (type trs))
       \<and> getId env trs = Inl (''Error: Unknown transaction type '' @ dec_digits (type trs))
       \<and> verifySignature env trs pk sg
           = Inl (''Error: Unknown transaction type '' @ dec_digits (type trs))
       \<and> verifySecondSignature env trs pk sg
           = Inl (''Error: Unknown transaction type '' @ dec_digits (type trs))
       \<and> ready env trs sender = Inl (''Error: Unknown transaction type '' @ dec_digits (type trs))"
  using assms
  by (simp add: verify_def apply_trs_def undo_trs_def applyUnconfirmed_def undoUnconfirmed_def
      getBytes_def getId_def getHash_def verifySignature_def verifySecondSignature_def ready_def)

theorem unknown_transaction_type_witness:
  "types demo_env (type (demo_trs\<lparr>type := 7\<rparr>)) = None
   \<and> verify demo_env (demo_trs\<lparr>type := 7\<rparr>) (Some demo_sender) None
       = (Some (Unknown_transaction_type 7), Some demo_sender)
   \<and> apply_trs demo_env (demo_trs\<lparr>type := 7\<rparr>) demo_block (Some demo_sender) demo_store
       = (Some (Unknown_transaction_type 7), demo_store)
   \<and> message (Unknown_transaction_type 7) = ''Unknown transaction type 7''
   \<and> getBytes demo_env (demo_trs\<lparr>type := 7\<rparr>) False False = Inl ''Error: Unknown transaction type 7''"
proof -
  have t: "types demo_env (type (demo_trs\<lparr>type := 7\<rparr>)) = None"
    by (simp add: demo_env_def)
  have d: "dec_digits 7 = ''7''"
    by (simp add: dec_digits.simps digit_char_values)
  show ?thesis
    using unknown_transaction_type [OF t, of "Some demo_sender" None demo_block demo_store
        demo_sender False False demo_key None] t
    by (simp add: d)
qed


end
